(* ===== verification/Prelude.thy ===== *)
theory Prelude
  imports Complex_Main "HOL-Library.Word" "HOL-Library.Char_ord" "HOL-Library.List_Lexorder"
    "HOL-Library.Multiset"
begin

text \<open>
  Shared vocabulary of the development: the named fact collections, the model of a JavaScript
  \<open>Map\<close> read with a default, string joining, and generic list lemmas (filters over sorted lists,
  sums over filtered lists) that several components use.

  JavaScript strings are modelled as HOL strings, so a \<open>char\<close> is a UTF-16 code unit below 256.
  Order on strings is the library's lexicographic order on character codes, which is the order of
  \<open>Array.prototype.sort\<close> and of \<open><\<close> on JavaScript strings.
\<close>

named_theorems amount_simps \<open>conversion between integer strings and numbers\<close>
named_theorems codec_simps \<open>round trips of the encoders\<close>
named_theorems policy_simps \<open>frame facts of the policy engine\<close>
named_theorems store_simps \<open>lookup-after-update facts of the stores\<close>

type_synonym ('k, 'v) js_map = "'k \<Rightarrow> 'v option"

definition get_or :: "'v \<Rightarrow> ('k, 'v) js_map \<Rightarrow> 'k \<Rightarrow> 'v" where
  "get_or d m k = (case m k of None \<Rightarrow> d | Some v \<Rightarrow> v)"

lemma get_or_empty [simp]: "get_or d Map.empty k = d"
  by (simp add: get_or_def)

lemma get_or_upd [simp]: "get_or d (m(k \<mapsto> v)) j = (if j = k then v else get_or d m j)"
  by (simp add: get_or_def)

text \<open>\<open>xs.join(sep)\<close>.\<close>

fun join_with :: "string \<Rightarrow> string list \<Rightarrow> string" where
  "join_with sep [] = []"
| "join_with sep [x] = x"
| "join_with sep (x # y # ys) = x @ sep @ join_with sep (y # ys)"

subsection \<open>Lists\<close>

lemma dropWhile_sorted_filter:
  "sorted (map f xs) \<Longrightarrow> dropWhile (\<lambda>x. f x < c) xs = filter (\<lambda>x. c \<le> f x) xs"
proof (induction xs)
  case Nil
  then show ?case by simp
next
  case (Cons x xs)
  show ?case
  proof (cases "f x < c")
    case True
    with Cons show ?thesis by auto
  next
    case False
    with Cons.prems have "\<forall>y\<in>set xs. c \<le> f y" by fastforce
    with False show ?thesis by simp
  qed
qed

lemma filter_filter_le:
  "c \<le> (d::'a::linorder) \<Longrightarrow> filter (\<lambda>x. d \<le> f x) (filter (\<lambda>x. c \<le> f x) xs) = filter (\<lambda>x. d \<le> f x) xs"
  by (induction xs) auto

lemma sorted_snoc: "sorted xs \<Longrightarrow> \<forall>x\<in>set xs. x \<le> y \<Longrightarrow> sorted (xs @ [y])"
  by (simp add: sorted_append)

lemma last_map_upt: "n \<noteq> 0 \<Longrightarrow> last (map f [0..<n]) = f (n - 1)"
  by (cases n) auto

lemma strictly_sorted_nth_ge:
  assumes "sorted_wrt (<) (xs :: int list)" and "\<forall>x\<in>set xs. 0 \<le> x" and "i < length xs"
  shows "int i \<le> xs ! i"
  using assms(3)
proof (induction i)
  case 0
  then show ?case using assms(2) by simp
next
  case (Suc i)
  have "xs ! i < xs ! Suc i"
    using assms(1) Suc.prems by (simp add: sorted_wrt_nth_less)
  with Suc show ?case by simp
qed

lemma insort_key_map: "insort_key f (g x) (map g xs) = map g (insort_key (\<lambda>x. f (g x)) x xs)"
  by (induction xs) simp_all

lemma sort_key_map: "sort_key f (map g xs) = map g (sort_key (\<lambda>x. f (g x)) xs)"
  by (induction xs) (simp_all add: insort_key_map)

text \<open>With distinct keys, sorting forgets the order of its input.\<close>

lemma sort_key_mset:
  assumes "mset xs = mset ys" "distinct (map f xs)"
  shows "sort_key (f :: 'a \<Rightarrow> 'b::linorder) xs = sort_key f ys"
proof (rule map_sorted_distinct_set_unique)
  have s: "set xs = set ys" by (rule mset_eq_setD [OF assms(1)])
  have "mset (map f ys) = mset (map f xs)" using assms(1) by simp
  then have d: "distinct (map f ys)" using assms(2) mset_eq_imp_distinct_iff by blast
  have "distinct zs \<Longrightarrow> inj_on f (set zs) \<Longrightarrow> distinct (map f (sort_key f zs))" for zs
    by (simp add: distinct_map)
  with assms(2) d show "distinct (map f (sort_key f xs))" "distinct (map f (sort_key f ys))"
    by (simp_all add: distinct_map)
  show "inj_on f (set (sort_key f xs) \<union> set (sort_key f ys))" using assms(2) s by (simp add: distinct_map)
  show "set (sort_key f xs) = set (sort_key f ys)" using s by simp
qed simp_all

lemma join_with_Cons: "join_with sep (x # xs) = x @ concat (map ((@) sep) xs)"
  by (induction xs arbitrary: x) simp_all

end
