(* ===== verification/Decimal.thy ===== *)
theory Decimal
  imports Prelude
begin

text \<open>
  Integer strings. Every amount in the program is a string of decimal digits, checked by the regular
  expression \<open>/^[0-9]+$/\<close> (\<open>AMOUNT_RE\<close> in \<open>packages/channels/src/manager.ts\<close> and
  \<open>packages/reconcile/src/index.ts\<close>, inlined in \<open>packages/core/src/policy.ts\<close>), read with
  \<open>BigInt\<close> and written back with \<open>toString\<close>. The second half models \<open>BigInt\<close> on an arbitrary
  string (signs, white space, radix prefixes), which the observability rollup and the dashboard use
  without checking the string first.
\<close>

definition is_digit :: "char \<Rightarrow> bool" where
  "is_digit c \<longleftrightarrow> 48 \<le> (of_char c :: nat) \<and> of_char c \<le> (57 :: nat)"

definition digit_val :: "char \<Rightarrow> nat" where
  "digit_val c = of_char c - 48"

definition digit_char :: "nat \<Rightarrow> char" where
  "digit_char d = char_of (d + 48)"

definition AMOUNT_RE :: "string \<Rightarrow> bool" where
  "AMOUNT_RE s \<longleftrightarrow> s \<noteq> [] \<and> list_all is_digit s"

text \<open>\<open>BigInt\<close> on a string that matches the pattern.\<close>

definition BigInt :: "string \<Rightarrow> nat" where
  "BigInt s = foldl (\<lambda>n c. 10 * n + digit_val c) 0 s"

text \<open>\<open>toString\<close> of a non-negative and of an arbitrary integer.\<close>

fun nat_toString :: "nat \<Rightarrow> string" where
  "nat_toString n = (if n < 10 then [digit_char n] else nat_toString (n div 10) @ [digit_char (n mod 10)])"

declare nat_toString.simps [simp del]

definition int_toString :: "int \<Rightarrow> string" where
  "int_toString i = (if i < 0 then ''-'' @ nat_toString (nat (- i)) else nat_toString (nat i))"

lemma of_char_digit_char: "d < 10 \<Longrightarrow> (of_char (digit_char d) :: nat) = d + 48"
  by (simp add: digit_char_def)

lemma digit_char_0 [simp]: "digit_char 0 = CHR ''0''"
proof -
  have "(of_char (digit_char 0) :: nat) = of_char (CHR ''0'')"
    by (simp add: of_char_digit_char)
  then show ?thesis by (simp only: of_char_eq_iff)
qed

lemma is_digit_digit_char [simp]: "d < 10 \<Longrightarrow> is_digit (digit_char d)"
  by (simp add: is_digit_def of_char_digit_char)

lemma digit_val_digit_char [simp]: "d < 10 \<Longrightarrow> digit_val (digit_char d) = d"
  by (simp add: digit_val_def of_char_digit_char)

lemma digit_char_digit_val [simp]: "is_digit c \<Longrightarrow> digit_char (digit_val c) = c"
  by (simp add: digit_char_def digit_val_def is_digit_def)

lemma digit_val_less [simp]: "is_digit c \<Longrightarrow> digit_val c < 10"
  by (auto simp: digit_val_def is_digit_def)

lemma BigInt_Nil [simp]: "BigInt [] = 0"
  by (simp add: BigInt_def)

lemma BigInt_snoc [simp]: "BigInt (s @ [c]) = 10 * BigInt s + digit_val c"
  by (simp add: BigInt_def)

lemma BigInt_single [simp]: "BigInt [c] = digit_val c"
  by (simp add: BigInt_def)

lemma nat_toString_not_Nil [simp]: "nat_toString n \<noteq> []"
  by (subst nat_toString.simps) simp

lemma nat_toString_digits: "list_all is_digit (nat_toString n)"
proof (induction n rule: nat_toString.induct)
  case (1 n)
  then show ?case
    by (cases "n < 10") (simp_all add: nat_toString.simps [of n])
qed

lemma AMOUNT_RE_toString [simp, amount_simps]: "AMOUNT_RE (nat_toString n)"
  by (simp add: AMOUNT_RE_def nat_toString_digits)

lemma BigInt_toString [simp, amount_simps]: "BigInt (nat_toString n) = n"
proof (induction n rule: nat_toString.induct)
  case (1 n)
  then show ?case
    by (cases "n < 10") (simp_all add: nat_toString.simps [of n])
qed

lemma nat_toString_inject [simp, amount_simps]: "nat_toString m = nat_toString n \<longleftrightarrow> m = n"
  by (metis BigInt_toString)

lemma nat_toString_zero [amount_simps]: "nat_toString 0 = ''0''"
  by (simp add: nat_toString.simps)

lemma BigInt_zero_string [simp, amount_simps]: "BigInt ''0'' = 0" "AMOUNT_RE ''0''"
  by (simp_all add: digit_val_def AMOUNT_RE_def is_digit_def)

text \<open>A string of digits without a superfluous leading zero is what \<open>toString\<close> prints.\<close>

definition canonical_amount :: "string \<Rightarrow> bool" where
  "canonical_amount s \<longleftrightarrow> AMOUNT_RE s \<and> (length s = 1 \<or> hd s \<noteq> CHR ''0'')"

lemma digit_val_zero_iff: "is_digit c \<Longrightarrow> digit_val c = 0 \<longleftrightarrow> c = CHR ''0''"
  using digit_char_digit_val [of c] by (metis digit_char_0 digit_val_digit_char zero_less_numeral)

lemma BigInt_pos: "list_all is_digit s \<Longrightarrow> s \<noteq> [] \<Longrightarrow> hd s \<noteq> CHR ''0'' \<Longrightarrow> 0 < BigInt s"
proof (induction s rule: rev_induct)
  case Nil
  then show ?case by simp
next
  case (snoc c s)
  then show ?case
    by (cases "s = []") (auto simp: digit_val_zero_iff neq0_conv [symmetric] simp del: neq0_conv)
qed

lemma toString_BigInt: "canonical_amount s \<Longrightarrow> nat_toString (BigInt s) = s"
proof (induction s rule: rev_induct)
  case Nil
  then show ?case by (simp add: canonical_amount_def AMOUNT_RE_def)
next
  case (snoc c s)
  then have c: "is_digit c" by (simp add: canonical_amount_def AMOUNT_RE_def)
  show ?case
  proof (cases "s = []")
    case True
    with c show ?thesis by (simp add: nat_toString.simps)
  next
    case False
    with snoc.prems have s: "canonical_amount s"
      by (auto simp: canonical_amount_def AMOUNT_RE_def)
    have "0 < BigInt s"
      using False snoc.prems by (intro BigInt_pos) (auto simp: canonical_amount_def AMOUNT_RE_def)
    with c snoc.IH [OF s] show ?thesis
      by (subst nat_toString.simps) simp
  qed
qed

subsection \<open>\<open>BigInt\<close> on an arbitrary string\<close>

text \<open>
  The ECMAScript string-to-BigInt grammar: optional white space around an empty text (0), an optionally
  signed decimal, or an unsigned literal with prefix \<open>0b\<close>, \<open>0o\<close> or \<open>0x\<close> (either case).
  Anything else is a \<open>SyntaxError\<close>, modelled as \<open>None\<close>.
\<close>

definition is_js_space :: "char \<Rightarrow> bool" where
  "is_js_space c \<longleftrightarrow> (of_char c :: nat) \<in> {9, 10, 11, 12, 13, 32, 160}"

definition js_trim :: "string \<Rightarrow> string" where
  "js_trim s = rev (dropWhile is_js_space (rev (dropWhile is_js_space s)))"

definition radix_digit :: "char \<Rightarrow> nat" where
  "radix_digit c =
     (let n = (of_char c :: nat)
      in if 48 \<le> n \<and> n \<le> 57 then n - 48
         else if 97 \<le> n \<and> n \<le> 122 then n - 87
         else if 65 \<le> n \<and> n \<le> 90 then n - 55
         else 36)"

definition parse_radix :: "nat \<Rightarrow> string \<Rightarrow> nat option" where
  "parse_radix r s =
     (if s \<noteq> [] \<and> list_all (\<lambda>c. radix_digit c < r) s
      then Some (foldl (\<lambda>n c. r * n + radix_digit c) 0 s) else None)"

definition StringToBigInt :: "string \<Rightarrow> int option" where
  "StringToBigInt text =
     (case js_trim text of
        [] \<Rightarrow> Some 0
      | c # cs \<Rightarrow>
          (if c = CHR ''-'' then map_option (\<lambda>n. - int n) (parse_radix 10 cs)
           else if c = CHR ''+'' then map_option int (parse_radix 10 cs)
           else if c = CHR ''0'' \<and> cs \<noteq> [] \<and> hd cs \<in> {CHR ''b'', CHR ''B''}
             then map_option int (parse_radix 2 (tl cs))
           else if c = CHR ''0'' \<and> cs \<noteq> [] \<and> hd cs \<in> {CHR ''o'', CHR ''O''}
             then map_option int (parse_radix 8 (tl cs))
           else if c = CHR ''0'' \<and> cs \<noteq> [] \<and> hd cs \<in> {CHR ''x'', CHR ''X''}
             then map_option int (parse_radix 16 (tl cs))
           else map_option int (parse_radix 10 (c # cs))))"

lemma radix_digit_digit: "is_digit c \<Longrightarrow> radix_digit c = digit_val c"
  by (simp add: radix_digit_def digit_val_def is_digit_def)

lemma digit_not_space: "is_digit c \<Longrightarrow> \<not> is_js_space c"
  by (auto simp: is_digit_def is_js_space_def)

lemma dropWhile_no_space: "list_all is_digit s \<Longrightarrow> dropWhile is_js_space s = s"
  by (cases s) (auto simp: digit_not_space)

lemma js_trim_digits: "list_all is_digit s \<Longrightarrow> js_trim s = s"
  by (simp add: js_trim_def dropWhile_no_space list_all_iff)

lemma foldl_radix_digits:
  "list_all is_digit s \<Longrightarrow>
   foldl (\<lambda>n c. 10 * n + radix_digit c) a s = foldl (\<lambda>n c. 10 * n + digit_val c) a s"
  by (induction s arbitrary: a) (auto simp: radix_digit_digit)

lemma parse_radix_digits: "AMOUNT_RE s \<Longrightarrow> parse_radix 10 s = Some (BigInt s)"
  by (auto simp: parse_radix_def AMOUNT_RE_def BigInt_def foldl_radix_digits list_all_iff
      radix_digit_digit)

text \<open>On a string that the pattern accepts, the general conversion is the checked one.\<close>

lemma StringToBigInt_amount [amount_simps]:
  assumes "AMOUNT_RE s"
  shows "StringToBigInt s = Some (int (BigInt s))"
proof -
  obtain c cs where s: "s = c # cs" and d: "is_digit c" "list_all is_digit cs"
    using assms by (cases s) (auto simp: AMOUNT_RE_def)
  have hd: "cs \<noteq> [] \<Longrightarrow> is_digit (hd cs)" using d(2) by (cases cs) auto
  have ne: "c \<noteq> CHR ''-''" "c \<noteq> CHR ''+''" "\<And>x. is_digit x \<Longrightarrow> x \<notin> {CHR ''b'', CHR ''B''}"
    "\<And>x. is_digit x \<Longrightarrow> x \<notin> {CHR ''o'', CHR ''O''}" "\<And>x. is_digit x \<Longrightarrow> x \<notin> {CHR ''x'', CHR ''X''}"
    using d(1) by (auto simp: is_digit_def)
  have "js_trim s = c # cs" using assms s by (simp add: js_trim_digits AMOUNT_RE_def)
  then show ?thesis
    using parse_radix_digits [OF assms] s ne hd by (auto simp: StringToBigInt_def)
qed

end
