(* ===== verification/Domain.thy ===== *)
theory Domain
  imports Decimal
begin

text \<open>
  The shared domain types of \<open>packages/core/src/types.ts\<close> and the typed errors of
  \<open>packages/core/src/errors.ts\<close>. A thrown error is a value of \<open>js_error\<close>, and a fallible
  operation returns \<open>js_error + 'a\<close> with \<open>Inl\<close> for the throw.
\<close>

subsection \<open>Settlement models and networks\<close>

datatype settlement_model = X402 | Mpp_charge | Mpp_channel

definition settlementModels :: "settlement_model list" where
  "settlementModels = [X402, Mpp_charge, Mpp_channel]"

fun model_str :: "settlement_model \<Rightarrow> string" where
  "model_str X402 = ''x402''"
| "model_str Mpp_charge = ''mpp-charge''"
| "model_str Mpp_channel = ''mpp-channel''"

datatype stellar_network = Testnet | Mainnet

definition stellarNetworks :: "stellar_network list" where
  "stellarNetworks = [Testnet, Mainnet]"

fun network_str :: "stellar_network \<Rightarrow> string" where
  "network_str Testnet = ''testnet''"
| "network_str Mainnet = ''mainnet''"

lemma model_str_inject [simp]: "model_str m = model_str n \<longleftrightarrow> m = n"
  by (cases m; cases n) simp_all

lemma network_str_inject [simp]: "network_str m = network_str n \<longleftrightarrow> m = n"
  by (cases m; cases n) simp_all

lemma set_settlementModels [simp]: "m \<in> set settlementModels"
  by (cases m) (simp_all add: settlementModels_def)

lemma model_str_no_colon: "CHR '':'' \<notin> set (model_str m)"
  by (cases m) simp_all

text \<open>
  The models in the order the source declares them, as a linear order, so that the library's facts on
  \<open>\<le>\<close> and \<open>sorted\<close> apply to preference lists.
\<close>

fun model_rank :: "settlement_model \<Rightarrow> nat" where
  "model_rank X402 = 0"
| "model_rank Mpp_charge = 1"
| "model_rank Mpp_channel = 2"

lemma model_rank_inject [simp]: "model_rank m = model_rank n \<longleftrightarrow> m = n"
  by (cases m; cases n) simp_all

instantiation settlement_model :: linorder
begin

definition less_eq_settlement_model :: "settlement_model \<Rightarrow> settlement_model \<Rightarrow> bool" where
  "less_eq_settlement_model m n \<longleftrightarrow> model_rank m \<le> model_rank n"

definition less_settlement_model :: "settlement_model \<Rightarrow> settlement_model \<Rightarrow> bool" where
  "less_settlement_model m n \<longleftrightarrow> model_rank m < model_rank n"

instance
  by standard (auto simp: less_eq_settlement_model_def less_settlement_model_def)

end

lemma sorted_settlementModels: "sorted settlementModels" "distinct settlementModels"
  by (simp_all add: settlementModels_def less_eq_settlement_model_def)

subsection \<open>Offers and payments\<close>

record payment_offer =
  offer_resource :: string
  offer_amount :: string
  offer_asset :: string
  offer_payTo :: string
  offer_network :: stellar_network
  offer_models :: "settlement_model list"
  offer_mppSessionSupported :: "bool option"
  offer_facilitatorUrl :: "string option"

text \<open>\<open>PaymentPayload\<close>, one constructor per variant of the union.\<close>

datatype payment_payload =
    X402Payment (paymentSignature: string)
  | MppChargePayment (charge_payload: string)
  | MppChannelPayment (chan_channelId: string) (chan_sequence: int) (chan_cumulativeAmount: string)
      (chan_commitment: string)

subsection \<open>Errors\<close>

datatype tollway_error_code =
    Not_implemented | No_viable_model | Invalid_receipt | Invalid_amount | Canonicalization_failed
  | Budget_exceeded | Payment_failed | Policy_blocked | Receipt_verification_failed
  | Channel_not_found | Channel_not_open | Channel_already_closed | Commitment_exceeds_deposit
  | Settlement_mismatch

text \<open>
  What the code throws: a \<open>TollwayError\<close> with its code and message, a \<open>NotImplementedError\<close> with its
  feature and reference, an error of the platform or of an injected dependency, with its name, or an \<open>AggregateError\<close>.
\<close>

datatype js_error =
    TollwayError tollway_error_code string
  | NotImplementedError string string
  | PlatformError string string
  | AggregateError "js_error list" string

fun error_code :: "js_error \<Rightarrow> tollway_error_code option" where
  "error_code (TollwayError c _) = Some c"
| "error_code (NotImplementedError _ _) = Some Not_implemented"
| "error_code (PlatformError _ _) = None"
| "error_code (AggregateError _ _) = None"

fun error_message :: "js_error \<Rightarrow> string" where
  "error_message (TollwayError _ msg) = msg"
| "error_message (NotImplementedError feature reference) =
     feature @ '' is not implemented yet. See '' @ reference @ ''.''"
| "error_message (PlatformError _ msg) = msg"
| "error_message (AggregateError _ msg) = msg"

type_synonym 'a result = "js_error + 'a"

end
