(* ===== verification/Dates.thy ===== *)
theory Dates
  imports Domain
begin

text \<open>
  \<open>Date.prototype.toISOString\<close> as ECMAScript defines it, because the policy engine's daily window is
  the first ten characters of that string (\<open>utcDate\<close> in \<open>packages/core/src/policy.ts\<close>) and the
  observability queries compare such strings. A time value is an integer number of milliseconds since
  the epoch.
\<close>

definition msPerDay :: int where
  "msPerDay = 86400000"

definition DayFromYear :: "int \<Rightarrow> int" where
  "DayFromYear y = 365 * (y - 1970) + (y - 1969) div 4 - (y - 1901) div 100 + (y - 1601) div 400"

text \<open>The largest year that starts on or before the day: an estimate, corrected by one either way.\<close>

definition YearFromDay :: "int \<Rightarrow> int" where
  "YearFromDay d =
     (let y = 1970 + (400 * d) div 146097
      in if DayFromYear (y + 1) \<le> d then y + 1 else if DayFromYear y \<le> d then y else y - 1)"

definition leap_days :: "int \<Rightarrow> int" where
  "leap_days y = DayFromYear (y + 1) - DayFromYear y - 365"

definition month_start :: "int \<Rightarrow> nat \<Rightarrow> int" where
  "month_start l m = [0, 31, 59 + l, 90 + l, 120 + l, 151 + l, 181 + l, 212 + l, 243 + l, 273 + l,
     304 + l, 334 + l] ! m"

definition month_of :: "int \<Rightarrow> int \<Rightarrow> nat" where
  "month_of l n =
     (if n < 31 then 0 else if n < 59 + l then 1 else if n < 90 + l then 2 else if n < 120 + l then 3
      else if n < 151 + l then 4 else if n < 181 + l then 5 else if n < 212 + l then 6
      else if n < 243 + l then 7 else if n < 273 + l then 8 else if n < 304 + l then 9
      else if n < 334 + l then 10 else 11)"

text \<open>Year, month (from 0) and day of the month (from 1) of a day number.\<close>

definition civil :: "int \<Rightarrow> int \<times> nat \<times> nat" where
  "civil d =
     (let y = YearFromDay d; l = leap_days y; n = d - DayFromYear y; m = month_of l n
      in (y, m, nat (n - month_start l m + 1)))"

definition padStart :: "nat \<Rightarrow> string \<Rightarrow> string" where
  "padStart w s = replicate (w - length s) (CHR ''0'') @ s"

definition year_string :: "int \<Rightarrow> string" where
  "year_string y =
     (if 0 \<le> y \<and> y \<le> 9999 then padStart 4 (nat_toString (nat y))
      else (if y < 0 then ''-'' else ''+'') @ padStart 6 (nat_toString (nat \<bar>y\<bar>)))"

definition date_string :: "int \<Rightarrow> string" where
  "date_string d =
     (case civil d of (y, m, day) \<Rightarrow>
        year_string y @ ''-'' @ padStart 2 (nat_toString (Suc m)) @ ''-'' @ padStart 2 (nat_toString day))"

definition time_string :: "int \<Rightarrow> string" where
  "time_string ms =
     ''T'' @ padStart 2 (nat_toString (nat (ms div 3600000))) @ '':'' @
     padStart 2 (nat_toString (nat (ms div 60000 mod 60))) @ '':'' @
     padStart 2 (nat_toString (nat (ms div 1000 mod 60))) @ ''.'' @
     padStart 3 (nat_toString (nat (ms mod 1000))) @ ''Z''"

definition toISOString :: "int \<Rightarrow> string result" where
  "toISOString t =
     (if \<bar>t\<bar> \<le> 8640000000000000
      then Inr (date_string (t div msPerDay) @ time_string (t mod msPerDay))
      else Inl (PlatformError ''RangeError'' ''Invalid time value''))"

subsection \<open>The calendar is right\<close>

lemma div_bounds:
  fixes a k :: int assumes "0 < k" shows "k * (a div k) \<le> a" "a < k * (a div k) + k"
proof -
  have "k * (a div k) + a mod k = a" by simp
  moreover have "0 \<le> a mod k" "a mod k < k" using assms by simp_all
  ultimately show "k * (a div k) \<le> a" "a < k * (a div k) + k" by linarith+
qed

lemma DayFromYear_bounds:
  "146097 * (y - 1970) - 506 \<le> 400 * DayFromYear y"
  "400 * DayFromYear y \<le> 146097 * (y - 1970) + 589"
  unfolding DayFromYear_def
  using div_bounds [of 4 "y - 1969", simplified] div_bounds [of 100 "y - 1901", simplified]
    div_bounds [of 400 "y - 1601", simplified]
  by simp_all

lemma YearFromDay:
  "DayFromYear (YearFromDay d) \<le> d" "d < DayFromYear (YearFromDay d + 1)"
proof -
  define q where "q = (400 * d) div 146097"
  have q: "146097 * q \<le> 400 * d" "400 * d < 146097 * q + 146097"
    unfolding q_def by (rule div_bounds; simp)+
  have lo: "DayFromYear (1970 + q - 1) \<le> d"
    using DayFromYear_bounds(2) [of "1970 + q - 1"] q by simp
  have hi: "d < DayFromYear (1970 + q + 2)"
    using DayFromYear_bounds(1) [of "1970 + q + 2"] q by simp
  show "DayFromYear (YearFromDay d) \<le> d"
    using lo by (simp add: YearFromDay_def Let_def q_def [symmetric])
  show "d < DayFromYear (YearFromDay d + 1)"
    using hi by (simp add: YearFromDay_def Let_def q_def [symmetric] add.commute)
qed

lemma div_step:
  fixes a k :: int assumes "1 < k"
  shows "(a + 1) div k - a div k = (if k dvd a + 1 then 1 else 0)"
proof -
  have e: "a = k * (a div k) + a mod k" by simp
  have m: "0 \<le> a mod k" "a mod k < k" using assms by simp_all
  show ?thesis
  proof (cases "a mod k = k - 1")
    case True
    with e have "a + 1 = k * (a div k + 1)" by (simp add: algebra_simps)
    with assms show ?thesis by simp
  next
    case False
    with m have r: "0 \<le> a mod k + 1" "a mod k + 1 < k" by linarith+
    have e': "a + 1 = k * (a div k) + (a mod k + 1)" using e by linarith
    have "(a + 1) div k = a div k" by (rule int_div_pos_eq [OF e' r])
    moreover have "(a + 1) mod k = a mod k + 1" by (rule int_mod_pos_eq [OF e' r])
    ultimately show ?thesis using m by (auto simp: dvd_eq_mod_eq_0)
  qed
qed

lemma leap_days_01: "leap_days y = 0 \<or> leap_days y = 1"
proof -
  let ?i = "\<lambda>b. if b then 1 else 0 :: int"
  have "leap_days y = ?i (4 dvd y - 1968) - ?i (100 dvd y - 1900) + ?i (400 dvd y - 1600)"
    using div_step [of 4 "y - 1969"] div_step [of 100 "y - 1901"] div_step [of 400 "y - 1601"]
    by (simp add: leap_days_def DayFromYear_def algebra_simps)
  moreover have "4 dvd y - 1968 \<longleftrightarrow> 4 dvd y" "100 dvd y - 1900 \<longleftrightarrow> 100 dvd y"
    "400 dvd y - 1600 \<longleftrightarrow> 400 dvd y"
    by (simp_all add: dvd_diff_left_iff)
  moreover have "400 dvd y \<longrightarrow> 100 dvd y" "100 dvd y \<longrightarrow> 4 dvd y"
    by (auto elim: dvd_trans [rotated])
  ultimately show ?thesis by (auto split: if_splits)
qed

lemma month_of:
  assumes "l = 0 \<or> l = 1" "0 \<le> n" "n < 365 + l"
  shows "month_of l n < 12" "month_start l (month_of l n) \<le> n" "n - month_start l (month_of l n) < 31"
  using assms by (auto simp: month_of_def month_start_def)

lemma month_of_mono: "l = 0 \<or> l = 1 \<Longrightarrow> n \<le> n' \<Longrightarrow> month_of l n \<le> month_of l n'"
  by (auto simp: month_of_def)

text \<open>The parts of a date, and the day number they determine.\<close>

lemma civil_parts:
  assumes "civil d = (y, m, k)"
  shows "y = YearFromDay d" "m < 12" "1 \<le> k" "k \<le> 31"
    "d = DayFromYear y + month_start (leap_days y) m + int k - 1"
proof -
  let ?y = "YearFromDay d"
  have l: "leap_days ?y = 0 \<or> leap_days ?y = 1" by (rule leap_days_01)
  have n: "0 \<le> d - DayFromYear ?y" "d - DayFromYear ?y < 365 + leap_days ?y"
    using YearFromDay [of d] by (simp_all add: leap_days_def)
  from assms show "y = ?y" by (simp add: civil_def Let_def)
  from month_of [OF l n] assms show "m < 12" "1 \<le> k" "k \<le> 31"
    "d = DayFromYear y + month_start (leap_days y) m + int k - 1"
    by (auto simp: civil_def Let_def)
qed

lemma DayFromYear_step: "DayFromYear y < DayFromYear (y + 1)"
  using leap_days_01 [of y] by (auto simp: leap_days_def)

lemma DayFromYear_mono: "y \<le> z \<Longrightarrow> DayFromYear y \<le> DayFromYear z"
proof (induction z rule: int_ge_induct)
  case base
  then show ?case by simp
next
  case (step i)
  then show ?case using DayFromYear_step [of i] by linarith
qed

lemma YearFromDay_mono:
  assumes "a \<le> b" shows "YearFromDay a \<le> YearFromDay b"
proof (rule ccontr)
  assume "\<not> ?thesis"
  then have "DayFromYear (YearFromDay b + 1) \<le> DayFromYear (YearFromDay a)"
    by (intro DayFromYear_mono) simp
  with YearFromDay(1) [of a] YearFromDay(2) [of b] assms show False by linarith
qed

definition date_less :: "int \<times> nat \<times> nat \<Rightarrow> int \<times> nat \<times> nat \<Rightarrow> bool" where
  "date_less p q \<longleftrightarrow>
     fst p < fst q \<or> fst p = fst q \<and> (fst (snd p) < fst (snd q)
       \<or> fst (snd p) = fst (snd q) \<and> snd (snd p) < snd (snd q))"

lemma civil_less: 
  assumes "a < b" shows "date_less (civil a) (civil b)"
proof -
  obtain y m k where a: "civil a = (y, m, k)" by (cases "civil a")
  obtain y' m' k' where b: "civil b = (y', m', k')" by (cases "civil b")
  have y: "y \<le> y'" using YearFromDay_mono [of a b] assms civil_parts(1) [OF a] civil_parts(1) [OF b]
    by simp
  have m: "y = y' \<Longrightarrow> m \<le> m'"
    using month_of_mono [OF leap_days_01, of "a - DayFromYear y" "b - DayFromYear y" y] assms a b
    by (auto simp: civil_def Let_def)
  show ?thesis
    using y m civil_parts(5) [OF a] civil_parts(5) [OF b] assms a b
    by (cases "y = y'"; cases "m = m'") (auto simp: date_less_def)
qed

lemma civil_less_iff: "date_less (civil a) (civil b) \<longleftrightarrow> a < b"
proof
  assume "date_less (civil a) (civil b)"
  moreover have "\<not> date_less p p" for p by (simp add: date_less_def)
  moreover have "\<not> (date_less p q \<and> date_less q p)" for p q by (auto simp: date_less_def)
  ultimately show "a < b" using civil_less [of b a] by (metis linorder_neqE)
qed (rule civil_less)

subsection \<open>Fixed-width digit strings compare as numbers\<close>

lemma lex_append:
  "length (a :: string) = length b \<Longrightarrow> a @ c < b @ d \<longleftrightarrow> a < b \<or> a = b \<and> c < d"
  by (induction a b rule: list_induct2) auto

lemma BigInt_Cons: "BigInt (c # s) = digit_val c * 10 ^ length s + BigInt s"
  by (induction s rule: rev_induct) (simp_all add: append_Cons [symmetric] del: append_Cons)

lemma BigInt_bound: "list_all is_digit s \<Longrightarrow> BigInt s < 10 ^ length s"
proof (induction s rule: rev_induct)
  case (snoc c s)
  then have "digit_val c < 10" "BigInt s + 1 \<le> 10 ^ length s" by simp_all
  then show ?case by simp
qed simp

lemma digit_less: "is_digit c \<Longrightarrow> is_digit d \<Longrightarrow> c < d \<longleftrightarrow> digit_val c < digit_val d"
  by (auto simp: less_char_def digit_val_def is_digit_def)

lemma digits_less_iff:
  assumes "length a = length b" "list_all is_digit a" "list_all is_digit b"
  shows "a < b \<longleftrightarrow> BigInt a < BigInt b"
  using assms
proof (induction a b rule: list_induct2)
  case Nil
  then show ?case by simp
next
  case (Cons x xs y ys)
  have bd: "BigInt xs < 10 ^ length ys" "BigInt ys < 10 ^ length ys"
    using BigInt_bound [of xs] BigInt_bound [of ys] Cons by simp_all
  have lt: "i * p + u < j * p + v" if "i < j" "u < p" for i j u v p :: nat
  proof -
    from that have "i * p + u < (i + 1) * p" by simp
    also have "\<dots> \<le> j * p" using that by (intro mult_le_mono1) simp
    finally show ?thesis by simp
  qed
  consider "x = y" | "digit_val x < digit_val y" | "digit_val y < digit_val x"
    using Cons.prems digit_less [of x y] digit_less [of y x] by fastforce
  then show ?case
  proof cases
    case 1
    with Cons show ?thesis by (simp add: BigInt_Cons)
  next
    case 2
    with lt [OF 2 bd(1), of "BigInt ys"] Cons digit_less [of x y] show ?thesis
      by (simp add: BigInt_Cons)
  next
    case 3
    with lt [OF 3 bd(2), of "BigInt xs"] Cons digit_less [of x y] show ?thesis
      by (auto simp: BigInt_Cons)
  qed
qed

lemma nat_toString_length: "0 < w \<Longrightarrow> n < 10 ^ w \<Longrightarrow> length (nat_toString n) \<le> w"
proof (induction n arbitrary: w rule: nat_toString.induct)
  case (1 n)
  show ?case
  proof (cases "n < 10")
    case True
    with 1 show ?thesis by (simp add: nat_toString.simps [of n])
  next
    case False
    with "1.prems" obtain v where v: "w = Suc v" "0 < v"
      by (cases w; cases "w - 1") auto
    with "1.prems" have "n div 10 < 10 ^ v" by (simp add: less_mult_imp_div_less mult.commute)
    with "1.IH" [OF False v(2)] v False show ?thesis by (simp add: nat_toString.simps [of n])
  qed
qed

lemma padStart_digits:
  assumes "0 < w" "n < 10 ^ w"
  shows "length (padStart w (nat_toString n)) = w" "list_all is_digit (padStart w (nat_toString n))"
    "BigInt (padStart w (nat_toString n)) = n"
proof -
  have "BigInt (replicate k (CHR ''0'') @ s) = BigInt s" for k s
    by (induction k) (simp_all add: BigInt_Cons digit_val_def)
  then show "BigInt (padStart w (nat_toString n)) = n" by (simp add: padStart_def)
  show "list_all is_digit (padStart w (nat_toString n))"
    using nat_toString_digits by (auto simp: padStart_def list_all_iff is_digit_def)
  show "length (padStart w (nat_toString n)) = w"
    using nat_toString_length [OF assms] by (simp add: padStart_def)
qed

lemma padStart_less:
  assumes "0 < w" "m < 10 ^ w" "n < 10 ^ w"
  shows "padStart w (nat_toString m) @ r < padStart w (nat_toString n) @ s
     \<longleftrightarrow> m < n \<or> m = n \<and> r < s" (is "?a @ r < ?b @ s \<longleftrightarrow> _")
proof -
  have eq: "?a = ?b \<longleftrightarrow> m = n"
    using padStart_digits(3) [OF assms(1,2)] padStart_digits(3) [OF assms(1,3)] by metis
  have less: "?a < ?b \<longleftrightarrow> m < n"
    using padStart_digits [OF assms(1,2)] padStart_digits [OF assms(1,3)] by (simp add: digits_less_iff)
  show ?thesis
    using padStart_digits(1) [OF assms(1,2)] padStart_digits(1) [OF assms(1,3)]
    by (simp only: lex_append eq less)
qed

text \<open>Years 0 to 9999 print with four digits, so dates compare as strings the way they compare in time.\<close>

definition four_digit_year :: "int \<Rightarrow> bool" where
  "four_digit_year d \<longleftrightarrow> 0 \<le> YearFromDay d \<and> YearFromDay d \<le> 9999"

lemma YearFromDay_ends: "YearFromDay (-719528) = 0" "YearFromDay 2932896 = 9999"
  by (simp_all add: YearFromDay_def DayFromYear_def)

lemma YearFromDay_beyond: "YearFromDay (-719529) = -1" "YearFromDay 2932897 = 10000"
  by (simp_all add: YearFromDay_def DayFromYear_def)

lemma four_digit_yearI: "-719528 \<le> d \<Longrightarrow> d \<le> 2932896 \<Longrightarrow> four_digit_year d"
  using YearFromDay_mono [of "-719528" d] YearFromDay_mono [of d 2932896] YearFromDay_ends
  by (simp add: four_digit_year_def)

lemma date_string_less:
  assumes "four_digit_year a" "four_digit_year b"
  shows "date_string a @ r < date_string b @ s \<longleftrightarrow> a < b \<or> a = b \<and> r < s"
proof -
  obtain y m k where a: "civil a = (y, m, k)" by (cases "civil a")
  obtain y' m' k' where b: "civil b = (y', m', k')" by (cases "civil b")
  have ya: "0 \<le> y" "y \<le> 9999" "0 \<le> y'" "y' \<le> 9999"
    using assms civil_parts(1) [OF a] civil_parts(1) [OF b] by (simp_all add: four_digit_year_def)
  have bd: "nat y < 10 ^ 4" "nat y' < 10 ^ 4" "Suc m < 10 ^ 2" "Suc m' < 10 ^ 2" "k < 10 ^ 2" "k' < 10 ^ 2"
    using ya civil_parts(2,4) [OF a] civil_parts(2,4) [OF b] by simp_all
  have "date_string a @ r < date_string b @ s
      \<longleftrightarrow> date_less (civil a) (civil b) \<or> (y, m, k) = (y', m', k') \<and> r < s"
    using ya a b bd
    by (auto simp: date_string_def year_string_def padStart_less date_less_def)
  moreover have "(y, m, k) = (y', m', k') \<longleftrightarrow> a = b"
  proof
    assume e: "(y, m, k) = (y', m', k')"
    have "a = DayFromYear y + month_start (leap_days y) m + int k - 1" by (rule civil_parts(5) [OF a])
    also have "\<dots> = DayFromYear y' + month_start (leap_days y') m' + int k' - 1" using e by simp
    also have "\<dots> = b" by (rule civil_parts(5) [OF b, symmetric])
    finally show "a = b" .
  next
    assume "a = b" then show "(y, m, k) = (y', m', k')" using a b by simp
  qed
  ultimately show ?thesis by (simp only: civil_less_iff)
qed

lemma date_string_eq:
  "four_digit_year a \<Longrightarrow> four_digit_year b \<Longrightarrow> date_string a = date_string b \<longleftrightarrow> a = b"
  using date_string_less [of a b "[]" "[]"] date_string_less [of b a "[]" "[]"] by force

lemma date_string_length: "four_digit_year d \<Longrightarrow> length (date_string d) = 10"
proof -
  assume f: "four_digit_year d"
  obtain y m k where c: "civil d = (y, m, k)" by (cases "civil d")
  have "nat y < 10 ^ 4" using civil_parts(1) [OF c] f by (simp add: four_digit_year_def nat_less_iff)
  then show ?thesis
    using c civil_parts(1-4) [OF c] f padStart_digits(1) [of 4 "nat y"] padStart_digits(1) [of 2 "Suc m"]
      padStart_digits(1) [of 2 k]
    by (simp add: date_string_def year_string_def four_digit_year_def)
qed

lemma div_mod_less:
  assumes "0 < (k::int)"
  shows "a < b \<longleftrightarrow> a div k < b div k \<or> a div k = b div k \<and> a mod k < b mod k"
proof -
  have lt: "a < b" if "a div k < b div k" for a b
    using that zdiv_mono1 [of b a k] assms by (metis linorder_not_less)
  have eq: "a < b \<longleftrightarrow> a mod k < b mod k" if "a div k = b div k" for a b
    using that div_mult_mod_eq [of a k] div_mult_mod_eq [of b k] by (metis add_less_cancel_left)
  show ?thesis using lt [of a b] lt [of b a] eq [of a b] by (metis linorder_neqE not_less_iff_gr_or_eq)
qed

lemma eq_div_mod: "a = b \<longleftrightarrow> a div k = b div k \<and> a mod k = b mod (k::int)"
  by (metis div_mult_mod_eq)

lemma clock_less:
  assumes "h < 100" "h' < 100" "m < 100" "m' < 100" "s < 100" "s' < 100" "z < 1000" "z' < 1000"
  shows "''T'' @ padStart 2 (nat_toString h) @ '':'' @ padStart 2 (nat_toString m) @ '':'' @
      padStart 2 (nat_toString s) @ ''.'' @ padStart 3 (nat_toString z) @ r
    < ''T'' @ padStart 2 (nat_toString h') @ '':'' @ padStart 2 (nat_toString m') @ '':'' @
      padStart 2 (nat_toString s') @ ''.'' @ padStart 3 (nat_toString z') @ r
    \<longleftrightarrow> h < h' \<or> h = h' \<and> (m < m' \<or> m = m' \<and> (s < s' \<or> s = s' \<and> z < z'))"
  using assms by (simp add: padStart_less)

lemma time_string_less:
  assumes "0 \<le> u" "u < msPerDay" "0 \<le> v" "v < msPerDay"
  shows "time_string u < time_string v \<longleftrightarrow> u < v"
proof -
  have h: "nat (w div 3600000) < 100" "nat (w div 60000 mod 60) < 100"
    "nat (w div 1000 mod 60) < 100" "nat (w mod 1000) < 1000"
    "w div 1000 div 60 = w div 60000" "w div 60000 div 60 = w div 3600000"
    if "0 \<le> w" "w < msPerDay" for w
  proof -
    have "w div 3600000 < 24" using that by (simp add: msPerDay_def)
    then show "nat (w div 3600000) < 100" by simp
    have "w div 60000 mod 60 < 60" "w div 1000 mod 60 < 60" "w mod 1000 < 1000" by simp_all
    then show "nat (w div 60000 mod 60) < 100" "nat (w div 1000 mod 60) < 100"
      "nat (w mod 1000) < 1000" by simp_all
    show "w div 1000 div 60 = w div 60000" "w div 60000 div 60 = w div 3600000"
      by (simp_all add: zdiv_zmult2_eq [symmetric])
  qed
  have n: "nat i < nat j \<longleftrightarrow> i < j" "nat i = nat j \<longleftrightarrow> i = j" if "0 \<le> i" "0 \<le> j" for i j :: int
    using that by auto
  have nn: "0 \<le> w div 3600000" "0 \<le> w div 60000 mod 60" "0 \<le> w div 1000 mod 60" "0 \<le> w mod 1000"
    if "0 \<le> w" for w :: int
    using that by (simp_all add: pos_imp_zdiv_nonneg_iff)
  have "time_string u < time_string v \<longleftrightarrow>
      nat (u div 3600000) < nat (v div 3600000) \<or> nat (u div 3600000) = nat (v div 3600000) \<and>
      (nat (u div 60000 mod 60) < nat (v div 60000 mod 60) \<or>
       nat (u div 60000 mod 60) = nat (v div 60000 mod 60) \<and>
       (nat (u div 1000 mod 60) < nat (v div 1000 mod 60) \<or>
        nat (u div 1000 mod 60) = nat (v div 1000 mod 60) \<and> nat (u mod 1000) < nat (v mod 1000)))"
    unfolding time_string_def by (rule clock_less; rule h; fact assms)
  also have "\<dots> \<longleftrightarrow> u div 3600000 < v div 3600000 \<or> u div 3600000 = v div 3600000 \<and>
      (u div 60000 mod 60 < v div 60000 mod 60 \<or> u div 60000 mod 60 = v div 60000 mod 60 \<and>
       (u div 1000 mod 60 < v div 1000 mod 60 \<or> u div 1000 mod 60 = v div 1000 mod 60 \<and>
        u mod 1000 < v mod 1000))"
    by (simp only: n [OF nn(1) nn(1), OF assms(1,3)] n [OF nn(2) nn(2), OF assms(1,3)]
        n [OF nn(3) nn(3), OF assms(1,3)] n [OF nn(4) nn(4), OF assms(1,3)])
  also have "\<dots> \<longleftrightarrow> u < v"
  proof -
    have d: "0 < (60::int)" "0 < (1000::int)" by simp_all
    note hu = h(5,6) [OF assms(1,2)] and hv = h(5,6) [OF assms(3,4)]
    note d1 = div_mod_less [OF d(1), of "u div 60000" "v div 60000", unfolded hu hv]
    note e1 = eq_div_mod [of "u div 60000" "v div 60000" 60, unfolded hu hv]
    note d2 = div_mod_less [OF d(1), of "u div 1000" "v div 1000", unfolded hu hv]
    note e2 = eq_div_mod [of "u div 1000" "v div 1000" 60, unfolded hu hv]
    show ?thesis unfolding div_mod_less [OF d(2), of u v] d2 e2 d1 e1 by blast
  qed
  finally show ?thesis .
qed

text \<open>Instants in years 0 to 9999 compare as their ISO strings do.\<close>

lemma toISOString_ok: "\<bar>t\<bar> \<le> 8640000000000000 \<Longrightarrow>
  toISOString t = Inr (date_string (t div msPerDay) @ time_string (t mod msPerDay))"
  by (simp add: toISOString_def)

lemma four_digit_year_range: "four_digit_year (t div msPerDay) \<Longrightarrow> \<bar>t\<bar> \<le> 8640000000000000"
proof -
  assume f: "four_digit_year (t div msPerDay)"
  have "-719529 \<le> t div msPerDay" "t div msPerDay \<le> 2932897"
    using f YearFromDay_mono [of "t div msPerDay" "-719529"] YearFromDay_mono [of 2932897 "t div msPerDay"]
    by (fastforce simp: four_digit_year_def YearFromDay_beyond)+
  then show ?thesis by (simp add: msPerDay_def; linarith)
qed

lemma toISOString_less:
  assumes "four_digit_year (t div msPerDay)" "four_digit_year (u div msPerDay)"
    "toISOString t = Inr a" "toISOString u = Inr b"
  shows "a < b \<longleftrightarrow> t < u"
proof -
  have pos: "0 < msPerDay" by (simp add: msPerDay_def)
  have ab: "a = date_string (t div msPerDay) @ time_string (t mod msPerDay)"
    "b = date_string (u div msPerDay) @ time_string (u mod msPerDay)"
    using assms(3,4) by (auto simp: toISOString_def split: if_splits)
  show ?thesis
    unfolding ab date_string_less [OF assms(1,2)] div_mod_less [OF pos, of t u]
    by (simp add: time_string_less pos)
qed

end
