(* ===== verification/Policy.thy ===== *)
theory Policy
  imports Dates
begin

text \<open>
  The policy engine of \<open>packages/core/src/policy.ts\<close>. The engine's closure variables are the record
  \<open>engine\<close>; every operation takes the state and returns its result with the new state, so that the
  state a throwing call leaves behind is part of the model. Each call of the injected clock is a
  separate argument, because two readings inside one operation may differ.

  \<open>PolicyHistory\<close> relates the incremental counters to the history of recorded payments.
\<close>

subsection \<open>Policy, intent, decision\<close>

record budgets_cfg =
  cfg_daily :: "string option"
  cfg_total :: "string option"

record service_cfg =
  cfg_cap :: "string option"

record model_cfg =
  cfg_enabled :: "bool option"
  cfg_minChannelDeposit :: "string option"

record rate_limit_cfg =
  cfg_requestsPerMinute :: "int option"

record anomaly_cfg =
  cfg_maxSpendPerMinute :: "string option"

record policy =
  budgets :: "budgets_cfg option"
  perService :: "(string, service_cfg) js_map option"
  perModel :: "(settlement_model, model_cfg) js_map option"
  rateLimit :: "rate_limit_cfg option"
  anomaly :: "anomaly_cfg option"

record payment_intent =
  intent_payee :: string
  intent_resource :: string
  intent_amount :: string
  intent_asset :: string
  intent_model :: settlement_model

datatype policy_decision = Allowed | Blocked (blocked_rule: string) (blocked_detail: string)

subsection \<open>The engine's state\<close>

record anomaly_sample =
  sample_amount :: nat
  sample_asset :: string
  sample_ts :: int

record engine =
  dailySpend :: "(string, nat) js_map"
  totalSpend :: "(string, nat) js_map"
  serviceSpend :: "(string, nat) js_map"
  requestTimestamps :: "int list"
  anomalySamples :: "anomaly_sample list"
  lastResetDay :: string

definition utcDate :: "int \<Rightarrow> string result" where
  "utcDate t = map_sum id (take 10) (toISOString t)"

definition parseAmount :: "string \<Rightarrow> nat result" where
  "parseAmount s =
     (if AMOUNT_RE s then Inr (BigInt s)
      else Inl (TollwayError Invalid_amount (''invalid amount: '' @ s)))"

definition createPolicyEngine :: "int \<Rightarrow> engine result" where
  "createPolicyEngine t =
     map_sum id (\<lambda>d. \<lparr>dailySpend = Map.empty, totalSpend = Map.empty, serviceSpend = Map.empty,
        requestTimestamps = [], anomalySamples = [], lastResetDay = d\<rparr>) (utcDate t)"

subsection \<open>Operations\<close>

definition resetDailyIfNeeded :: "int \<Rightarrow> engine \<Rightarrow> engine result" where
  "resetDailyIfNeeded t st =
     (case utcDate t of
        Inl e \<Rightarrow> Inl e
      | Inr today \<Rightarrow>
          Inr (if today \<noteq> lastResetDay st then st\<lparr>dailySpend := Map.empty, lastResetDay := today\<rparr>
               else st))"

text \<open>The key of the per-service map, \<open>`${payee}:${asset}`\<close>.\<close>

definition svcKey :: "string \<Rightarrow> string \<Rightarrow> string" where
  "svcKey payee asset = payee @ '':'' @ asset"

definition bump :: "(string, nat) js_map \<Rightarrow> string \<Rightarrow> nat \<Rightarrow> (string, nat) js_map" where
  "bump m k amount = m(k \<mapsto> get_or 0 m k + amount)"

definition applyRecord :: "int \<Rightarrow> int \<Rightarrow> payment_intent \<Rightarrow> engine \<Rightarrow> unit result \<times> engine" where
  "applyRecord t0 now intent st =
     (case resetDailyIfNeeded t0 st of
        Inl e \<Rightarrow> (Inl e, st)
      | Inr st1 \<Rightarrow>
          (case parseAmount (intent_amount intent) of
             Inl e \<Rightarrow> (Inl e, st1)
           | Inr amount \<Rightarrow>
               (Inr (), st1\<lparr>
                  dailySpend := bump (dailySpend st1) (intent_asset intent) amount,
                  totalSpend := bump (totalSpend st1) (intent_asset intent) amount,
                  serviceSpend :=
                    bump (serviceSpend st1) (svcKey (intent_payee intent) (intent_asset intent)) amount,
                  requestTimestamps := requestTimestamps st1 @ [now],
                  anomalySamples := anomalySamples st1 @
                    [\<lparr>sample_amount = amount, sample_asset = intent_asset intent, sample_ts = now\<rparr>]\<rparr>)))"

text \<open>The two \<open>while (xs[0] < cutoff) xs.shift()\<close> loops.\<close>

fun shift_older :: "('a \<Rightarrow> int) \<Rightarrow> int \<Rightarrow> 'a list \<Rightarrow> 'a list" where
  "shift_older ts cutoff [] = []"
| "shift_older ts cutoff (x # xs) = (if ts x < cutoff then shift_older ts cutoff xs else x # xs)"

definition pruneWindow :: "int \<Rightarrow> engine \<Rightarrow> engine" where
  "pruneWindow now st =
     (let cutoff = now - 60000
      in st\<lparr>requestTimestamps := shift_older id cutoff (requestTimestamps st),
            anomalySamples := shift_older sample_ts cutoff (anomalySamples st)\<rparr>)"

text \<open>
  The numbered rules of \<open>check\<close>. \<open>Inr None\<close> means that the rule does not block, \<open>Inl\<close> that a
  policy amount did not parse.
\<close>

definition check_model :: "policy \<Rightarrow> payment_intent \<Rightarrow> nat \<Rightarrow> policy_decision option result" where
  "check_model pol intent amount =
     (case Option.bind (perModel pol) (\<lambda>m. m (intent_model intent)) of
        None \<Rightarrow> Inr None
      | Some cfg \<Rightarrow>
          if cfg_enabled cfg = Some False then
            Inr (Some (Blocked ''per-model-disabled''
              (''settlement model '' @ model_str (intent_model intent) @ '' is disabled by policy'')))
          else
            (case cfg_minChannelDeposit cfg of
               None \<Rightarrow> Inr None
             | Some md \<Rightarrow>
                 if intent_model intent = Mpp_channel then
                   (case parseAmount md of
                      Inl e \<Rightarrow> Inl e
                    | Inr minDeposit \<Rightarrow>
                        if amount < minDeposit then
                          Inr (Some (Blocked ''min-channel-deposit''
                            (''amount '' @ intent_amount intent @
                             '' is below minimum channel deposit '' @ md)))
                        else Inr None)
                 else Inr None))"

definition check_daily :: "policy \<Rightarrow> payment_intent \<Rightarrow> nat \<Rightarrow> engine \<Rightarrow> policy_decision option result" where
  "check_daily pol intent amount st =
     (case Option.bind (budgets pol) cfg_daily of
        None \<Rightarrow> Inr None
      | Some b \<Rightarrow>
          (case parseAmount b of
             Inl e \<Rightarrow> Inl e
           | Inr budget \<Rightarrow>
               let current = get_or 0 (dailySpend st) (intent_asset intent)
               in if current + amount > budget then
                    Inr (Some (Blocked ''budget''
                      (''daily budget exceeded for '' @ intent_asset intent @ '': '' @
                       nat_toString (current + amount) @ '' > '' @ nat_toString budget)))
                  else Inr None))"

definition check_total :: "policy \<Rightarrow> payment_intent \<Rightarrow> nat \<Rightarrow> engine \<Rightarrow> policy_decision option result" where
  "check_total pol intent amount st =
     (case Option.bind (budgets pol) cfg_total of
        None \<Rightarrow> Inr None
      | Some b \<Rightarrow>
          (case parseAmount b of
             Inl e \<Rightarrow> Inl e
           | Inr budget \<Rightarrow>
               let current = get_or 0 (totalSpend st) (intent_asset intent)
               in if current + amount > budget then
                    Inr (Some (Blocked ''budget''
                      (''total budget exceeded for '' @ intent_asset intent @ '': '' @
                       nat_toString (current + amount) @ '' > '' @ nat_toString budget)))
                  else Inr None))"

definition svcCap :: "policy \<Rightarrow> payment_intent \<Rightarrow> string option" where
  "svcCap pol intent =
     Option.bind (Option.bind (perService pol) (\<lambda>m. m (intent_payee intent))) cfg_cap"

definition check_service :: "policy \<Rightarrow> payment_intent \<Rightarrow> nat \<Rightarrow> engine \<Rightarrow> policy_decision option result" where
  "check_service pol intent amount st =
     (case svcCap pol intent of
        None \<Rightarrow> Inr None
      | Some c \<Rightarrow>
          (case parseAmount c of
             Inl e \<Rightarrow> Inl e
           | Inr cap \<Rightarrow>
               let current = get_or 0 (serviceSpend st) (svcKey (intent_payee intent) (intent_asset intent))
               in if current + amount > cap then
                    Inr (Some (Blocked ''per-service''
                      (''per-service cap exceeded for '' @ intent_payee intent @ '': '' @
                       nat_toString (current + amount) @ '' > '' @ nat_toString cap)))
                  else Inr None))"

definition check_rate :: "policy \<Rightarrow> int \<Rightarrow> engine \<Rightarrow> policy_decision option \<times> engine" where
  "check_rate pol now st =
     (case Option.bind (rateLimit pol) cfg_requestsPerMinute of
        None \<Rightarrow> (None, st)
      | Some rpm \<Rightarrow>
          let st1 = pruneWindow now st
          in if int (length (requestTimestamps st1)) \<ge> rpm then
               (Some (Blocked ''rate-limit''
                 (''rate limit exceeded: '' @ nat_toString (length (requestTimestamps st1)) @
                  '' requests in the last minute'')), st1)
             else (None, st1))"

definition recentSpend :: "int \<Rightarrow> string \<Rightarrow> engine \<Rightarrow> nat" where
  "recentSpend now asset st =
     sum_list (map sample_amount
       (filter (\<lambda>s. sample_ts s \<ge> now - 60000 \<and> sample_asset s = asset) (anomalySamples st)))"

definition check_anomaly :: 
  "policy \<Rightarrow> int \<Rightarrow> payment_intent \<Rightarrow> nat \<Rightarrow> engine \<Rightarrow> policy_decision option result \<times> engine" where
  "check_anomaly pol now intent amount st =
     (case Option.bind (anomaly pol) cfg_maxSpendPerMinute of
        None \<Rightarrow> (Inr None, st)
      | Some m \<Rightarrow>
          (case parseAmount m of
             Inl e \<Rightarrow> (Inl e, st)
           | Inr maxSpend \<Rightarrow>
               let st1 = pruneWindow now st;
                   recent = recentSpend now (intent_asset intent) st1
               in if recent + amount > maxSpend then
                    (Inr (Some (Blocked ''anomaly''
                      (''anomaly stop: projected minute spend '' @ nat_toString (recent + amount) @
                       '' exceeds max '' @ nat_toString maxSpend))), st1)
                  else (Inr None, st1)))"

text \<open>A rule that blocks or throws ends the call; otherwise the next rule runs.\<close>

definition or_else ::
  "policy_decision option result \<Rightarrow> policy_decision option result \<Rightarrow> policy_decision option result" where
  "or_else r k = (case r of Inl e \<Rightarrow> Inl e | Inr (Some d) \<Rightarrow> Inr (Some d) | Inr None \<Rightarrow> k)"

definition static_rules :: "policy \<Rightarrow> payment_intent \<Rightarrow> nat \<Rightarrow> engine \<Rightarrow> policy_decision option result" where
  "static_rules pol intent amount st =
     or_else (check_model pol intent amount)
       (or_else (check_daily pol intent amount st)
         (or_else (check_total pol intent amount st) (check_service pol intent amount st)))"

definition decide :: "policy_decision option \<Rightarrow> policy_decision" where
  "decide d = (case d of None \<Rightarrow> Allowed | Some b \<Rightarrow> b)"

definition check :: 
  "policy \<Rightarrow> int \<Rightarrow> int \<Rightarrow> int \<Rightarrow> payment_intent \<Rightarrow> engine \<Rightarrow> policy_decision result \<times> engine" where
  "check pol t0 t1 t2 intent st =
     (case resetDailyIfNeeded t0 st of
        Inl e \<Rightarrow> (Inl e, st)
      | Inr st1 \<Rightarrow>
          (case parseAmount (intent_amount intent) of
             Inl e \<Rightarrow> (Inl e, st1)
           | Inr amount \<Rightarrow>
               (case static_rules pol intent amount st1 of
                  Inl e \<Rightarrow> (Inl e, st1)
                | Inr (Some d) \<Rightarrow> (Inr d, st1)
                | Inr None \<Rightarrow>
                    (case check_rate pol t1 st1 of
                       (Some d, st2) \<Rightarrow> (Inr d, st2)
                     | (None, st2) \<Rightarrow>
                         (case check_anomaly pol t2 intent amount st2 of
                            (r, st3) \<Rightarrow> (map_sum id decide r, st3))))))"

definition record_payment :: "int \<Rightarrow> int \<Rightarrow> int \<Rightarrow> payment_intent \<Rightarrow> engine \<Rightarrow> unit result \<times> engine" where
  "record_payment t0 t1 t2 intent st =
     (case applyRecord t0 t1 intent st of
        (Inl e, st1) \<Rightarrow> (Inl e, st1)
      | (Inr _, st1) \<Rightarrow> (Inr (), pruneWindow t2 st1))"

end
