(* ===== verification/PolicyHistory.thy ===== *)
theory PolicyHistory
  imports Policy
begin

text \<open>
  The contract of the policy engine, stated over the history of recorded payments: the counters that
  \<open>packages/core/src/policy.ts\<close> keeps are the sums and the window of that history, a check decides
  what a recomputation over the whole history decides, and a caller that records every allowed
  payment before the next check never exceeds a budget. The last section shows what two overlapping
  payments can do.
\<close>

subsection \<open>Histories\<close>

record entry =
  entry_day :: int
  entry_ts :: int
  entry_payee :: string
  entry_asset :: string
  entry_amount :: nat

definition day_of :: "int \<Rightarrow> int" where
  "day_of t = t div msPerDay"

definition entry_of :: "int \<Rightarrow> int \<Rightarrow> payment_intent \<Rightarrow> entry" where
  "entry_of t0 now intent =
     \<lparr>entry_day = day_of t0, entry_ts = now, entry_payee = intent_payee intent,
      entry_asset = intent_asset intent, entry_amount = BigInt (intent_amount intent)\<rparr>"

definition spent :: "(entry \<Rightarrow> bool) \<Rightarrow> entry list \<Rightarrow> nat" where
  "spent P h = sum_list (map entry_amount (filter P h))"

lemma spent_simps [simp, policy_simps]:
  "spent P [] = 0" "spent P (h @ [e]) = spent P h + (if P e then entry_amount e else 0)"
  by (simp_all add: spent_def)

lemma spent_none: "\<forall>e\<in>set h. \<not> P e \<Longrightarrow> spent P h = 0"
  by (simp add: spent_def filter_False)

lemma spent_mono: "(\<And>e. P e \<Longrightarrow> Q e) \<Longrightarrow> spent P h \<le> spent Q h"
  by (induction h) (auto simp: spent_def add_mono trans_le_add2)

lemma entry_of_sel [simp]:
  "entry_day (entry_of t0 now i) = day_of t0" "entry_ts (entry_of t0 now i) = now"
  "entry_payee (entry_of t0 now i) = intent_payee i" "entry_asset (entry_of t0 now i) = intent_asset i"
  "entry_amount (entry_of t0 now i) = BigInt (intent_amount i)"
  by (simp_all add: entry_of_def)

lemma day_of_mono: "t \<le> u \<Longrightarrow> day_of t \<le> day_of u"
  by (simp add: day_of_def msPerDay_def zdiv_mono1)

subsection \<open>The clock\<close>

definition ok_clock :: "int \<Rightarrow> bool" where
  "ok_clock t \<longleftrightarrow> four_digit_year (day_of t)"

lemma ok_clockI: "-62167219200000 \<le> t \<Longrightarrow> t \<le> 253402300799999 \<Longrightarrow> ok_clock t"
  unfolding ok_clock_def by (rule four_digit_yearI; simp add: day_of_def msPerDay_def; linarith)

lemma utcDate_ok: "ok_clock t \<Longrightarrow> utcDate t = Inr (date_string (day_of t))"
  using four_digit_year_range [of t] date_string_length [of "day_of t"]
  by (simp add: ok_clock_def utcDate_def toISOString_ok day_of_def)

lemma utcDate_same_day: "ok_clock t \<Longrightarrow> ok_clock u \<Longrightarrow> utcDate t = utcDate u \<longleftrightarrow> day_of t = day_of u"
  by (auto simp: utcDate_ok date_string_eq ok_clock_def)

subsection \<open>What the counters mean\<close>

definition entry_key :: "entry \<Rightarrow> string" where
  "entry_key e = svcKey (entry_payee e) (entry_asset e)"

definition totals_inv :: "entry list \<Rightarrow> engine \<Rightarrow> bool" where
  "totals_inv h st \<longleftrightarrow>
     (\<forall>a. get_or 0 (totalSpend st) a = spent (\<lambda>e. entry_asset e = a) h) \<and>
     (\<forall>k. get_or 0 (serviceSpend st) k = spent (\<lambda>e. entry_key e = k) h)"

definition day_inv :: "entry list \<Rightarrow> int \<Rightarrow> engine \<Rightarrow> bool" where
  "day_inv h rd st \<longleftrightarrow>
     four_digit_year rd \<and> lastResetDay st = date_string rd \<and> (\<forall>e\<in>set h. entry_day e \<le> rd) \<and>
     (\<forall>a. get_or 0 (dailySpend st) a = spent (\<lambda>e. entry_asset e = a \<and> entry_day e = rd) h)"

definition sample_of :: "entry \<Rightarrow> anomaly_sample" where
  "sample_of e = \<lparr>sample_amount = entry_amount e, sample_asset = entry_asset e, sample_ts = entry_ts e\<rparr>"

definition window_inv :: "entry list \<Rightarrow> int \<Rightarrow> engine \<Rightarrow> bool" where
  "window_inv h c st \<longleftrightarrow>
     sorted (map entry_ts h) \<and>
     requestTimestamps st = map entry_ts (filter (\<lambda>e. c \<le> entry_ts e) h) \<and>
     anomalySamples st = map sample_of (filter (\<lambda>e. c \<le> entry_ts e) h)"

definition engine_inv :: "entry list \<Rightarrow> int \<Rightarrow> engine \<Rightarrow> bool" where
  "engine_inv h now st \<longleftrightarrow>
     totals_inv h st \<and> (\<exists>rd\<le>day_of now. day_inv h rd st) \<and> (\<exists>c\<le>now - 60000. window_inv h c st) \<and>
     (\<forall>e\<in>set h. entry_ts e \<le> now)"

lemma engine_inv_later:
  assumes "engine_inv h t st" "t \<le> u" shows "engine_inv h u st"
proof -
  have "rd \<le> day_of t \<Longrightarrow> rd \<le> day_of u" "c \<le> t - 60000 \<Longrightarrow> c \<le> u - 60000" "x \<le> t \<Longrightarrow> x \<le> u" for rd c x
    using day_of_mono [OF assms(2)] assms(2) by linarith+
  with assms(1) show ?thesis unfolding engine_inv_def by blast
qed

lemma engine_inv_initial: "ok_clock t \<Longrightarrow> createPolicyEngine t = Inr st \<Longrightarrow> engine_inv [] t st"
  unfolding engine_inv_def
  by (intro conjI exI [of _ "day_of t"] exI [of _ "t - 60000"])
    (auto simp: createPolicyEngine_def utcDate_ok totals_inv_def day_inv_def window_inv_def ok_clock_def)

subsection \<open>One lemma per operation\<close>

lemma shift_older_eq: "shift_older f c xs = dropWhile (\<lambda>x. f x < c) xs"
  by (induction xs) auto

lemma prune_frame [simp]:
  "totalSpend (pruneWindow now st) = totalSpend st" "serviceSpend (pruneWindow now st) = serviceSpend st"
  "dailySpend (pruneWindow now st) = dailySpend st" "lastResetDay (pruneWindow now st) = lastResetDay st"
  by (simp_all add: pruneWindow_def Let_def)

lemma prune_inv [simp]:
  "totals_inv h (pruneWindow now st) = totals_inv h st" "day_inv h rd (pruneWindow now st) = day_inv h rd st"
  by (simp_all add: totals_inv_def day_inv_def)

lemma sorted_map_filter: "sorted (map f xs) \<Longrightarrow> sorted (map f (filter P xs))"
  by (induction xs) auto

lemma prune_window:
  assumes "window_inv h c st" "c \<le> now - 60000"
  shows "window_inv h (now - 60000) (pruneWindow now st)"
proof -
  let ?f = "filter (\<lambda>e. c \<le> entry_ts e) h"
  have s: "sorted (map entry_ts ?f)" using assms(1) by (simp add: window_inv_def sorted_map_filter)
  have "shift_older id (now - 60000) (map entry_ts ?f) = map entry_ts (filter (\<lambda>e. now - 60000 \<le> entry_ts e) ?f)"
    using dropWhile_sorted_filter [of id "map entry_ts ?f" "now - 60000"] s
    by (simp add: shift_older_eq filter_map o_def)
  moreover have "shift_older sample_ts (now - 60000) (map sample_of ?f)
      = map sample_of (filter (\<lambda>e. now - 60000 \<le> entry_ts e) ?f)"
    using dropWhile_sorted_filter [of sample_ts "map sample_of ?f" "now - 60000"] s
    by (simp add: shift_older_eq filter_map o_def sample_of_def)
  moreover have "filter (\<lambda>e. now - 60000 \<le> entry_ts e) ?f = filter (\<lambda>e. now - 60000 \<le> entry_ts e) h"
    by (rule filter_filter_le) (rule assms(2))
  ultimately show ?thesis
    using assms(1) by (simp add: window_inv_def pruneWindow_def Let_def del: filter_filter)
qed

lemma engine_inv_prune: "engine_inv h t st \<Longrightarrow> t \<le> now \<Longrightarrow> engine_inv h now (pruneWindow now st)"
  using prune_window engine_inv_later [of h t st now] by (fastforce simp: engine_inv_def)

lemma reset_ok:
  assumes "day_inv h rd st" "rd \<le> day_of t" "ok_clock t"
  obtains st1 where "resetDailyIfNeeded t st = Inr st1" "day_inv h (day_of t) st1"
    "totalSpend st1 = totalSpend st" "serviceSpend st1 = serviceSpend st"
    "requestTimestamps st1 = requestTimestamps st" "anomalySamples st1 = anomalySamples st"
proof (cases "rd = day_of t")
  case True
  with assms that [of st] show ?thesis by (simp add: resetDailyIfNeeded_def utcDate_ok day_inv_def)
next
  case False
  with assms have lt: "\<forall>e\<in>set h. entry_day e < day_of t" by (auto simp: day_inv_def)
  then have z: "spent (\<lambda>e. entry_asset e = a \<and> entry_day e = day_of t) h = 0" for a
    by (intro spent_none) auto
  have "date_string (day_of t) \<noteq> lastResetDay st"
    using False assms by (simp add: day_inv_def ok_clock_def date_string_eq)
  with assms lt z that show ?thesis
    by (simp add: resetDailyIfNeeded_def utcDate_ok day_inv_def ok_clock_def less_imp_le)
qed

lemma engine_inv_reset:
  assumes "engine_inv h t st" "t \<le> t0" "ok_clock t0"
  obtains st1 where "resetDailyIfNeeded t0 st = Inr st1" "engine_inv h t0 st1" "day_inv h (day_of t0) st1"
proof -
  obtain rd where rd: "day_inv h rd st" "rd \<le> day_of t0"
    using assms(1,2) day_of_mono [of t t0] by (force simp: engine_inv_def)
  from rd assms(3) obtain st1 where st1: "resetDailyIfNeeded t0 st = Inr st1" "day_inv h (day_of t0) st1"
    "totalSpend st1 = totalSpend st" "serviceSpend st1 = serviceSpend st"
    "requestTimestamps st1 = requestTimestamps st" "anomalySamples st1 = anomalySamples st"
    by (rule reset_ok)
  moreover have "engine_inv h t0 st1"
    using engine_inv_later [OF assms(1,2)] st1
    by (auto simp: engine_inv_def totals_inv_def window_inv_def)
  ultimately show ?thesis using that by blast
qed

lemma applyRecord_inv:
  assumes inv: "engine_inv h t st" "t \<le> t0" "t0 \<le> now" and ok: "ok_clock t0"
    and am: "AMOUNT_RE (intent_amount i)"
  obtains st' where "applyRecord t0 now i st = (Inr (), st')" "engine_inv (h @ [entry_of t0 now i]) now st'"
proof -
  obtain st1 where st1: "resetDailyIfNeeded t0 st = Inr st1" "engine_inv h t0 st1" "day_inv h (day_of t0) st1"
    using engine_inv_reset [OF inv(1,2) ok] by blast
  obtain st' where st': "applyRecord t0 now i st = (Inr (), st')" and
    f: "st' = st1\<lparr>dailySpend := bump (dailySpend st1) (intent_asset i) (BigInt (intent_amount i)),
        totalSpend := bump (totalSpend st1) (intent_asset i) (BigInt (intent_amount i)),
        serviceSpend := bump (serviceSpend st1) (svcKey (intent_payee i) (intent_asset i)) (BigInt (intent_amount i)),
        requestTimestamps := requestTimestamps st1 @ [now],
        anomalySamples := anomalySamples st1 @ [\<lparr>sample_amount = BigInt (intent_amount i),
          sample_asset = intent_asset i, sample_ts = now\<rparr>]\<rparr>"
    using am st1(1) by (auto simp: applyRecord_def parseAmount_def)
  have "totals_inv (h @ [entry_of t0 now i]) st'"
    using st1(2) by (auto simp: f engine_inv_def totals_inv_def bump_def entry_key_def)
  moreover have "day_inv (h @ [entry_of t0 now i]) (day_of t0) st'"
    using st1(3) by (auto simp: f day_inv_def bump_def)
  moreover have "\<exists>c\<le>now - 60000. window_inv (h @ [entry_of t0 now i]) c st'"
  proof -
    obtain c where c: "c \<le> t0 - 60000" "window_inv h c st1" using st1(2) by (auto simp: engine_inv_def)
    have "\<forall>e\<in>set h. entry_ts e \<le> now" using st1(2) inv(3) by (force simp: engine_inv_def)
    with c inv(3) have "window_inv (h @ [entry_of t0 now i]) c st'"
      by (auto simp: f window_inv_def sorted_append sample_of_def)
    with c inv(3) show ?thesis by (intro exI [of _ c]) simp
  qed
  moreover have "\<forall>e\<in>set (h @ [entry_of t0 now i]). entry_ts e \<le> now"
    using st1(2) inv(3) by (force simp: engine_inv_def)
  ultimately have "engine_inv (h @ [entry_of t0 now i]) now st'"
    using day_of_mono [OF inv(3)] by (auto simp: engine_inv_def)
  with st' that show ?thesis by blast
qed

lemma record_inv:
  assumes "engine_inv h t st" "t \<le> t0" "t0 \<le> t1" "t1 \<le> t2" "ok_clock t0" "AMOUNT_RE (intent_amount i)"
  obtains st' where "record_payment t0 t1 t2 i st = (Inr (), st')"
    "engine_inv (h @ [entry_of t0 t1 i]) t2 st'"
proof -
  obtain st1 where "applyRecord t0 t1 i st = (Inr (), st1)" "engine_inv (h @ [entry_of t0 t1 i]) t1 st1"
    using applyRecord_inv [OF assms(1,2,3,5,6)] by blast
  with engine_inv_prune [OF this(2) assms(4)] that show ?thesis by (simp add: record_payment_def)
qed

subsection \<open>A check over the whole history\<close>

text \<open>The engine's promise: no counters, one condition per rule, each over the recorded payments.\<close>

definition model_allows :: "policy \<Rightarrow> payment_intent \<Rightarrow> bool" where
  "model_allows pol i \<longleftrightarrow>
     (\<forall>cfg. Option.bind (perModel pol) (\<lambda>m. m (intent_model i)) = Some cfg \<longrightarrow>
        cfg_enabled cfg \<noteq> Some False \<and>
        (\<forall>md. cfg_minChannelDeposit cfg = Some md \<longrightarrow> intent_model i = Mpp_channel \<longrightarrow>
           BigInt md \<le> BigInt (intent_amount i)))"

definition fits :: "string option \<Rightarrow> nat \<Rightarrow> bool" where
  "fits limit x \<longleftrightarrow> (\<forall>b. limit = Some b \<longrightarrow> x \<le> BigInt b)"

definition spec_allows :: "policy \<Rightarrow> entry list \<Rightarrow> int \<Rightarrow> int \<Rightarrow> int \<Rightarrow> payment_intent \<Rightarrow> bool" where
  "spec_allows pol h t0 t1 t2 i \<longleftrightarrow>
     (let a = intent_asset i; amount = BigInt (intent_amount i)
      in model_allows pol i \<and>
         fits (Option.bind (budgets pol) cfg_daily)
           (spent (\<lambda>e. entry_asset e = a \<and> entry_day e = day_of t0) h + amount) \<and>
         fits (Option.bind (budgets pol) cfg_total) (spent (\<lambda>e. entry_asset e = a) h + amount) \<and>
         fits (svcCap pol i) (spent (\<lambda>e. entry_key e = svcKey (intent_payee i) a) h + amount) \<and>
         (\<forall>rpm. Option.bind (rateLimit pol) cfg_requestsPerMinute = Some rpm \<longrightarrow>
            int (length (filter (\<lambda>e. t1 - 60000 \<le> entry_ts e) h)) < rpm) \<and>
         fits (Option.bind (anomaly pol) cfg_maxSpendPerMinute)
           (spent (\<lambda>e. t2 - 60000 \<le> entry_ts e \<and> entry_asset e = a) h + amount))"

text \<open>Every amount a policy carries is an integer string.\<close>

definition policy_wf :: "policy \<Rightarrow> bool" where
  "policy_wf pol \<longleftrightarrow>
     (\<forall>b. Option.bind (budgets pol) cfg_daily = Some b \<longrightarrow> AMOUNT_RE b) \<and>
     (\<forall>b. Option.bind (budgets pol) cfg_total = Some b \<longrightarrow> AMOUNT_RE b) \<and>
     (\<forall>i b. svcCap pol i = Some b \<longrightarrow> AMOUNT_RE b) \<and>
     (\<forall>m cfg b. Option.bind (perModel pol) (\<lambda>f. f m) = Some cfg \<longrightarrow>
        cfg_minChannelDeposit cfg = Some b \<longrightarrow> AMOUNT_RE b) \<and>
     (\<forall>b. Option.bind (anomaly pol) cfg_maxSpendPerMinute = Some b \<longrightarrow> AMOUNT_RE b)"

lemma check_model_spec:
  assumes "policy_wf pol"
  shows "check_model pol i (BigInt (intent_amount i)) = Inr None \<longleftrightarrow> model_allows pol i"
    "\<exists>d. check_model pol i (BigInt (intent_amount i)) = Inr d \<and> d \<noteq> Some Allowed"
  using assms
  by (auto simp: check_model_def model_allows_def policy_wf_def parseAmount_def split: option.splits)

lemma check_daily_spec:
  assumes "policy_wf pol" "day_inv h (day_of t0) st"
  shows "check_daily pol i n st = Inr None \<longleftrightarrow>
      fits (Option.bind (budgets pol) cfg_daily)
        (spent (\<lambda>e. entry_asset e = intent_asset i \<and> entry_day e = day_of t0) h + n)"
    "\<exists>d. check_daily pol i n st = Inr d \<and> d \<noteq> Some Allowed"
  using assms
  by (auto simp: check_daily_def policy_wf_def parseAmount_def fits_def day_inv_def Let_def split: option.splits)

lemma check_total_spec:
  assumes "policy_wf pol" "totals_inv h st"
  shows "check_total pol i n st = Inr None \<longleftrightarrow>
      fits (Option.bind (budgets pol) cfg_total) (spent (\<lambda>e. entry_asset e = intent_asset i) h + n)"
    "\<exists>d. check_total pol i n st = Inr d \<and> d \<noteq> Some Allowed"
  using assms
  by (auto simp: check_total_def policy_wf_def parseAmount_def fits_def totals_inv_def Let_def split: option.splits)

lemma check_service_spec:
  assumes "policy_wf pol" "totals_inv h st"
  shows "check_service pol i n st = Inr None \<longleftrightarrow>
      fits (svcCap pol i) (spent (\<lambda>e. entry_key e = svcKey (intent_payee i) (intent_asset i)) h + n)"
    "\<exists>d. check_service pol i n st = Inr d \<and> d \<noteq> Some Allowed"
  using assms
  by (auto simp: check_service_def policy_wf_def parseAmount_def fits_def totals_inv_def Let_def split: option.splits)

lemma check_rate_spec:
  assumes "engine_inv h t st" "t \<le> now" "check_rate pol now st = (r, st')"
  shows "engine_inv h now st'" "r \<noteq> Some Allowed"
    "r = None \<longleftrightarrow> (\<forall>rpm. Option.bind (rateLimit pol) cfg_requestsPerMinute = Some rpm \<longrightarrow>
        int (length (filter (\<lambda>e. now - 60000 \<le> entry_ts e) h)) < rpm)"
proof -
  obtain c where c: "c \<le> now - 60000" "window_inv h c st" using engine_inv_later [OF assms(1,2)] by (auto simp: engine_inv_def)
  then have w: "requestTimestamps (pruneWindow now st) = map entry_ts (filter (\<lambda>e. now - 60000 \<le> entry_ts e) h)"
    using prune_window by (simp add: window_inv_def)
  show "engine_inv h now st'" "r \<noteq> Some Allowed"
    using assms engine_inv_prune [OF assms(1,2)] engine_inv_later [OF assms(1,2)]
    by (auto simp: check_rate_def Let_def split: option.splits if_splits)
  show "r = None \<longleftrightarrow> (\<forall>rpm. Option.bind (rateLimit pol) cfg_requestsPerMinute = Some rpm \<longrightarrow>
        int (length (filter (\<lambda>e. now - 60000 \<le> entry_ts e) h)) < rpm)"
    using assms(3) w by (auto simp: check_rate_def Let_def split: option.splits if_splits)
qed

lemma recentSpend_spec:
  assumes "window_inv h (now - 60000) st"
  shows "recentSpend now a st = spent (\<lambda>e. now - 60000 \<le> entry_ts e \<and> entry_asset e = a) h"
  using assms
  by (simp add: recentSpend_def spent_def window_inv_def filter_map o_def sample_of_def conj_ac)

lemma check_anomaly_spec:
  assumes "policy_wf pol" "engine_inv h t st" "t \<le> now" "check_anomaly pol now i n st = (r, st')"
  shows "engine_inv h now st'" "\<exists>d. r = Inr d \<and> d \<noteq> Some Allowed"
    "r = Inr None \<longleftrightarrow> fits (Option.bind (anomaly pol) cfg_maxSpendPerMinute)
        (spent (\<lambda>e. now - 60000 \<le> entry_ts e \<and> entry_asset e = intent_asset i) h + n)"
proof -
  obtain c where c: "c \<le> now - 60000" "window_inv h c st" using engine_inv_later [OF assms(2,3)] by (auto simp: engine_inv_def)
  note w = recentSpend_spec [OF prune_window [OF c(2,1)]]
  show "engine_inv h now st'"
    using assms engine_inv_prune [OF assms(2,3)] engine_inv_later [OF assms(2,3)]
    by (auto simp: check_anomaly_def Let_def split: option.splits if_splits sum.splits)
  show "\<exists>d. r = Inr d \<and> d \<noteq> Some Allowed"
    using assms(1,4) by (auto simp: check_anomaly_def policy_wf_def parseAmount_def Let_def split: option.splits if_splits)
  show "r = Inr None \<longleftrightarrow> fits (Option.bind (anomaly pol) cfg_maxSpendPerMinute)
        (spent (\<lambda>e. now - 60000 \<le> entry_ts e \<and> entry_asset e = intent_asset i) h + n)"
    using assms(1,4) w
    by (auto simp: check_anomaly_def policy_wf_def parseAmount_def fits_def Let_def split: option.splits if_splits)
qed

lemma or_else_spec:
  assumes "\<exists>d. r = Inr d \<and> d \<noteq> Some Allowed" "\<exists>d. k = Inr d \<and> d \<noteq> Some Allowed"
  shows "\<exists>d. or_else r k = Inr d \<and> d \<noteq> Some Allowed" "or_else r k = Inr None \<longleftrightarrow> r = Inr None \<and> k = Inr None"
  using assms by (auto simp: or_else_def split: option.splits)

lemma static_rules_spec:
  assumes "policy_wf pol" "totals_inv h st" "day_inv h (day_of t0) st"
  shows "\<exists>d. static_rules pol i (BigInt (intent_amount i)) st = Inr d \<and> d \<noteq> Some Allowed"
    "static_rules pol i (BigInt (intent_amount i)) st = Inr None \<longleftrightarrow>
       model_allows pol i \<and>
       fits (Option.bind (budgets pol) cfg_daily)
         (spent (\<lambda>e. entry_asset e = intent_asset i \<and> entry_day e = day_of t0) h + BigInt (intent_amount i)) \<and>
       fits (Option.bind (budgets pol) cfg_total)
         (spent (\<lambda>e. entry_asset e = intent_asset i) h + BigInt (intent_amount i)) \<and>
       fits (svcCap pol i)
         (spent (\<lambda>e. entry_key e = svcKey (intent_payee i) (intent_asset i)) h + BigInt (intent_amount i))"
  unfolding static_rules_def
  using check_model_spec [OF assms(1), of i] check_daily_spec [OF assms(1,3), of i]
    check_total_spec [OF assms(1,2), of i] check_service_spec [OF assms(1,2), of i]
  by (simp_all add: or_else_spec)

lemma check_refines:
  assumes wf: "policy_wf pol" and inv: "engine_inv h t st" and am: "AMOUNT_RE (intent_amount i)"
    and clock: "t \<le> t0" "t0 \<le> t1" "t1 \<le> t2" "ok_clock t0"
  shows "engine_inv h t2 (snd (check pol t0 t1 t2 i st))"
    and "\<exists>d. fst (check pol t0 t1 t2 i st) = Inr d \<and> (d = Allowed \<longleftrightarrow> spec_allows pol h t0 t1 t2 i)"
proof -
  obtain st1 where st1: "resetDailyIfNeeded t0 st = Inr st1" "engine_inv h t0 st1" "day_inv h (day_of t0) st1"
    using engine_inv_reset [OF inv clock(1,4)] by blast
  have tot: "totals_inv h st1" using st1(2) by (simp add: engine_inv_def)
  note sr = static_rules_spec [OF wf tot st1(3), of i]
  obtain r st2 where rate: "check_rate pol t1 st1 = (r, st2)" by fastforce
  note rs = check_rate_spec [OF st1(2) clock(2) rate]
  obtain q st3 where an: "check_anomaly pol t2 i (BigInt (intent_amount i)) st2 = (q, st3)" by fastforce
  note as = check_anomaly_spec [OF wf rs(1) clock(3) an]
  note l1 = engine_inv_later [OF st1(2), of t2] and l2 = engine_inv_later [OF rs(1) clock(3)]
  show "engine_inv h t2 (snd (check pol t0 t1 t2 i st))"
    using st1(1) am sr(1) rate an as(1) l1 l2 clock
    by (auto simp: check_def parseAmount_def split: option.splits)
  show "\<exists>d. fst (check pol t0 t1 t2 i st) = Inr d \<and> (d = Allowed \<longleftrightarrow> spec_allows pol h t0 t1 t2 i)"
    using st1(1) am sr rate an as(2,3) rs(2,3)
    by (auto simp: check_def parseAmount_def spec_allows_def Let_def decide_def split: option.splits)
qed

subsection \<open>Runs\<close>

datatype policy_op =
    Check_op int int int payment_intent
  | Record_op int int int payment_intent

fun policy_run :: "policy \<Rightarrow> policy_op list \<Rightarrow> engine \<Rightarrow> engine" where
  "policy_run pol [] st = st"
| "policy_run pol (Check_op t0 t1 t2 i # ops) st = policy_run pol ops (snd (check pol t0 t1 t2 i st))"
| "policy_run pol (Record_op t0 t1 t2 i # ops) st = policy_run pol ops (snd (record_payment t0 t1 t2 i st))"

text \<open>What a run records: the payments whose amount parses; the others throw.\<close>

fun recorded :: "policy_op list \<Rightarrow> entry list" where
  "recorded [] = []"
| "recorded (Check_op t0 t1 t2 i # ops) = recorded ops"
| "recorded (Record_op t0 t1 t2 i # ops) =
     (if AMOUNT_RE (intent_amount i) then entry_of t0 t1 i # recorded ops else recorded ops)"

text \<open>Clock readings that never go back, in years the date string can tell apart.\<close>

definition ticks :: "int \<Rightarrow> int \<Rightarrow> int \<Rightarrow> int \<Rightarrow> bool" where
  "ticks t t0 t1 t2 \<longleftrightarrow> t \<le> t0 \<and> t0 \<le> t1 \<and> t1 \<le> t2 \<and> ok_clock t0"

fun clocked :: "int \<Rightarrow> policy_op list \<Rightarrow> bool" where
  "clocked t [] = True"
| "clocked t (Check_op t0 t1 t2 i # ops) = (ticks t t0 t1 t2 \<and> clocked t2 ops)"
| "clocked t (Record_op t0 t1 t2 i # ops) = (ticks t t0 t1 t2 \<and> clocked t2 ops)"

fun end_clock :: "int \<Rightarrow> policy_op list \<Rightarrow> int" where
  "end_clock t [] = t"
| "end_clock t (Check_op t0 t1 t2 i # ops) = end_clock t2 ops"
| "end_clock t (Record_op t0 t1 t2 i # ops) = end_clock t2 ops"

lemma malformed_inv:
  assumes "engine_inv h t st" "ticks t t0 t1 t2" "\<not> AMOUNT_RE (intent_amount i)"
  shows "engine_inv h t2 (snd (check pol t0 t1 t2 i st))"
    and "engine_inv h t2 (snd (record_payment t0 t1 t2 i st))"
    and "fst (check pol t0 t1 t2 i st) = Inl (TollwayError Invalid_amount (''invalid amount: '' @ intent_amount i))"
proof -
  have tk: "t \<le> t0" "t0 \<le> t2" "ok_clock t0" using assms(2) by (auto simp: ticks_def)
  obtain st1 where st1: "resetDailyIfNeeded t0 st = Inr st1" "engine_inv h t0 st1"
    using engine_inv_reset [OF assms(1) tk(1,3)] by blast
  with engine_inv_later [OF st1(2) tk(2)] assms(3)
  show "engine_inv h t2 (snd (check pol t0 t1 t2 i st))"
    "engine_inv h t2 (snd (record_payment t0 t1 t2 i st))"
    "fst (check pol t0 t1 t2 i st) = Inl (TollwayError Invalid_amount (''invalid amount: '' @ intent_amount i))"
    by (simp_all add: check_def record_payment_def applyRecord_def parseAmount_def)
qed

lemma policy_run_inv:
  assumes "policy_wf pol" "engine_inv h t st" "clocked t ops"
  shows "engine_inv (h @ recorded ops) (end_clock t ops) (policy_run pol ops st)"
  using assms(2,3)
proof (induction ops arbitrary: h t st)
  case Nil
  then show ?case by simp
next
  case (Cons oper ops)
  show ?case
  proof (cases oper)
    case (Check_op t0 t1 t2 i)
    with Cons.prems have tk: "ticks t t0 t1 t2" by simp
    then have le: "t \<le> t0" "t0 \<le> t1" "t1 \<le> t2" "ok_clock t0" by (simp_all add: ticks_def)
    have "engine_inv h t2 (snd (check pol t0 t1 t2 i st))"
      using check_refines(1) [OF assms(1) Cons.prems(1) _ le, of i]
        malformed_inv(1) [OF Cons.prems(1) tk, of i pol] by blast
    with Cons Check_op show ?thesis by simp
  next
    case (Record_op t0 t1 t2 i)
    with Cons.prems have tk: "ticks t t0 t1 t2" by simp
    then have le: "t \<le> t0" "t0 \<le> t1" "t1 \<le> t2" "ok_clock t0" by (simp_all add: ticks_def)
    show ?thesis
    proof (cases "AMOUNT_RE (intent_amount i)")
      case True
      obtain st' where "record_payment t0 t1 t2 i st = (Inr (), st')"
        "engine_inv (h @ [entry_of t0 t1 i]) t2 st'"
        using record_inv [OF Cons.prems(1) le True] by blast
      with Cons.IH [OF this(2)] Cons.prems Record_op True show ?thesis by simp
    next
      case False
      with malformed_inv(2) [OF Cons.prems(1) tk False] Cons Record_op show ?thesis by simp
    qed
  qed
qed

lemma engine_refines_history:
  assumes "createPolicyEngine t = Inr st0" "ok_clock t" "policy_wf pol" "clocked t ops"
    and "ticks (end_clock t ops) t0 t1 t2" "AMOUNT_RE (intent_amount i)"
  shows "\<exists>d. fst (check pol t0 t1 t2 i (policy_run pol ops st0)) = Inr d \<and>
             (d = Allowed \<longleftrightarrow> spec_allows pol (recorded ops) t0 t1 t2 i)"
proof -
  have "engine_inv (recorded ops) (end_clock t ops) (policy_run pol ops st0)"
    using policy_run_inv [OF assms(3) engine_inv_initial [OF assms(2,1)] assms(4)] by simp
  with check_refines(2) [OF assms(3) this assms(6)] assms(5) show ?thesis by (simp add: ticks_def)
qed

subsection \<open>One payment at a time never exceeds a limit\<close>

type_synonym readings = "int \<times> int \<times> int"

text \<open>
  A payer that checks, and records an allowed payment before its next check. The second component is
  the history of what it paid.
\<close>

fun pay_run :: "policy \<Rightarrow> (readings \<times> readings \<times> payment_intent) list \<Rightarrow> engine \<times> entry list \<Rightarrow> engine \<times> entry list" where
  "pay_run pol [] s = s"
| "pay_run pol (((t0, t1, t2), (u0, u1, u2), i) # ps) (st, h) =
     (case check pol t0 t1 t2 i st of
        (Inr Allowed, st1) \<Rightarrow> pay_run pol ps (snd (record_payment u0 u1 u2 i st1), h @ [entry_of u0 u1 i])
      | (_, st1) \<Rightarrow> pay_run pol ps (st1, h))"

fun pay_clocked :: "int \<Rightarrow> (readings \<times> readings \<times> payment_intent) list \<Rightarrow> bool" where
  "pay_clocked t [] = True"
| "pay_clocked t (((t0, t1, t2), (u0, u1, u2), i) # ps) =
     (ticks t t0 t1 t2 \<and> ticks t2 u0 u1 u2 \<and> pay_clocked u2 ps)"

definition limits_kept :: "policy \<Rightarrow> entry list \<Rightarrow> bool" where
  "limits_kept pol h \<longleftrightarrow>
     (\<forall>a. fits (Option.bind (budgets pol) cfg_total) (spent (\<lambda>e. entry_asset e = a) h)) \<and>
     (\<forall>a d. fits (Option.bind (budgets pol) cfg_daily) (spent (\<lambda>e. entry_asset e = a \<and> entry_day e = d) h)) \<and>
     (\<forall>a i. fits (svcCap pol i) (spent (\<lambda>e. entry_payee e = intent_payee i \<and> entry_asset e = a) h))"

lemma fits_mono: "fits l y \<Longrightarrow> x \<le> y \<Longrightarrow> fits l x"
  by (auto simp: fits_def)

lemma limits_kept_step:
  assumes k: "limits_kept pol h" and s: "spec_allows pol h t0 t1 t2 i"
    and days: "\<forall>e\<in>set h. entry_day e \<le> day_of t0" "day_of t0 \<le> day_of u0"
  shows "limits_kept pol (h @ [entry_of u0 u1 i])"
proof -
  let ?n = "BigInt (intent_amount i)" and ?a = "intent_asset i" and ?e = "entry_of u0 u1 i"
  have total: "fits (Option.bind (budgets pol) cfg_total) (spent (\<lambda>e. entry_asset e = a) (h @ [?e]))" for a
    using k s by (cases "a = ?a") (simp_all add: limits_kept_def spec_allows_def Let_def)
  have "spent (\<lambda>e. entry_asset e = ?a \<and> entry_day e = day_of u0) h
      \<le> spent (\<lambda>e. entry_asset e = ?a \<and> entry_day e = day_of t0) h"
  proof (cases "day_of u0 = day_of t0")
    case False
    with days have "spent (\<lambda>e. entry_asset e = ?a \<and> entry_day e = day_of u0) h = 0"
      by (intro spent_none) auto
    then show ?thesis by simp
  qed simp
  with s have "fits (Option.bind (budgets pol) cfg_daily)
      (spent (\<lambda>e. entry_asset e = ?a \<and> entry_day e = day_of u0) h + ?n)"
    by (auto simp: spec_allows_def Let_def elim!: fits_mono)
  with k have daily: "fits (Option.bind (budgets pol) cfg_daily)
      (spent (\<lambda>e. entry_asset e = a \<and> entry_day e = d) (h @ [?e]))" for a d
    by (cases "a = ?a \<and> d = day_of u0") (auto simp: limits_kept_def)
  have service: "fits (svcCap pol j)
      (spent (\<lambda>e. entry_payee e = intent_payee j \<and> entry_asset e = a) (h @ [?e]))" for a j
  proof (cases "intent_payee j = intent_payee i \<and> a = ?a")
    case True
    have "spent (\<lambda>e. entry_payee e = intent_payee i \<and> entry_asset e = ?a) h
        \<le> spent (\<lambda>e. entry_key e = svcKey (intent_payee i) ?a) h"
      by (rule spent_mono) (simp add: entry_key_def)
    moreover have "svcCap pol j = svcCap pol i" using True by (simp add: svcCap_def)
    ultimately show ?thesis
      using s True by (auto simp: spec_allows_def Let_def elim!: fits_mono)
  next
    case False
    with k show ?thesis by (auto simp: limits_kept_def)
  qed
  from total daily service show ?thesis by (simp add: limits_kept_def)
qed

lemma engine_inv_days: "engine_inv h t st \<Longrightarrow> t \<le> t0 \<Longrightarrow> \<forall>e\<in>set h. entry_day e \<le> day_of t0"
  using day_of_mono [of t t0] by (force simp: engine_inv_def day_inv_def)

lemma pay_run_limits:
  assumes wf: "policy_wf pol"
  shows "engine_inv h t st \<Longrightarrow> limits_kept pol h \<Longrightarrow> pay_clocked t ps \<Longrightarrow>
    limits_kept pol (snd (pay_run pol ps (st, h)))"
proof (induction ps arbitrary: t st h)
  case Nil
  then show ?case by simp
next
  case (Cons p ps)
  obtain t0 t1 t2 u0 u1 u2 i where p: "p = ((t0, t1, t2), (u0, u1, u2), i)" by (metis prod_cases3 surj_pair)
  from Cons.prems(3) have tk: "ticks t t0 t1 t2" "ticks t2 u0 u1 u2" "pay_clocked u2 ps" by (simp_all add: p)
  have le: "t \<le> t0" "t0 \<le> t1" "t1 \<le> t2" "ok_clock t0" "t2 \<le> u0" "u0 \<le> u1" "u1 \<le> u2" "ok_clock u0" "t2 \<le> u2"
    using tk by (auto simp: ticks_def)
  obtain r st1 where c: "check pol t0 t1 t2 i st = (r, st1)" by fastforce
  show ?case
  proof (cases "r = Inr Allowed")
    case True
    then have am: "AMOUNT_RE (intent_amount i)"
      using malformed_inv(3) [OF Cons.prems(1) tk(1), of i pol] c by fastforce
    have inv1: "engine_inv h t2 st1" and sp: "spec_allows pol h t0 t1 t2 i"
      using check_refines [OF wf Cons.prems(1) am le(1-4)] c True by auto
    obtain st2 where rec: "record_payment u0 u1 u2 i st1 = (Inr (), st2)"
      "engine_inv (h @ [entry_of u0 u1 i]) u2 st2"
      using record_inv [OF inv1 le(5,6,7,8) am] by blast
    have "day_of t0 \<le> day_of u0" using le by (intro day_of_mono) linarith
    then have "limits_kept pol (h @ [entry_of u0 u1 i])"
      using limits_kept_step [OF Cons.prems(2) sp engine_inv_days [OF Cons.prems(1) le(1)]] by blast
    from Cons.IH [OF rec(2) this tk(3)] show ?thesis by (simp add: p c True rec)
  next
    case False
    have "engine_inv h t2 st1"
      using check_refines(1) [OF wf Cons.prems(1) _ le(1-4)] malformed_inv(1) [OF Cons.prems(1) tk(1), of i pol] c
      by (metis snd_conv)
    from Cons.IH [OF engine_inv_later [OF this le(9)] Cons.prems(2) tk(3)] show ?thesis
      using False by (auto simp: p c split: sum.splits policy_decision.splits)
  qed
qed

subsection \<open>Properties\<close>

definition sample_intent :: "string \<Rightarrow> payment_intent" where
  "sample_intent amt = \<lparr>intent_payee = ''GSERVICE'', intent_resource = ''/quotes'', intent_amount = amt,
     intent_asset = ''USDC'', intent_model = X402\<rparr>"

definition sample_policy :: policy where
  "sample_policy = \<lparr>budgets = Some \<lparr>cfg_daily = Some ''80'', cfg_total = Some ''100''\<rparr>,
     perService = Some [''GSERVICE'' \<mapsto> \<lparr>cfg_cap = Some ''90''\<rparr>], perModel = None,
     rateLimit = Some \<lparr>cfg_requestsPerMinute = Some 2\<rparr>,
     anomaly = Some \<lparr>cfg_maxSpendPerMinute = Some ''70''\<rparr>\<rparr>"

definition fresh_engine :: engine where
  "fresh_engine = \<lparr>dailySpend = Map.empty, totalSpend = Map.empty, serviceSpend = Map.empty,
     requestTimestamps = [], anomalySamples = [], lastResetDay = date_string (day_of 0)\<rparr>"

lemma ok_clock_samples [simp]: "ok_clock 0" "ok_clock 1000" "ok_clock 2000" "ok_clock 3000"
  by (rule ok_clockI; simp)+

lemma fresh_engine: "createPolicyEngine 0 = Inr fresh_engine"
  by (simp add: createPolicyEngine_def utcDate_ok fresh_engine_def)

lemma sample_policy_wf: "policy_wf sample_policy"
  by (auto simp: policy_wf_def sample_policy_def svcCap_def AMOUNT_RE_def is_digit_def split: if_splits)

lemma sample_amounts [simp]: "AMOUNT_RE ''60''" "BigInt ''60'' = 60" "AMOUNT_RE ''100''" "BigInt ''100'' = 100"
  by (simp_all add: AMOUNT_RE_def is_digit_def BigInt_def digit_val_def)

text \<open>
  C1. The policy engine implements its specification over the payment history. After any sequence of
  checks and records with a clock that does not run backwards, a check of a well-formed amount returns
  (it does not throw), and it allows the payment exactly when the enabled and minimum-deposit rules of
  the model, the daily and total budget of the asset, the cap of the service, the number of requests
  in the last minute and the spend in the last minute, each recomputed from the whole history of
  recorded payments, all hold.
\<close>

theorem check_decides_over_history:
  assumes "createPolicyEngine t = Inr st0" "ok_clock t" "policy_wf pol" "clocked t ops"
    and "ticks (end_clock t ops) t0 t1 t2" "AMOUNT_RE (intent_amount i)"
  shows "\<exists>d. fst (check pol t0 t1 t2 i (policy_run pol ops st0)) = Inr d \<and>
             (d = Allowed \<longleftrightarrow> spec_allows pol (recorded ops) t0 t1 t2 i)"
  by (rule engine_refines_history [OF assms])

theorem check_decides_over_history_witness:
  "\<exists>d. fst (check sample_policy 2000 2000 2000 (sample_intent ''60'')
            (policy_run sample_policy [Record_op 1000 1000 1000 (sample_intent ''60'')] fresh_engine)) = Inr d \<and>
       (d = Allowed \<longleftrightarrow> spec_allows sample_policy
          (recorded [Record_op 1000 1000 1000 (sample_intent ''60'')]) 2000 2000 2000 (sample_intent ''60''))"
  by (rule check_decides_over_history [OF fresh_engine _ sample_policy_wf])
    (simp_all add: ticks_def sample_intent_def)

text \<open>
  C17. A payer that makes one payment at a time, recording each allowed payment before its next check,
  never spends more than the total budget of an asset, more than the daily budget of an asset on any
  UTC day, or more than a service's cap in any asset, whatever it attempts and whenever.
\<close>

theorem sequential_payments_respect_limits:
  assumes "createPolicyEngine t = Inr st0" "ok_clock t" "policy_wf pol" "pay_clocked t ps"
  shows "limits_kept pol (snd (pay_run pol ps (st0, [])))"
proof (rule pay_run_limits [OF assms(3) engine_inv_initial [OF assms(2,1)] _ assms(4)])
  show "limits_kept pol []" by (simp add: limits_kept_def fits_def)
qed

theorem sequential_payments_respect_limits_witness:
  "limits_kept sample_policy (snd (pay_run sample_policy
     [((1000, 1000, 1000), (1000, 1000, 1000), sample_intent ''60''),
      ((2000, 2000, 2000), (2000, 2000, 2000), sample_intent ''60'')] (fresh_engine, [])))"
  by (rule sequential_payments_respect_limits [OF fresh_engine _ sample_policy_wf]) (simp_all add: ticks_def)

definition budget_100 :: policy where
  "budget_100 = \<lparr>budgets = Some \<lparr>cfg_daily = None, cfg_total = Some ''100''\<rparr>, perService = None,
     perModel = None, rateLimit = None, anomaly = None\<rparr>"

text \<open>
  Sequential payers keep every limit, but overlapping ones do not: with a total budget of 100, two payments of 60
  whose checks both run before either is recorded are both allowed, and the recorded total is 120.
\<close>

theorem overlapping_payments_exceed_budget:
  "let i = sample_intent ''60'';
       (d1, s1) = check budget_100 0 0 0 i fresh_engine;
       (d2, s2) = check budget_100 0 0 0 i s1;
       (_, s3) = record_payment 0 0 0 i s2;
       (_, s4) = record_payment 0 0 0 i s3
   in d1 = Inr Allowed \<and> d2 = Inr Allowed \<and> totalSpend s4 (intent_asset i) = Some 120"
  by (simp add: Let_def check_def resetDailyIfNeeded_def utcDate_ok fresh_engine_def parseAmount_def
      sample_intent_def static_rules_def or_else_def check_model_def check_daily_def check_total_def
      check_service_def check_rate_def check_anomaly_def budget_100_def svcCap_def decide_def
      record_payment_def applyRecord_def bump_def pruneWindow_def)

text \<open>
  A malformed amount is a typed error and costs nothing: both operations throw \<open>invalid-amount\<close>,
  and the lifetime and per-service counters and the windows are as they were.
\<close>

theorem malformed_amount_changes_nothing:
  assumes "\<not> AMOUNT_RE (intent_amount i)" "utcDate t0 = Inr d"
  shows "fst (check pol t0 t1 t2 i st) = Inl (TollwayError Invalid_amount (''invalid amount: '' @ intent_amount i))
   \<and> fst (record_payment t0 t1 t2 i st) = Inl (TollwayError Invalid_amount (''invalid amount: '' @ intent_amount i))
   \<and> (\<forall>st'\<in>{snd (check pol t0 t1 t2 i st), snd (record_payment t0 t1 t2 i st)}.
       totalSpend st' = totalSpend st \<and> serviceSpend st' = serviceSpend st \<and>
       requestTimestamps st' = requestTimestamps st \<and> anomalySamples st' = anomalySamples st \<and>
       dailySpend st' = (if d = lastResetDay st then dailySpend st else Map.empty))"
  using assms
  by (auto simp: check_def record_payment_def applyRecord_def parseAmount_def resetDailyIfNeeded_def)

theorem malformed_amount_changes_nothing_witness:
  "fst (check budget_100 0 0 0 (sample_intent ''1.5'') fresh_engine)
     = Inl (TollwayError Invalid_amount ''invalid amount: 1.5'')"
proof -
  have "\<not> AMOUNT_RE (intent_amount (sample_intent ''1.5''))"
    by (simp add: sample_intent_def AMOUNT_RE_def is_digit_def)
  from malformed_amount_changes_nothing [OF this utcDate_ok, of 0 budget_100 0 0 fresh_engine]
  show ?thesis by (simp add: sample_intent_def)
qed

text \<open>
  The daily window is the UTC day: for instants in years 0 to 9999, two clock readings give the
  same date string exactly when they fall on the same UTC day.
\<close>

theorem utcDate_is_the_day:
  assumes "ok_clock t" "ok_clock u"
  shows "utcDate t = utcDate u \<longleftrightarrow> t div 86400000 = u div 86400000"
  using utcDate_same_day [OF assms] by (simp add: day_of_def msPerDay_def)

theorem utcDate_is_the_day_witness: "utcDate 86399999 = utcDate 0 \<and> utcDate 86400000 \<noteq> utcDate 0"
proof -
  have ok: "ok_clock 86399999" "ok_clock 86400000" by (rule ok_clockI; simp)+
  show ?thesis
    using utcDate_is_the_day [OF ok(1) ok_clock_samples(1)] utcDate_is_the_day [OF ok(2) ok_clock_samples(1)]
    by simp
qed

text \<open>
  The per-service counter is keyed by the string \<open>payee:asset\<close>. The key determines payee and asset
  when payees contain no colon; without that, two different services share one counter.
\<close>

theorem service_key_identifies_service:
  assumes "CHR '':'' \<notin> set p" "CHR '':'' \<notin> set q"
  shows "svcKey p a = svcKey q b \<longleftrightarrow> p = q \<and> a = b"
proof
  assume "svcKey p a = svcKey q b"
  with assms show "p = q \<and> a = b"
    unfolding svcKey_def by (induction p arbitrary: q) (case_tac q; auto)+
qed simp

theorem service_key_identifies_service_witness:
  "svcKey ''GA'' ''USDC'' \<noteq> svcKey ''GB'' ''USDC'' \<and> svcKey ''GA:USDC'' ''GB'' = svcKey ''GA'' ''USDC:GB''"
  using service_key_identifies_service [of "''GA''" "''GB''" "''USDC''" "''USDC''"]
  by (simp add: svcKey_def)

end
