(* ===== verification/Router.thy ===== *)
theory Router
  imports Domain
begin

text \<open>
  The default model router of \<open>packages/core/src/router.ts\<close>. \<open>decide\<close> is \<open>route\<close> here. The
  specification is one sentence: without an override the router picks the least viable model in the
  preference order, and fails exactly when no model is viable.
\<close>

record traffic_snapshot =
  requestsPerMinute :: int
  windowSeconds :: int

record route_input =
  route_counterparty :: string
  route_resource :: string
  route_offer :: "payment_offer option"
  route_traffic :: "traffic_snapshot option"
  route_override :: "settlement_model option"
  route_allowedModels :: "settlement_model list option"

datatype route_reason = Reason_override | Reason_offer | Reason_traffic | Reason_default

record route_decision =
  decided_model :: settlement_model
  decided_reason :: route_reason

definition preferenceOrder :: "settlement_model list" where
  "preferenceOrder = [X402, Mpp_charge, Mpp_channel]"

definition model_list_str :: "settlement_model list \<Rightarrow> string" where
  "model_list_str ms = join_with '', '' (map model_str ms)"

definition route :: "route_input \<Rightarrow> route_decision result" where
  "route input =
     (case route_override input of
        Some m \<Rightarrow> Inr \<lparr>decided_model = m, decided_reason = Reason_override\<rparr>
      | None \<Rightarrow>
          (let allowed = (case route_allowedModels input of Some ms \<Rightarrow> ms | None \<Rightarrow> settlementModels)
           in case route_offer input of
                Some offer \<Rightarrow>
                  (case find (\<lambda>m. m \<in> set (offer_models offer) \<and> m \<in> set allowed) preferenceOrder of
                     None \<Rightarrow>
                       Inl (TollwayError No_viable_model
                         (''offer for '' @ offer_resource offer @ '' accepts ['' @
                          model_list_str (offer_models offer) @ ''], policy allows ['' @
                          model_list_str allowed @ '']''))
                   | Some viable \<Rightarrow> Inr \<lparr>decided_model = viable, decided_reason = Reason_offer\<rparr>)
              | None \<Rightarrow>
                  if X402 \<notin> set allowed then
                    (case find (\<lambda>m. m \<in> set allowed) preferenceOrder of
                       None \<Rightarrow> Inl (TollwayError No_viable_model ''policy allows no settlement model'')
                     | Some fallback \<Rightarrow> Inr \<lparr>decided_model = fallback, decided_reason = Reason_default\<rparr>)
                  else Inr \<lparr>decided_model = X402, decided_reason = Reason_default\<rparr>))"

subsection \<open>The choice is the least viable model\<close>

definition viable :: "route_input \<Rightarrow> settlement_model \<Rightarrow> bool" where
  "viable input m \<longleftrightarrow>
     (\<forall>ms. route_allowedModels input = Some ms \<longrightarrow> m \<in> set ms) \<and>
     (\<forall>offer. route_offer input = Some offer \<longrightarrow> m \<in> set (offer_models offer))"

lemma X402_least [simp]: "X402 \<le> m"
  by (simp add: less_eq_settlement_model_def)

lemma all_models: "(\<forall>m. Q m) \<longleftrightarrow> Q X402 \<and> Q Mpp_charge \<and> Q Mpp_channel"
  by (metis settlement_model.exhaust)

lemma find_preference:
  "find P preferenceOrder = Some m \<longleftrightarrow> P m \<and> (\<forall>n. P n \<longrightarrow> m \<le> n)"
  "find P preferenceOrder = None \<longleftrightarrow> (\<forall>n. \<not> P n)"
  unfolding all_models
  by (cases m; simp add: preferenceOrder_def less_eq_settlement_model_def)
    (simp add: preferenceOrder_def)

lemma route_least_viable:
  assumes "route_override input = None"
  shows "case route input of
      Inr d \<Rightarrow> viable input (decided_model d) \<and> (\<forall>m. viable input m \<longrightarrow> decided_model d \<le> m)
    | Inl e \<Rightarrow> error_code e = Some No_viable_model \<and> (\<forall>m. \<not> viable input m)"
  using assms
  by (cases "route_allowedModels input"; cases "route_offer input")
    (auto simp: route_def viable_def Let_def find_preference split: option.splits)


lemma route_override: "route_override input = Some m \<Longrightarrow> route input = Inr \<lparr>decided_model = m, decided_reason = Reason_override\<rparr>"
  by (simp add: route_def)

definition sample_offer :: payment_offer where
  "sample_offer = \<lparr>offer_resource = ''/a'', offer_amount = ''5'', offer_asset = ''USDC'', offer_payTo = ''G'',
     offer_network = Testnet, offer_models = [Mpp_channel, Mpp_charge], offer_mppSessionSupported = None,
     offer_facilitatorUrl = None\<rparr>"

definition sample_route :: route_input where
  "sample_route = \<lparr>route_counterparty = ''svc'', route_resource = ''/a'', route_offer = Some sample_offer,
     route_traffic = None, route_override = None, route_allowedModels = None\<rparr>"

subsection \<open>Properties\<close>

text \<open>C32. Without an override, the router returns the least model, in the order x402, mpp-charge,
  mpp-channel, that both the offer (when there is one) and the caller's policy (when it restricts the
  models) accept; it throws \<open>no-viable-model\<close> exactly when no model is accepted by both.\<close>

theorem router_picks_least_viable:
  assumes "route_override input = None"
  shows "case route input of
      Inr d \<Rightarrow> viable input (decided_model d) \<and> (\<forall>m. viable input m \<longrightarrow> decided_model d \<le> m)
    | Inl e \<Rightarrow> error_code e = Some No_viable_model \<and> (\<forall>m. \<not> viable input m)"
  by (rule route_least_viable [OF assms])

theorem router_picks_least_viable_witness:
  "(case route sample_route of Inr d \<Rightarrow> decided_model d = Mpp_charge | Inl _ \<Rightarrow> False)"
proof -
  have v: "viable sample_route m \<longleftrightarrow> m = Mpp_charge \<or> m = Mpp_channel" for m
    by (auto simp: viable_def sample_route_def sample_offer_def)
  have o: "route_override sample_route = None" by (simp add: sample_route_def)
  show ?thesis
  proof (cases "route sample_route")
    case (Inl e)
    from router_picks_least_viable [OF o] have "\<not> viable sample_route Mpp_charge" unfolding Inl by simp
    with v show ?thesis by simp
  next
    case (Inr d)
    from router_picks_least_viable [OF o]
    have "viable sample_route (decided_model d)" "viable sample_route Mpp_charge \<longrightarrow> decided_model d \<le> Mpp_charge"
      unfolding Inr by simp_all
    with v have "decided_model d = Mpp_charge \<or> decided_model d = Mpp_channel" "decided_model d \<le> Mpp_charge" by simp_all
    then show ?thesis unfolding Inr by (elim disjE) (simp_all add: less_eq_settlement_model_def)
  qed
qed

text \<open>The order in which an offer lists its models never matters: two offers that accept the same
  models lead to the same decision for every route input, and to a throw on the same inputs. (The
  field is documented as the service's order of preference.)\<close>

theorem router_ignores_offer_order:
  assumes "set (offer_models o1) = set (offer_models o2)"
  shows "map_sum (\<lambda>_. ()) id (route (input\<lparr>route_offer := Some o1\<rparr>)) =
         map_sum (\<lambda>_. ()) id (route (input\<lparr>route_offer := Some o2\<rparr>))"
  using assms by (auto simp: route_def Let_def split: option.splits)

theorem router_ignores_offer_order_witness:
  "map_sum (\<lambda>_. ()) id (route (sample_route\<lparr>route_offer := Some sample_offer\<rparr>)) =
   map_sum (\<lambda>_. ()) id (route (sample_route\<lparr>route_offer := Some (sample_offer\<lparr>offer_models := [Mpp_charge, Mpp_channel]\<rparr>)\<rparr>))"
  by (rule router_ignores_offer_order) (auto simp: sample_offer_def)

end
