(* ===== verification/JsNumber.thy ===== *)
theory JsNumber
  imports Prelude "HOL-Library.Log_Nat"
begin

text \<open>
  JavaScript numbers where a fraction matters (\<open>drawdownThreshold\<close>, \<open>idleTimeoutSeconds\<close>): the
  three non-finite values and the finite ones as rationals, with the rounding of an IEEE 754 double
  product written out (round to nearest, ties to even, 53 bits, subnormals at exponent -1074).
  \<open>Math.round\<close> rounds a finite number to the nearest integer, ties upwards.
\<close>

datatype js_number = NaN | Pos_infinity | Neg_infinity | Finite rat

definition floor_log2 :: "rat \<Rightarrow> int" where
  "floor_log2 x =
     (case quotient_of x of (n, d) \<Rightarrow>
        let k = bitlen n - bitlen d in if 2 powi k \<le> x then k else k - 1)"

definition round_even :: "rat \<Rightarrow> int" where
  "round_even x =
     (let r = \<lfloor>x\<rfloor>; f = x - of_int r
      in if f < 1 / 2 then r else if f > 1 / 2 then r + 1 else if even r then r else r + 1)"

text \<open>The double nearest to a non-negative rational (below the overflow threshold).\<close>

definition to_double :: "rat \<Rightarrow> rat" where
  "to_double x =
     (if x = 0 then 0
      else let e = max (-1074) (floor_log2 x - 52) in of_int (round_even (x / 2 powi e)) * 2 powi e)"

definition Math_round :: "rat \<Rightarrow> int" where
  "Math_round x = \<lfloor>x + 1 / 2\<rfloor>"

subsection \<open>How far a rounded product can be off\<close>

lemma round_even_error: "\<bar>of_int (round_even x) - x\<bar> \<le> 1 / 2"
proof -
  have "of_int \<lfloor>x\<rfloor> \<le> x" "x < of_int \<lfloor>x\<rfloor> + 1" using floor_correct [of x] by simp_all
  then show ?thesis unfolding round_even_def Let_def by (auto simp: abs_le_iff)
qed

lemma floor_log2_le:
  assumes "0 < x" shows "2 powi floor_log2 x \<le> x"
proof -
  obtain n d where q: "quotient_of x = (n, d)" by (cases "quotient_of x")
  have d: "0 < d" by (rule quotient_of_denom_pos [OF q])
  have x: "x = of_int n / of_int d" by (rule quotient_of_div [OF q])
  with assms d have n: "0 < n" by (simp add: zero_less_divide_iff)
  let ?k = "bitlen n - bitlen d"
  have bn: "2 ^ nat (bitlen n - 1) \<le> n" using bitlen_bounds [OF n] by simp
  have bd: "d < 2 ^ nat (bitlen d)" using bitlen_bounds [OF d] by simp
  have p: "(2::rat) powi i = of_int (2 ^ nat i)" if "0 \<le> i" for i :: int
    using that by (simp add: power_int_def)
  have "0 < bitlen n"
    using n by (simp add: bitlen_def floorlog_eq_zero_iff neq0_conv [symmetric] del: neq0_conv)
  then have pn: "(2::rat) powi (bitlen n - 1) \<le> of_int n"
    using bn by (subst p) (simp_all only: of_int_le_iff)
  have pd: "(of_int d :: rat) \<le> 2 powi (bitlen d)"
    using bd by (subst p) (simp_all only: of_int_le_iff bitlen_nonneg less_imp_le)
  have "(2::rat) powi (?k - 1) = 2 powi (bitlen n - 1) / 2 powi (bitlen d)"
    by (simp add: power_int_diff)
  also have "\<dots> \<le> of_int n / of_int d"
    using pn pd d n by (intro frac_le) simp_all
  finally have "(2::rat) powi (?k - 1) \<le> x" by (simp add: x)
  then show ?thesis by (simp add: floor_log2_def q Let_def)
qed

lemma to_double_error:
  assumes "0 \<le> x" shows "\<bar>to_double x - x\<bar> \<le> max (2 powi (-1074)) (x / 2 ^ 52) / 2"
proof (cases "x = 0")
  case True
  then show ?thesis by (simp add: to_double_def)
next
  case False
  with assms have pos: "0 < x" by simp
  define e where "e = max (-1074) (floor_log2 x - 52)"
  define u :: rat where "u = 2 powi e"
  have u: "0 < u" by (simp add: u_def)
  have "(2::rat) powi (floor_log2 x - 52) = 2 powi floor_log2 x / 2 ^ 52"
    by (simp add: power_int_diff)
  also have "\<dots> \<le> x / 2 ^ 52"
    using floor_log2_le [OF pos] by (intro divide_right_mono) simp_all
  finally have le: "u \<le> max (2 powi (-1074)) (x / 2 ^ 52)"
    by (cases "-1074 \<le> floor_log2 x - 52") (auto simp: u_def e_def max_def)
  have "to_double x - x = (of_int (round_even (x / u)) - x / u) * u"
    using False u by (simp add: to_double_def e_def [symmetric] u_def [symmetric] left_diff_distrib Let_def)
  then have "\<bar>to_double x - x\<bar> = \<bar>of_int (round_even (x / u)) - x / u\<bar> * u"
    using u by (simp add: abs_mult)
  also have "\<dots> \<le> 1 / 2 * u" using round_even_error u by (intro mult_right_mono) simp_all
  finally show ?thesis using le by simp
qed

lemma Math_round_error: "\<bar>of_int (Math_round x) - x\<bar> \<le> 1 / 2"
proof -
  have "of_int \<lfloor>x + 1 / 2\<rfloor> \<le> x + 1 / 2" "x + 1 / 2 < of_int \<lfloor>x + 1 / 2\<rfloor> + 1"
    using floor_correct [of "x + 1 / 2"] by simp_all
  then show ?thesis unfolding Math_round_def abs_le_iff by linarith
qed

text \<open>The scaled threshold \<open>Math.round(t * 1_000_000)\<close> is within one of \<open>t * 1_000_000\<close>.\<close>

lemma scaled_error:
  assumes "0 \<le> t" "t \<le> 1"
  shows "\<bar>of_int (Math_round (to_double (t * 1000000))) - t * 1000000\<bar> < 1"
proof -
  define s :: rat where "s = 2 powi (-1074)"
  have "s \<le> 2 powi (-2)" unfolding s_def by (rule power_int_increasing) simp_all
  then have s: "s / 2 \<le> 1 / 4" by (simp add: power_int_minus)
  have "t * 1000000 / 2 ^ 52 / 2 \<le> 1 / 4" using assms by (simp add: field_simps)
  with s have "max s (t * 1000000 / 2 ^ 52) / 2 \<le> 1 / 4" by (simp only: max_def split: if_split) simp
  moreover have "\<bar>to_double (t * 1000000) - t * 1000000\<bar> \<le> max s (t * 1000000 / 2 ^ 52) / 2"
    using assms unfolding s_def by (intro to_double_error) simp
  ultimately have "\<bar>to_double (t * 1000000) - t * 1000000\<bar> \<le> 1 / 4" by (rule order_trans [rotated])
  with Math_round_error [of "to_double (t * 1000000)"]
    abs_triangle_ineq [of "of_int (Math_round (to_double (t * 1000000))) - to_double (t * 1000000)"
      "to_double (t * 1000000) - t * 1000000"]
  show ?thesis by simp
qed

end
