(* ===== verification/Channels.thy ===== *)
theory Channels
  imports Domain JsNumber
begin

text \<open>
  The MPP channel lifecycle of \<open>packages/channels/src\<close>: the domain types (\<open>types.ts\<close>), the typed
  errors (\<open>errors.ts\<close>), the adapter boundary (\<open>adapter.ts\<close>), the commitment store with its in-memory
  implementation (\<open>store.ts\<close>) and the manager (\<open>manager.ts\<close>).

  The injected store is a record of its operations over a state of any type, the injected adapter a
  record of functions that may throw. The manager's operations thread the store's state and are
  written out call by call; here each runs without interruption. \<open>ChannelSteps\<close> interleaves them.
  \<open>Date.parse\<close> is an argument (\<open>None\<close> for \<open>NaN\<close>), because its result on strings outside the ISO
  format is implementation-defined.
\<close>

subsection \<open>Types\<close>

datatype channel_status = Status_open | Status_closing | Status_closed | Status_recovering | Status_recovered

fun status_str :: "channel_status \<Rightarrow> string" where
  "status_str Status_open = ''open''"
| "status_str Status_closing = ''closing''"
| "status_str Status_closed = ''closed''"
| "status_str Status_recovering = ''recovering''"
| "status_str Status_recovered = ''recovered''"

record open_channel_input =
  in_counterparty :: string
  in_asset :: string
  in_deposit :: string
  in_network :: stellar_network

record channel =
  ch_id :: string
  ch_counterparty :: string
  ch_asset :: string
  ch_deposit :: string
  ch_committed :: string
  ch_sequence :: int
  ch_status :: channel_status
  ch_network :: stellar_network
  ch_openTxHash :: string
  ch_openedAt :: string
  ch_lastCommitAt :: "string option"
  ch_settlementTxHash :: "string option"
  ch_returnedRemainder :: "string option"

record commitment =
  cm_channelId :: string
  cm_sequence :: int
  cm_cumulativeAmount :: string
  cm_commitment :: string

record close_result =
  cr_channelId :: string
  cr_settlementTxHash :: string
  cr_returnedRemainder :: string

record close_policy =
  drawdownThreshold :: "js_number option"
  idleTimeoutSeconds :: "js_number option"

subsection \<open>Errors\<close>

text \<open>
  \<open>InvalidNumberError x field\<close> is \<open>new InvalidAmountError(String(x), field)\<close>, with the number kept in
  place of its text; \<open>AdapterError\<close> is what the injected adapter threw.
\<close>

datatype channel_error =
    ChannelNotFoundError string
  | CommitmentExceedsDepositError string string string
  | InvalidAmountError string string
  | InvalidNumberError js_number string
  | ChannelNotOpenError string channel_status
  | ChannelAlreadyClosedError string channel_status
  | SettlementMismatchError string string string
  | RecoverNotImplemented
  | AdapterError js_error

fun channel_error_code :: "channel_error \<Rightarrow> tollway_error_code option" where
  "channel_error_code (ChannelNotFoundError _) = Some Channel_not_found"
| "channel_error_code (CommitmentExceedsDepositError _ _ _) = Some Commitment_exceeds_deposit"
| "channel_error_code (InvalidAmountError _ _) = Some Invalid_amount"
| "channel_error_code (InvalidNumberError _ _) = Some Invalid_amount"
| "channel_error_code (ChannelNotOpenError _ _) = Some Channel_not_open"
| "channel_error_code (ChannelAlreadyClosedError _ _) = Some Channel_already_closed"
| "channel_error_code (SettlementMismatchError _ _ _) = Some Settlement_mismatch"
| "channel_error_code RecoverNotImplemented = Some Not_implemented"
| "channel_error_code (AdapterError e) = error_code e"

text \<open>The messages; \<open>number_text\<close> is the language's conversion of a number to a string.\<close>

fun channel_error_message :: "(js_number \<Rightarrow> string) \<Rightarrow> channel_error \<Rightarrow> string" where
  "channel_error_message number_text (ChannelNotFoundError i) =
     ''channel \"'' @ i @ ''\" is not tracked by this manager''"
| "channel_error_message number_text (CommitmentExceedsDepositError i attemptedCumulative deposit) =
     ''commit on channel \"'' @ i @ ''\" would advance cumulative to '' @ attemptedCumulative @
     '', which exceeds the channel deposit of '' @ deposit"
| "channel_error_message number_text (InvalidAmountError v field) =
     field @ '' \"'' @ v @ ''\" is not a valid non-negative integer string''"
| "channel_error_message number_text (InvalidNumberError x field) =
     field @ '' \"'' @ number_text x @ ''\" is not a valid non-negative integer string''"
| "channel_error_message number_text (ChannelNotOpenError i st) =
     ''channel \"'' @ i @ ''\" is in status \"'' @ status_str st @ ''\"; commit requires status \"open\"''"
| "channel_error_message number_text (ChannelAlreadyClosedError i st) =
     ''channel \"'' @ i @ ''\" cannot be closed from status \"'' @ status_str st @
     ''\"; close requires status \"open\"''"
| "channel_error_message number_text (SettlementMismatchError i expectedSettled actualSettled) =
     ''channel \"'' @ i @ ''\" settled '' @ actualSettled @ '' but the last commitment was '' @ expectedSettled"
| "channel_error_message number_text RecoverNotImplemented =
     error_message (NotImplementedError ''ChannelManager.recover''
       ''docs/design.md, \"The channel lifecycle manager\"'')"
| "channel_error_message number_text (AdapterError e) = error_message e"

type_synonym 'a channel_result = "channel_error + 'a"

subsection \<open>The adapter\<close>

record open_adapter_result =
  oa_channelId :: string
  oa_openTxHash :: string

record close_adapter_input =
  ca_channelId :: string
  ca_network :: stellar_network
  ca_cumulativeAmount :: string
  ca_commitment :: string
  ca_deposit :: string

record close_adapter_result =
  ca_settlementTxHash :: string
  ca_settledAmount :: string
  ca_returnedRemainder :: string

record channel_adapter =
  openChannel :: "open_channel_input \<Rightarrow> open_adapter_result result"
  signCommitment :: "string \<Rightarrow> string \<Rightarrow> stellar_network \<Rightarrow> string result"
  closeChannel :: "close_adapter_input \<Rightarrow> close_adapter_result result"

subsection \<open>The commitment store\<close>

text \<open>\<open>Partial<Channel>\<close>, with the fields that the manager patches.\<close>

record channel_patch =
  patch_committed :: "string option"
  patch_sequence :: "int option"
  patch_status :: "channel_status option"
  patch_lastCommitAt :: "string option"
  patch_settlementTxHash :: "string option"
  patch_returnedRemainder :: "string option"

definition no_patch :: channel_patch where
  "no_patch = \<lparr>patch_committed = None, patch_sequence = None, patch_status = None, patch_lastCommitAt = None,
     patch_settlementTxHash = None, patch_returnedRemainder = None\<rparr>"

definition patched :: "'a option \<Rightarrow> 'a \<Rightarrow> 'a" where
  "patched p x = (case p of None \<Rightarrow> x | Some y \<Rightarrow> y)"

definition patched_opt :: "'a option \<Rightarrow> 'a option \<Rightarrow> 'a option" where
  "patched_opt p x = (case p of None \<Rightarrow> x | Some y \<Rightarrow> Some y)"

definition apply_patch :: "channel_patch \<Rightarrow> channel \<Rightarrow> channel" where
  "apply_patch p c = c\<lparr>
     ch_committed := patched (patch_committed p) (ch_committed c),
     ch_sequence := patched (patch_sequence p) (ch_sequence c),
     ch_status := patched (patch_status p) (ch_status c),
     ch_lastCommitAt := patched_opt (patch_lastCommitAt p) (ch_lastCommitAt c),
     ch_settlementTxHash := patched_opt (patch_settlementTxHash p) (ch_settlementTxHash c),
     ch_returnedRemainder := patched_opt (patch_returnedRemainder p) (ch_returnedRemainder c)\<rparr>"

text \<open>The \<open>CommitmentStore\<close> interface.\<close>

record 's store_ops =
  putChannel :: "channel \<Rightarrow> 's \<Rightarrow> 's"
  getChannel :: "string \<Rightarrow> 's \<Rightarrow> channel option"
  updateChannel :: "string \<Rightarrow> channel_patch \<Rightarrow> 's \<Rightarrow> channel option \<times> 's"
  appendCommitment :: "commitment \<Rightarrow> 's \<Rightarrow> 's"
  listCommitments :: "string \<Rightarrow> 's \<Rightarrow> commitment list"

text \<open>\<open>createMemoryCommitmentStore\<close>: two maps.\<close>

record mem_store =
  mem_channels :: "(string, channel) js_map"
  mem_commitments :: "(string, commitment list) js_map"

definition mem_empty :: mem_store where
  "mem_empty = \<lparr>mem_channels = Map.empty, mem_commitments = Map.empty\<rparr>"

definition mem_putChannel :: "channel \<Rightarrow> mem_store \<Rightarrow> mem_store" where
  "mem_putChannel c s =
     (let s1 = s\<lparr>mem_channels := (mem_channels s)(ch_id c \<mapsto> c)\<rparr>
      in if mem_commitments s1 (ch_id c) = None
         then s1\<lparr>mem_commitments := (mem_commitments s1)(ch_id c \<mapsto> [])\<rparr> else s1)"

definition mem_getChannel :: "string \<Rightarrow> mem_store \<Rightarrow> channel option" where
  "mem_getChannel i s = mem_channels s i"

definition mem_updateChannel :: "string \<Rightarrow> channel_patch \<Rightarrow> mem_store \<Rightarrow> channel option \<times> mem_store" where
  "mem_updateChannel i p s =
     (case mem_channels s i of
        None \<Rightarrow> (None, s)
      | Some current \<Rightarrow>
          let nxt = apply_patch p current in (Some nxt, s\<lparr>mem_channels := (mem_channels s)(i \<mapsto> nxt)\<rparr>))"

definition mem_appendCommitment :: "commitment \<Rightarrow> mem_store \<Rightarrow> mem_store" where
  "mem_appendCommitment cm s =
     (let stream = get_or [] (mem_commitments s) (cm_channelId cm)
      in s\<lparr>mem_commitments := (mem_commitments s)(cm_channelId cm \<mapsto> stream @ [cm])\<rparr>)"

definition mem_listCommitments :: "string \<Rightarrow> mem_store \<Rightarrow> commitment list" where
  "mem_listCommitments i s = sort_key cm_sequence (get_or [] (mem_commitments s) i)"

definition memory_store :: "mem_store store_ops" where
  "memory_store = \<lparr>putChannel = mem_putChannel, getChannel = mem_getChannel,
     updateChannel = mem_updateChannel, appendCommitment = mem_appendCommitment,
     listCommitments = mem_listCommitments\<rparr>"

subsection \<open>The manager\<close>

definition parse_amount :: "string \<Rightarrow> string \<Rightarrow> nat channel_result" where
  "parse_amount value field =
     (if AMOUNT_RE value then Inr (BigInt value) else Inl (InvalidAmountError value field))"

definition open_channel ::
  "'s store_ops \<Rightarrow> channel_adapter \<Rightarrow> string \<Rightarrow> open_channel_input \<Rightarrow> 's \<Rightarrow> channel channel_result \<times> 's" where
  "open_channel S adapter now input s =
     (case parse_amount (in_deposit input) ''deposit'' of
        Inl e \<Rightarrow> (Inl e, s)
      | Inr deposit \<Rightarrow>
          if deposit = 0 then (Inl (InvalidAmountError (in_deposit input) ''deposit''), s)
          else
            (case openChannel adapter input of
               Inl e \<Rightarrow> (Inl (AdapterError e), s)
             | Inr opened \<Rightarrow>
                 let c = \<lparr>ch_id = oa_channelId opened, ch_counterparty = in_counterparty input,
                       ch_asset = in_asset input, ch_deposit = in_deposit input, ch_committed = ''0'',
                       ch_sequence = -1, ch_status = Status_open, ch_network = in_network input,
                       ch_openTxHash = oa_openTxHash opened, ch_openedAt = now, ch_lastCommitAt = None,
                       ch_settlementTxHash = None, ch_returnedRemainder = None\<rparr>
                 in (Inr c, putChannel S c s)))"

definition commit ::
  "'s store_ops \<Rightarrow> channel_adapter \<Rightarrow> string \<Rightarrow> string \<Rightarrow> string \<Rightarrow> 's \<Rightarrow> commitment channel_result \<times> 's" where
  "commit S adapter now channelId amount s =
     (case parse_amount amount ''amount'' of
        Inl e \<Rightarrow> (Inl e, s)
      | Inr delta \<Rightarrow>
          if delta = 0 then (Inl (InvalidAmountError amount ''amount''), s)
          else
            (case getChannel S channelId s of
               None \<Rightarrow> (Inl (ChannelNotFoundError channelId), s)
             | Some current \<Rightarrow>
                 if ch_status current \<noteq> Status_open
                 then (Inl (ChannelNotOpenError channelId (ch_status current)), s)
                 else
                   (case parse_amount (ch_committed current) ''committed'' of
                      Inl e \<Rightarrow> (Inl e, s)
                    | Inr committed \<Rightarrow>
                        (case parse_amount (ch_deposit current) ''deposit'' of
                           Inl e \<Rightarrow> (Inl e, s)
                         | Inr deposit \<Rightarrow>
                             let nextCumulative = committed + delta
                             in if nextCumulative > deposit
                                then (Inl (CommitmentExceedsDepositError channelId
                                       (nat_toString nextCumulative) (ch_deposit current)), s)
                                else
                                  let nextSequence = ch_sequence current + 1;
                                      cumulativeAmount = nat_toString nextCumulative
                                  in (case signCommitment adapter channelId cumulativeAmount
                                          (ch_network current) of
                                        Inl e \<Rightarrow> (Inl (AdapterError e), s)
                                      | Inr blob \<Rightarrow>
                                          let cm = \<lparr>cm_channelId = channelId, cm_sequence = nextSequence,
                                                cm_cumulativeAmount = cumulativeAmount,
                                                cm_commitment = blob\<rparr>;
                                              s1 = appendCommitment S cm s;
                                              s2 = snd (updateChannel S channelId
                                                (no_patch\<lparr>patch_committed := Some cumulativeAmount,
                                                  patch_sequence := Some nextSequence,
                                                  patch_lastCommitAt := Some now\<rparr>) s1)
                                          in (Inr cm, s2))))))"

definition list_commitments ::
  "'s store_ops \<Rightarrow> string \<Rightarrow> 's \<Rightarrow> commitment list channel_result" where
  "list_commitments S channelId s =
     (case getChannel S channelId s of
        None \<Rightarrow> Inl (ChannelNotFoundError channelId)
      | Some _ \<Rightarrow> Inr (listCommitments S channelId s))"

definition SCALE :: int where
  "SCALE = 1000000"

definition drawdown_reached :: "channel \<Rightarrow> js_number \<Rightarrow> bool channel_result" where
  "drawdown_reached c threshold =
     (case threshold of
        Finite t \<Rightarrow>
          if t < 0 \<or> t > 1 then Inl (InvalidNumberError threshold ''closePolicy.drawdownThreshold'')
          else
            (case parse_amount (ch_committed c) ''committed'' of
               Inl e \<Rightarrow> Inl e
             | Inr committed \<Rightarrow>
                 (case parse_amount (ch_deposit c) ''deposit'' of
                    Inl e \<Rightarrow> Inl e
                  | Inr deposit \<Rightarrow>
                      if deposit > 0 then
                        let scaledThreshold = Math_round (to_double (t * of_int SCALE))
                        in Inr (int committed * SCALE \<ge> int deposit * scaledThreshold)
                      else Inr False))
      | _ \<Rightarrow> Inl (InvalidNumberError threshold ''closePolicy.drawdownThreshold''))"

definition idle_reached :: "(string \<Rightarrow> int option) \<Rightarrow> string \<Rightarrow> channel \<Rightarrow> js_number \<Rightarrow> bool channel_result" where
  "idle_reached date_parse now c timeout =
     (case timeout of
        Finite t \<Rightarrow>
          if t < 0 then Inl (InvalidNumberError timeout ''closePolicy.idleTimeoutSeconds'')
          else
            (case (date_parse (case ch_lastCommitAt c of Some l \<Rightarrow> l | None \<Rightarrow> ch_openedAt c), date_parse now) of
               (Some baseline, Some current) \<Rightarrow> Inr (of_int ((current - baseline) div 1000) \<ge> t)
             | _ \<Rightarrow> Inr False)
      | _ \<Rightarrow> Inl (InvalidNumberError timeout ''closePolicy.idleTimeoutSeconds''))"

definition shouldClose ::
  "'s store_ops \<Rightarrow> (string \<Rightarrow> int option) \<Rightarrow> close_policy option \<Rightarrow> string \<Rightarrow> string \<Rightarrow> 's \<Rightarrow> bool channel_result" where
  "shouldClose S date_parse closePolicy now channelId s =
     (case getChannel S channelId s of
        None \<Rightarrow> Inl (ChannelNotFoundError channelId)
      | Some c \<Rightarrow>
          if ch_status c \<noteq> Status_open then Inr False
          else
            (case closePolicy of
               None \<Rightarrow> Inr False
             | Some cp \<Rightarrow>
                 (case (case drawdownThreshold cp of None \<Rightarrow> Inr False | Some t \<Rightarrow> drawdown_reached c t) of
                    Inl e \<Rightarrow> Inl e
                  | Inr True \<Rightarrow> Inr True
                  | Inr False \<Rightarrow>
                      (case idleTimeoutSeconds cp of
                         None \<Rightarrow> Inr False
                       | Some t \<Rightarrow> idle_reached date_parse now c t))))"

definition set_status :: "'s store_ops \<Rightarrow> string \<Rightarrow> channel_status \<Rightarrow> 's \<Rightarrow> 's" where
  "set_status S channelId st s = snd (updateChannel S channelId (no_patch\<lparr>patch_status := Some st\<rparr>) s)"

definition close_input :: "string \<Rightarrow> channel \<Rightarrow> commitment list \<Rightarrow> close_adapter_input" where
  "close_input channelId current stream =
     (case stream of
        [] \<Rightarrow> \<lparr>ca_channelId = channelId, ca_network = ch_network current, ca_cumulativeAmount = ''0'',
                ca_commitment = [], ca_deposit = ch_deposit current\<rparr>
      | _ \<Rightarrow> \<lparr>ca_channelId = channelId, ca_network = ch_network current,
               ca_cumulativeAmount = cm_cumulativeAmount (last stream),
               ca_commitment = cm_commitment (last stream), ca_deposit = ch_deposit current\<rparr>)"

text \<open>The part of \<open>close\<close> after the adapter has answered.\<close>

definition settle_close ::
  "'s store_ops \<Rightarrow> string \<Rightarrow> string \<Rightarrow> close_adapter_result result \<Rightarrow> 's \<Rightarrow> close_result channel_result \<times> 's" where
  "settle_close S channelId cumulativeAmount answer s =
     (case answer of
        Inl e \<Rightarrow> (Inl (AdapterError e), set_status S channelId Status_open s)
      | Inr settlement \<Rightarrow>
          if ca_settledAmount settlement \<noteq> cumulativeAmount
          then (Inl (SettlementMismatchError channelId cumulativeAmount (ca_settledAmount settlement)),
                set_status S channelId Status_open s)
          else
            (Inr \<lparr>cr_channelId = channelId, cr_settlementTxHash = ca_settlementTxHash settlement,
                  cr_returnedRemainder = ca_returnedRemainder settlement\<rparr>,
             snd (updateChannel S channelId
               (no_patch\<lparr>patch_status := Some Status_closed,
                 patch_settlementTxHash := Some (ca_settlementTxHash settlement),
                 patch_returnedRemainder := Some (ca_returnedRemainder settlement)\<rparr>) s)))"

definition close ::
  "'s store_ops \<Rightarrow> channel_adapter \<Rightarrow> string \<Rightarrow> 's \<Rightarrow> close_result channel_result \<times> 's" where
  "close S adapter channelId s =
     (case getChannel S channelId s of
        None \<Rightarrow> (Inl (ChannelNotFoundError channelId), s)
      | Some current \<Rightarrow>
          if ch_status current \<noteq> Status_open
          then (Inl (ChannelAlreadyClosedError channelId (ch_status current)), s)
          else
            let input = close_input channelId current (listCommitments S channelId s);
                s1 = set_status S channelId Status_closing s
            in settle_close S channelId (ca_cumulativeAmount input) (closeChannel adapter input) s1)"

definition recover :: "string \<Rightarrow> 's \<Rightarrow> unit channel_result \<times> 's" where
  "recover channelId s = (Inl RecoverNotImplemented, s)"

end
