(* ===== verification/ChannelProofs.thy ===== *)
theory ChannelProofs
  imports Channels
begin

text \<open>
  What the channel manager promises. The laws it relies on in its store are the locale
  \<open>commitment_store\<close>, interpreted on the in-memory store. Inside the locale: the invariant
  \<open>manager_inv\<close> (every tracked channel agrees with its stream of commitments), that every step of a
  manager with an arbitrary adapter keeps it, the outcome of each operation, and that a closed channel
  never changes again.
\<close>

subsection \<open>The invariant\<close>

definition amount_of :: "commitment \<Rightarrow> nat" where
  "amount_of m = BigInt (cm_cumulativeAmount m)"

definition stream_ok :: "string \<Rightarrow> nat \<Rightarrow> commitment list \<Rightarrow> bool" where
  "stream_ok i deposit st \<longleftrightarrow>
     map cm_sequence st = map int [0..<length st] \<and>
     list_all (\<lambda>m. cm_channelId m = i \<and> canonical_amount (cm_cumulativeAmount m) \<and> amount_of m \<le> deposit) st \<and>
     sorted_wrt (<) (0 # map amount_of st)"

definition latest_amount :: "commitment list \<Rightarrow> string" where
  "latest_amount st = (if st = [] then ''0'' else cm_cumulativeAmount (last st))"

definition channel_ok :: "channel \<Rightarrow> commitment list \<Rightarrow> bool" where
  "channel_ok c st \<longleftrightarrow>
     AMOUNT_RE (ch_deposit c) \<and> 0 < BigInt (ch_deposit c) \<and>
     stream_ok (ch_id c) (BigInt (ch_deposit c)) st \<and>
     ch_sequence c = int (length st) - 1 \<and> ch_committed c = latest_amount st"

lemma canonical_toString [simp]: "canonical_amount (nat_toString n)"
proof (induction n rule: nat_toString.induct)
  case (1 n)
  show ?case
  proof (cases "n < 10")
    case True
    then show ?thesis by (subst nat_toString.simps) (simp add: canonical_amount_def AMOUNT_RE_def)
  next
    case False
    with 1 have c: "canonical_amount (nat_toString (n div 10))" by simp
    from False have pos: "0 < n div 10" by (simp add: div_greater_zero_iff)
    have "hd (nat_toString (n div 10)) \<noteq> CHR ''0''"
    proof
      assume h: "hd (nat_toString (n div 10)) = CHR ''0''"
      with c have "length (nat_toString (n div 10)) = 1" by (simp add: canonical_amount_def)
      with h have "nat_toString (n div 10) = ''0''" by (cases "nat_toString (n div 10)") auto
      then have "BigInt (nat_toString (n div 10)) = 0" by (simp only: BigInt_zero_string)
      with pos show False by simp
    qed
    then have "hd (nat_toString n) \<noteq> CHR ''0''"
      using False by (subst nat_toString.simps) simp
    then show ?thesis by (simp add: canonical_amount_def)
  qed
qed

lemma latest_amount_props:
  assumes "stream_ok i d st"
  shows "AMOUNT_RE (latest_amount st)" "BigInt (latest_amount st) \<le> d"
proof -
  have "AMOUNT_RE (latest_amount st) \<and> BigInt (latest_amount st) \<le> d"
  proof (cases st rule: rev_cases)
    case Nil
    then show ?thesis by (simp add: latest_amount_def BigInt_zero_string del: BigInt_single)
  next
    case (snoc ms m)
    with assms show ?thesis by (simp add: stream_ok_def latest_amount_def canonical_amount_def amount_of_def)
  qed
  then show "AMOUNT_RE (latest_amount st)" "BigInt (latest_amount st) \<le> d" by simp_all
qed

lemma stream_ok_Nil [simp]: "stream_ok i d []"
  by (simp add: stream_ok_def)

lemma stream_ok_snoc:
  assumes "stream_ok i d st" "cm_channelId m = i" "cm_sequence m = int (length st)"
    and "cm_cumulativeAmount m = nat_toString n" "BigInt (latest_amount st) < n" "n \<le> d"
  shows "stream_ok i d (st @ [m])"
proof -
  have "amount_of x \<le> BigInt (latest_amount st)" if "x \<in> set st" for x
    using assms(1) that
    by (cases st rule: rev_cases) (auto simp: stream_ok_def latest_amount_def amount_of_def sorted_wrt_append)
  with assms show ?thesis
    by (auto simp: stream_ok_def amount_of_def sorted_wrt_append dest: order.strict_trans1)
qed

lemma stream_ok_sorted: "stream_ok i d st \<Longrightarrow> sort_key cm_sequence st = st"
proof (rule sort_key_id_if_sorted)
  assume "stream_ok i d st"
  then have "map cm_sequence st = map int [0..<length st]" by (simp add: stream_ok_def)
  moreover have "sorted (map int [0..<length st])" by (simp add: sorted_iff_nth_mono)
  ultimately show "sorted (map cm_sequence st)" by (simp only:)
qed

lemma apply_patch_simps [simp]:
  "ch_id (apply_patch p c) = ch_id c" "ch_deposit (apply_patch p c) = ch_deposit c"
  "ch_network (apply_patch p c) = ch_network c"
  "ch_committed (apply_patch p c) = patched (patch_committed p) (ch_committed c)"
  "ch_sequence (apply_patch p c) = patched (patch_sequence p) (ch_sequence c)"
  "ch_status (apply_patch p c) = patched (patch_status p) (ch_status c)"
  by (simp_all add: apply_patch_def)

lemma patched_simps [simp]:
  "patched None x = x" "patched (Some y) x = y" "patched_opt None p = p" "patched_opt (Some y) p = Some y"
  by (simp_all add: patched_def patched_opt_def)

lemma no_patch_simps [simp]:
  "patch_committed no_patch = None" "patch_sequence no_patch = None" "patch_status no_patch = None"
  "patch_lastCommitAt no_patch = None" "patch_settlementTxHash no_patch = None"
  "patch_returnedRemainder no_patch = None"
  by (simp_all add: no_patch_def)

lemma reopen_id [simp]:
  assumes "ch_status c = Status_open"
  shows "apply_patch (no_patch\<lparr>patch_status := Some Status_open\<rparr>)
           (apply_patch (no_patch\<lparr>patch_status := Some Status_closing\<rparr>) c) = c"
  using assms by (simp add: apply_patch_def)

lemma channel_ok_status [simp]:
  "channel_ok (apply_patch (no_patch\<lparr>patch_status := st\<rparr>) c) cs = channel_ok c cs"
  "channel_ok (apply_patch (no_patch\<lparr>patch_status := st, patch_settlementTxHash := h,
     patch_returnedRemainder := r\<rparr>) c) cs = channel_ok c cs"
  by (simp_all add: channel_ok_def)

lemma parse_amount_eq [simp]:
  "parse_amount v f = Inr n \<longleftrightarrow> AMOUNT_RE v \<and> n = BigInt v"
  "parse_amount v f = Inl e \<longleftrightarrow> \<not> AMOUNT_RE v \<and> e = InvalidAmountError v f"
  by (auto simp: parse_amount_def)

subsection \<open>Steps of a manager\<close>

text \<open>
  One call on the manager, with any adapter and any clock reading. The store is used by this manager
  only; an adapter that opens a channel returns an identifier the store does not hold yet, which is
  what the adapter's contract (the address of a freshly deployed channel contract) gives.
\<close>

inductive manager_step :: "'s store_ops \<Rightarrow> 's \<Rightarrow> 's \<Rightarrow> bool" for S :: "'s store_ops" where
  step_open: "open_channel S adapter now input s = (r, s') \<Longrightarrow>
     (\<And>opened. openChannel adapter input = Inr opened \<Longrightarrow> getChannel S (oa_channelId opened) s = None) \<Longrightarrow>
     manager_step S s s'"
| step_commit: "commit S adapter now i amount s = (r', s') \<Longrightarrow> manager_step S s s'"
| step_close: "close S adapter i s = (r'', s') \<Longrightarrow> manager_step S s s'"

inductive_cases manager_step_cases: "manager_step S s s'"

locale commitment_store =
  fixes S :: "'s store_ops" and stream_of :: "string \<Rightarrow> 's \<Rightarrow> commitment list"
  assumes get_put: "getChannel S i (putChannel S c s) = (if i = ch_id c then Some c else getChannel S i s)"
    and get_update: "getChannel S i (snd (updateChannel S j p s)) =
      (if i = j then map_option (apply_patch p) (getChannel S i s) else getChannel S i s)"
    and get_append: "getChannel S i (appendCommitment S m s) = getChannel S i s"
    and stream_put: "stream_of i (putChannel S c s) = stream_of i s"
    and stream_update: "stream_of i (snd (updateChannel S j p s)) = stream_of i s"
    and stream_append: "stream_of i (appendCommitment S m s) =
      (if i = cm_channelId m then stream_of i s @ [m] else stream_of i s)"
    and list_stream: "listCommitments S i s = sort_key cm_sequence (stream_of i s)"
begin

lemmas store_laws = get_put get_update get_append stream_put stream_update stream_append list_stream

definition manager_inv :: "'s \<Rightarrow> bool" where
  "manager_inv s \<longleftrightarrow>
     (\<forall>i. getChannel S i s = None \<longrightarrow> stream_of i s = []) \<and>
     (\<forall>i c. getChannel S i s = Some c \<longrightarrow> ch_id c = i \<and> channel_ok c (stream_of i s))"

lemma inv_Some: "manager_inv s \<Longrightarrow> getChannel S i s = Some c \<Longrightarrow> ch_id c = i \<and> channel_ok c (stream_of i s)"
  by (simp add: manager_inv_def)

lemma inv_None: "manager_inv s \<Longrightarrow> getChannel S i s = None \<Longrightarrow> stream_of i s = []"
  by (simp add: manager_inv_def)

lemma inv_update:
  assumes "manager_inv s" "\<And>c. channel_ok (apply_patch p c) (stream_of i s) = channel_ok c (stream_of i s)"
  shows "manager_inv (snd (updateChannel S i p s))"
  unfolding manager_inv_def store_laws
proof (intro conjI allI impI)
  fix j c assume "(if j = i then map_option (apply_patch p) (getChannel S j s) else getChannel S j s) = Some c"
  then obtain c0 where "getChannel S j s = Some c0" "c = (if j = i then apply_patch p c0 else c0)"
    by (auto split: if_splits)
  with inv_Some [OF assms(1) this(1)] assms(2)
  show "ch_id c = j" "channel_ok c (stream_of j s)" by (auto split: if_splits)
next
  fix j assume "(if j = i then map_option (apply_patch p) (getChannel S j s) else getChannel S j s) = None"
  then show "stream_of j s = []" using inv_None [OF assms(1)] by (auto split: if_splits)
qed

lemma inv_set_status: "manager_inv s \<Longrightarrow> manager_inv (set_status S i st s)"
  unfolding set_status_def by (rule inv_update) simp_all

lemma open_keeps:
  assumes inv: "manager_inv s" and "open_channel S adapter now input s = (r, s')"
    and "\<And>opened. openChannel adapter input = Inr opened \<Longrightarrow> getChannel S (oa_channelId opened) s = None"
  shows "manager_inv s'"
proof (cases "s' = s")
  case True
  with inv show ?thesis by simp
next
  case False
  with assms(2) obtain c opened where s': "s' = putChannel S c s" "openChannel adapter input = Inr opened"
      "ch_id c = oa_channelId opened" and ok: "channel_ok c []"
    by (auto simp: open_channel_def channel_ok_def latest_amount_def Let_def split: sum.splits if_splits)
  from assms(3) [OF s'(2)] inv have "stream_of (ch_id c) s = []" by (simp add: s'(3) manager_inv_def)
  with inv ok show ?thesis by (auto simp: manager_inv_def s'(1) store_laws)
qed

lemma commit_keeps:
  assumes inv: "manager_inv s" and run: "commit S adapter now i amount s = (r, s')"
  shows "manager_inv s'"
proof (cases r)
  case (Inl e)
  with run have "s' = s"
    by (auto simp: commit_def Let_def split: sum.splits if_splits option.splits)
  with inv show ?thesis by simp
next
  case (Inr m)
  with run obtain c where c: "getChannel S i s = Some c" "0 < BigInt amount"
      "BigInt (ch_committed c) + BigInt amount \<le> BigInt (ch_deposit c)"
      "cm_channelId m = i" "cm_sequence m = ch_sequence c + 1"
      "cm_cumulativeAmount m = nat_toString (BigInt (ch_committed c) + BigInt amount)"
    and s': "s' = snd (updateChannel S i (no_patch\<lparr>patch_committed := Some (cm_cumulativeAmount m),
                patch_sequence := Some (cm_sequence m), patch_lastCommitAt := Some now\<rparr>)
              (appendCommitment S m s))"
    by (auto simp: commit_def Let_def split: sum.splits if_splits option.splits)
  from inv_Some [OF inv c(1)] have ok: "ch_id c = i" "channel_ok c (stream_of i s)" by simp_all
  have "stream_ok i (BigInt (ch_deposit c)) (stream_of i s @ [m])"
    using ok c(2-6) by (intro stream_ok_snoc [where n = "BigInt (ch_committed c) + BigInt amount"])
      (auto simp: channel_ok_def)
  with ok have "channel_ok (apply_patch (no_patch\<lparr>patch_committed := Some (cm_cumulativeAmount m),
      patch_sequence := Some (cm_sequence m), patch_lastCommitAt := Some now\<rparr>) c) (stream_of i s @ [m])"
    using c(5) by (simp add: channel_ok_def latest_amount_def)
  with ok(1) c(1,4) inv show ?thesis
    unfolding s' manager_inv_def by (simp add: store_laws)
qed

lemma close_keeps:
  assumes inv: "manager_inv s" and run: "close S adapter i s = (r, s')"
  shows "manager_inv s'"
proof -
  have "manager_inv (set_status S i Status_closing s)" by (rule inv_set_status [OF inv])
  moreover have "manager_inv t \<Longrightarrow> manager_inv (snd (updateChannel S i (no_patch\<lparr>patch_status := st,
      patch_settlementTxHash := h, patch_returnedRemainder := rem\<rparr>) t))" for t st h rem
    by (rule inv_update) simp_all
  ultimately show ?thesis using inv run
    by (auto simp: close_def settle_close_def Let_def inv_set_status split: option.splits if_splits sum.splits)
qed

lemma step_keeps: "manager_step S s s' \<Longrightarrow> manager_inv s \<Longrightarrow> manager_inv s'"
  by (induction rule: manager_step.induct) (blast intro: open_keeps commit_keeps close_keeps)+

lemma reachable_inv: "(manager_step S)\<^sup>*\<^sup>* s s' \<Longrightarrow> manager_inv s \<Longrightarrow> manager_inv s'"
  by (induction rule: rtranclp_induct) (auto intro: step_keeps)

subsection \<open>A closed channel is final\<close>

lemma step_not_open:
  assumes "manager_step S s s'" "getChannel S i s = Some c" "ch_status c \<noteq> Status_open"
  shows "getChannel S i s' = Some c \<and> stream_of i s' = stream_of i s"
  using assms
proof cases
  case (step_open adapter now input r)
  with assms(2,3) show ?thesis
    by (auto simp: open_channel_def store_laws Let_def split: sum.splits if_splits)
next
  case (step_commit adapter now j amount r)
  with assms(2,3) show ?thesis
    by (auto simp: commit_def store_laws Let_def split: sum.splits if_splits option.splits)
next
  case (step_close adapter j r)
  with assms(2,3) show ?thesis
    by (auto simp: close_def settle_close_def set_status_def store_laws Let_def
        split: sum.splits if_splits option.splits)
qed

lemma run_not_open:
  assumes "(manager_step S)\<^sup>*\<^sup>* s s'" "getChannel S i s = Some c" "ch_status c \<noteq> Status_open"
  shows "getChannel S i s' = Some c \<and> stream_of i s' = stream_of i s"
  using assms(1) by (induction rule: rtranclp_induct) (use assms(2,3) in \<open>auto dest: step_not_open\<close>)

subsection \<open>What each operation does\<close>

lemma open_outcome:
  "open_channel S adapter now input s =
     (if \<not> AMOUNT_RE (in_deposit input) \<or> BigInt (in_deposit input) = 0
      then (Inl (InvalidAmountError (in_deposit input) ''deposit''), s)
      else case openChannel adapter input of
          Inl e \<Rightarrow> (Inl (AdapterError e), s)
        | Inr opened \<Rightarrow>
            let c = \<lparr>ch_id = oa_channelId opened, ch_counterparty = in_counterparty input,
              ch_asset = in_asset input, ch_deposit = in_deposit input, ch_committed = ''0'',
              ch_sequence = -1, ch_status = Status_open, ch_network = in_network input,
              ch_openTxHash = oa_openTxHash opened, ch_openedAt = now, ch_lastCommitAt = None,
              ch_settlementTxHash = None, ch_returnedRemainder = None\<rparr>
            in (Inr c, putChannel S c s))"
  by (auto simp: open_channel_def parse_amount_def split: sum.splits)

lemma commit_outcome:
  assumes inv: "manager_inv s" and c: "getChannel S i s = Some c" "ch_status c = Status_open"
    and amount: "AMOUNT_RE amount" "0 < BigInt amount"
  shows "fst (commit S adapter now i amount s) =
    (let total = BigInt (ch_committed c) + BigInt amount
     in if total > BigInt (ch_deposit c)
        then Inl (CommitmentExceedsDepositError i (nat_toString total) (ch_deposit c))
        else case signCommitment adapter i (nat_toString total) (ch_network c) of
            Inl e \<Rightarrow> Inl (AdapterError e)
          | Inr blob \<Rightarrow> Inr \<lparr>cm_channelId = i, cm_sequence = int (length (stream_of i s)),
              cm_cumulativeAmount = nat_toString total, cm_commitment = blob\<rparr>)"
  using inv_Some [OF inv c(1)] c amount latest_amount_props(1)
  by (auto simp: commit_def channel_ok_def parse_amount_def Let_def split: sum.splits)

lemma commit_appends:
  assumes "commit S adapter now i amount s = (Inr m, s')"
  shows "stream_of i s' = stream_of i s @ [m]"
  using assms
  by (auto simp: commit_def Let_def store_laws split: sum.splits if_splits option.splits)

lemma commit_error_frame:
  assumes "commit S adapter now i amount s = (Inl e, s')" shows "s' = s"
  using assms by (auto simp: commit_def Let_def split: sum.splits if_splits option.splits)

lemma close_input_latest:
  assumes "manager_inv s" "getChannel S i s = Some c"
  shows "ca_cumulativeAmount (close_input i c (listCommitments S i s)) = ch_committed c"
    "ca_deposit (close_input i c (listCommitments S i s)) = ch_deposit c"
proof -
  from inv_Some [OF assms] have "channel_ok c (stream_of i s)" by simp
  then have "listCommitments S i s = stream_of i s" "ch_committed c = latest_amount (stream_of i s)"
    by (auto simp: list_stream channel_ok_def stream_ok_sorted)
  then show "ca_cumulativeAmount (close_input i c (listCommitments S i s)) = ch_committed c"
    "ca_deposit (close_input i c (listCommitments S i s)) = ch_deposit c"
    by (simp_all add: close_input_def latest_amount_def split: list.splits)
qed

lemma close_outcome:
  assumes inv: "manager_inv s" and c: "getChannel S i s = Some c" "ch_status c = Status_open"
  defines "input \<equiv> close_input i c (listCommitments S i s)"
  shows "case closeChannel adapter input of
      Inl e \<Rightarrow> fst (close S adapter i s) = Inl (AdapterError e) \<and>
        getChannel S j (snd (close S adapter i s)) = getChannel S j s
    | Inr answer \<Rightarrow>
        if ca_settledAmount answer \<noteq> ch_committed c
        then fst (close S adapter i s) = Inl (SettlementMismatchError i (ch_committed c) (ca_settledAmount answer)) \<and>
          getChannel S j (snd (close S adapter i s)) = getChannel S j s
        else fst (close S adapter i s) = Inr \<lparr>cr_channelId = i, cr_settlementTxHash = ca_settlementTxHash answer,
            cr_returnedRemainder = ca_returnedRemainder answer\<rparr> \<and>
          getChannel S j (snd (close S adapter i s)) =
            (if j = i then Some (c\<lparr>ch_status := Status_closed,
               ch_settlementTxHash := Some (ca_settlementTxHash answer),
               ch_returnedRemainder := Some (ca_returnedRemainder answer)\<rparr>) else getChannel S j s)"
  using c close_input_latest [OF inv c(1)]
  by (auto simp: close_def settle_close_def set_status_def input_def Let_def store_laws apply_patch_def
      split: sum.splits)

lemma close_keeps_stream: "stream_of j (snd (close S adapter i s)) = stream_of j s"
  by (auto simp: close_def settle_close_def set_status_def Let_def store_laws split: option.splits sum.splits)

end

interpretation mem: commitment_store memory_store "\<lambda>i s. get_or [] (mem_commitments s) i"
  by unfold_locales
    (auto simp: memory_store_def mem_putChannel_def mem_getChannel_def mem_updateChannel_def
      mem_appendCommitment_def mem_listCommitments_def get_or_def Let_def split: option.splits)


lemma memory_store_simps [simp]:
  "putChannel memory_store = mem_putChannel" "getChannel memory_store = mem_getChannel"
  "updateChannel memory_store = mem_updateChannel" "appendCommitment memory_store = mem_appendCommitment"
  "listCommitments memory_store = mem_listCommitments"
  by (simp_all add: memory_store_def)

lemma mem_inv_empty: "mem.manager_inv mem_empty"
  by (simp add: mem.manager_inv_def mem_empty_def mem_getChannel_def)

definition reachable :: "mem_store \<Rightarrow> bool" where
  "reachable s \<longleftrightarrow> (manager_step memory_store)\<^sup>*\<^sup>* mem_empty s"

lemma reachable_manager_inv: "reachable s \<Longrightarrow> mem.manager_inv s"
  unfolding reachable_def by (blast intro: mem.reachable_inv mem_inv_empty)

lemma reachable_channel_ok:
  assumes "reachable s" "mem_getChannel i s = Some c"
  shows "ch_id c = i \<and> channel_ok c (get_or [] (mem_commitments s) i)"
  using mem.inv_Some [OF reachable_manager_inv [OF assms(1)]] assms(2) by simp

lemma reachable_list:
  assumes "reachable s" "mem_getChannel i s = Some c"
  shows "mem_listCommitments i s = get_or [] (mem_commitments s) i"
  using reachable_channel_ok [OF assms] unfolding mem_listCommitments_def channel_ok_def
  by (blast intro: stream_ok_sorted)

lemma reachable_steps:
  "reachable mem_empty"
  "reachable s \<Longrightarrow> (\<And>opened. openChannel adapter input = Inr opened \<Longrightarrow> mem_getChannel (oa_channelId opened) s = None) \<Longrightarrow>
     reachable (snd (open_channel memory_store adapter now input s))"
  "reachable s \<Longrightarrow> reachable (snd (commit memory_store adapter now i amount s))"
  "reachable s \<Longrightarrow> reachable (snd (close memory_store adapter i s))"
  unfolding reachable_def
  by simp (rule rtranclp.rtrancl_into_rtrancl, assumption,
      rule manager_step.intros [OF surjective_pairing], simp?)+


subsection \<open>A sample run\<close>

definition sample_adapter :: "string \<Rightarrow> channel_adapter" where
  "sample_adapter i = \<lparr>
     openChannel = (\<lambda>_. Inr \<lparr>oa_channelId = i, oa_openTxHash = ''tx-open''\<rparr>),
     signCommitment = (\<lambda>_ cumulative _. Inr (''sig-'' @ cumulative)),
     closeChannel = (\<lambda>input. Inr \<lparr>ca_settlementTxHash = ''tx-close'', ca_settledAmount = ca_cumulativeAmount input,
       ca_returnedRemainder = nat_toString (BigInt (ca_deposit input) - BigInt (ca_cumulativeAmount input))\<rparr>)\<rparr>"

definition sample_open :: open_channel_input where
  "sample_open = \<lparr>in_counterparty = ''GPAYEE'', in_asset = ''USDC'', in_deposit = ''100'', in_network = Testnet\<rparr>"

definition sample_store :: "nat \<Rightarrow> mem_store" where
  "sample_store n =
     (let s0 = snd (open_channel memory_store (sample_adapter ''C1'') ''t0'' sample_open mem_empty)
      in ((\<lambda>s. snd (commit memory_store (sample_adapter ''C1'') ''t1'' ''C1'' ''30'' s)) ^^ n) s0)"

lemma mem_get_empty [simp]: "mem_getChannel i mem_empty = None"
  by (simp add: mem_getChannel_def mem_empty_def)

lemma sample_store_reachable: "reachable (sample_store n)"
  unfolding sample_store_def Let_def
  by (induction n) (simp_all add: reachable_steps)

lemma sample_store_value:
  "mem_getChannel ''C1'' (sample_store 2) = Some \<lparr>ch_id = ''C1'', ch_counterparty = ''GPAYEE'', ch_asset = ''USDC'',
     ch_deposit = ''100'', ch_committed = ''60'', ch_sequence = 1, ch_status = Status_open, ch_network = Testnet,
     ch_openTxHash = ''tx-open'', ch_openedAt = ''t0'', ch_lastCommitAt = Some ''t1'', ch_settlementTxHash = None,
     ch_returnedRemainder = None\<rparr>"
  by code_simp


subsection \<open>Properties\<close>

text \<open>C3. Every channel tracked by a manager on the in-memory store is consistent with its stream of
  commitments, after any calls that each run to their end, whatever the adapters answered, save that a newly opened
  channel has an identifier that was not in use: the sequence numbers are 0, 1, 2, ..., the cumulative
  amounts strictly increase and never exceed the deposit, and the record's \<open>committed\<close> and \<open>sequence\<close>
  are those of the last commitment listed.\<close>

theorem tracked_channel_agrees_with_stream:
  assumes "reachable s" and "mem_getChannel i s = Some c"
  shows "let st = mem_listCommitments i s in
     map cm_sequence st = map int [0..<length st] \<and>
     sorted_wrt (<) (0 # map amount_of st) \<and>
     list_all (\<lambda>m. cm_channelId m = i \<and> amount_of m \<le> BigInt (ch_deposit c)) st \<and>
     ch_committed c = latest_amount st \<and> BigInt (ch_committed c) \<le> BigInt (ch_deposit c) \<and>
     ch_sequence c = int (length st) - 1"
  using reachable_channel_ok [OF assms] latest_amount_props(2)
  unfolding Let_def reachable_list [OF assms]
  by (auto simp: channel_ok_def stream_ok_def list_all_iff)

theorem tracked_channel_agrees_with_stream_witness:
  "map cm_sequence (mem_listCommitments ''C1'' (sample_store 2)) = [0, 1] \<and>
   ch_committed (the (mem_getChannel ''C1'' (sample_store 2))) = ''60''"
proof -
  have two: "map int [0..<n] = [0, 1]" if "int n - 1 = 1" for n
  proof -
    from that have "n = Suc (Suc 0)" by simp
    then show ?thesis by simp
  qed
  show ?thesis
    using tracked_channel_agrees_with_stream [OF sample_store_reachable sample_store_value]
    unfolding Let_def sample_store_value option.sel channel.simps by (metis two)
qed

text \<open>A channel that has left the status \<open>open\<close> is final while no other call is in progress: no
  later call on the manager changes its record or its stream, \<open>close\<close> and \<open>commit\<close> on it throw their
  typed errors, and \<open>shouldClose\<close> answers no.\<close>

theorem closed_channel_is_final:
  assumes "(manager_step memory_store)\<^sup>*\<^sup>* s s'" and "mem_getChannel i s = Some c" and "ch_status c \<noteq> Status_open"
  shows "mem_getChannel i s' = Some c \<and> mem_listCommitments i s' = mem_listCommitments i s \<and>
    close memory_store adapter i s' = (Inl (ChannelAlreadyClosedError i (ch_status c)), s') \<and>
    (AMOUNT_RE amount \<and> 0 < BigInt amount \<longrightarrow>
       commit memory_store adapter now i amount s' = (Inl (ChannelNotOpenError i (ch_status c)), s')) \<and>
    shouldClose memory_store date_parse policy now i s' = Inr False"
  using mem.run_not_open [OF assms(1), of i c] assms(2,3)
  by (simp add: close_def commit_def shouldClose_def mem_listCommitments_def parse_amount_def)

theorem closed_channel_is_final_witness:
  "mem_getChannel ''C1'' (snd (commit memory_store (sample_adapter ''C1'') ''t2'' ''C1'' ''5''
      (snd (close memory_store (sample_adapter ''C1'') ''C1'' (sample_store 2))))) =
   mem_getChannel ''C1'' (snd (close memory_store (sample_adapter ''C1'') ''C1'' (sample_store 2)))"
proof -
  define s where "s = snd (close memory_store (sample_adapter ''C1'') ''C1'' (sample_store 2))"
  have "map_option ch_status (mem_getChannel ''C1'' s) = Some Status_closed" unfolding s_def by code_simp
  then obtain c where c: "mem_getChannel ''C1'' s = Some c" "ch_status c \<noteq> Status_open" by auto
  have "(manager_step memory_store)\<^sup>*\<^sup>* s (snd (commit memory_store (sample_adapter ''C1'') ''t2'' ''C1'' ''5'' s))"
    by (rule r_into_rtranclp, rule manager_step.step_commit [OF surjective_pairing])
  from closed_channel_is_final [OF this c] c show ?thesis by (simp add: s_def)
qed

text \<open>C26. \<open>commit\<close> on an open channel accepts exactly the amounts that keep the cumulative total within
  the deposit; it hands the adapter the new total, records the next sequence number and total, appends
  the commitment it returns, and changes nothing when it throws.\<close>

theorem commit_accepts_within_deposit:
  assumes "reachable s" and "mem_getChannel i s = Some c" and "ch_status c = Status_open"
    and "AMOUNT_RE amount" and "0 < BigInt amount"
  defines "tot \<equiv> BigInt (ch_committed c) + BigInt amount"
  shows "case commit memory_store adapter now i amount s of
      (Inl e, s') \<Rightarrow> s' = s \<and>
        (if BigInt (ch_deposit c) < tot
         then e = CommitmentExceedsDepositError i (nat_toString tot) (ch_deposit c)
         else signCommitment adapter i (nat_toString tot) (ch_network c) \<in> {Inl f | f. e = AdapterError f})
    | (Inr m, s') \<Rightarrow> tot \<le> BigInt (ch_deposit c) \<and>
        signCommitment adapter i (nat_toString tot) (ch_network c) = Inr (cm_commitment m) \<and>
        cm_channelId m = i \<and> cm_sequence m = ch_sequence c + 1 \<and> cm_cumulativeAmount m = nat_toString tot \<and>
        mem_listCommitments i s' = mem_listCommitments i s @ [m] \<and>
        mem_getChannel i s' = Some (c\<lparr>ch_committed := nat_toString tot, ch_sequence := ch_sequence c + 1,
          ch_lastCommitAt := Some now\<rparr>)"
proof -
  obtain r s' where run: "commit memory_store adapter now i amount s = (r, s')" by (rule prod.exhaust)
  show ?thesis
  proof (cases r)
    case (Inl e)
    with run mem.commit_error_frame mem.commit_outcome [OF reachable_manager_inv [OF assms(1)], of i c amount adapter now] assms
    show ?thesis by (auto simp: Let_def split: if_splits sum.splits)
  next
    case (Inr m)
    have reach: "reachable s'" using reachable_steps(3) [OF assms(1)] run by (metis snd_conv)
    have get: "mem_getChannel i s' = Some (c\<lparr>ch_committed := nat_toString tot, ch_sequence := ch_sequence c + 1,
          ch_lastCommitAt := Some now\<rparr>)" "cm_sequence m = ch_sequence c + 1"
      using run Inr assms(2,3) mem.get_update mem.get_append
      by (auto simp: commit_def Let_def tot_def apply_patch_def split: if_splits sum.splits)
    from mem.commit_appends [OF run [unfolded Inr]]
    have "mem_listCommitments i s' = mem_listCommitments i s @ [m]"
      by (simp add: reachable_list [OF assms(1,2)] reachable_list [OF reach get(1)])
    with run Inr get mem.commit_outcome [OF reachable_manager_inv [OF assms(1)], of i c amount adapter now] assms
    show ?thesis by (auto simp: Let_def tot_def split: if_splits sum.splits)
  qed
qed

theorem commit_accepts_within_deposit_witness:
  "fst (commit memory_store (sample_adapter ''C1'') ''t2'' ''C1'' ''41'' (sample_store 2)) =
     Inl (CommitmentExceedsDepositError ''C1'' ''101'' ''100'') \<and>
   isl (fst (commit memory_store (sample_adapter ''C1'') ''t2'' ''C1'' ''40'' (sample_store 2))) = False"
proof
  have a: "AMOUNT_RE ''41''" "0 < BigInt ''41''" "AMOUNT_RE ''40''" "0 < BigInt ''40''" by code_simp+
  have n: "BigInt ''100'' < BigInt ''60'' + BigInt ''41''" "\<not> BigInt ''100'' < BigInt ''60'' + BigInt ''40''"
    "nat_toString (BigInt ''60'' + BigInt ''41'') = ''101''" by code_simp+
  note P = commit_accepts_within_deposit [OF sample_store_reachable sample_store_value, of _ "sample_adapter ''C1''" "''t2''", simplified]
  show "fst (commit memory_store (sample_adapter ''C1'') ''t2'' ''C1'' ''41'' (sample_store 2)) =
     Inl (CommitmentExceedsDepositError ''C1'' ''101'' ''100'')"
    using P [OF a(1,2)] n
    by (cases "fst (commit memory_store (sample_adapter ''C1'') ''t2'' ''C1'' ''41'' (sample_store 2))")
      (simp_all split: prod.splits)
  show "isl (fst (commit memory_store (sample_adapter ''C1'') ''t2'' ''C1'' ''40'' (sample_store 2))) = False"
    using P [OF a(3,4)] n(2)
    by (cases "fst (commit memory_store (sample_adapter ''C1'') ''t2'' ''C1'' ''40'' (sample_store 2))")
      (simp_all add: sample_adapter_def split: prod.splits)
qed


text \<open>C27. \<open>close\<close> on an open channel asks the adapter to settle exactly the committed total under the
  recorded deposit. When the adapter throws, or reports another amount, every channel record is what it
  was before the call, so the caller can retry; otherwise exactly this channel is marked closed, with
  the reported hash and remainder.\<close>

theorem close_settles_committed_total:
  assumes "reachable s" and "mem_getChannel i s = Some c" and "ch_status c = Status_open"
  shows "\<exists>input. ca_channelId input = i \<and> ca_cumulativeAmount input = ch_committed c \<and>
      ca_deposit input = ch_deposit c \<and> ca_network input = ch_network c \<and>
      (case (closeChannel adapter input, close memory_store adapter i s) of
         (Inl e, r, s') \<Rightarrow> r = Inl (AdapterError e) \<and> (\<forall>j. mem_getChannel j s' = mem_getChannel j s)
       | (Inr answer, r, s') \<Rightarrow>
           if ca_settledAmount answer = ch_committed c
           then r = Inr \<lparr>cr_channelId = i, cr_settlementTxHash = ca_settlementTxHash answer,
                  cr_returnedRemainder = ca_returnedRemainder answer\<rparr> \<and>
                (\<forall>j. mem_getChannel j s' = (if j = i then Some (c\<lparr>ch_status := Status_closed,
                  ch_settlementTxHash := Some (ca_settlementTxHash answer),
                  ch_returnedRemainder := Some (ca_returnedRemainder answer)\<rparr>) else mem_getChannel j s))
           else r = Inl (SettlementMismatchError i (ch_committed c) (ca_settledAmount answer)) \<and>
                (\<forall>j. mem_getChannel j s' = mem_getChannel j s))"
proof -
  define input where "input = close_input i c (mem_listCommitments i s)"
  have "ca_channelId input = i" "ca_network input = ch_network c"
    by (simp_all add: input_def close_input_def split: list.splits)
  moreover have "ca_cumulativeAmount input = ch_committed c" "ca_deposit input = ch_deposit c"
    using mem.close_input_latest [OF reachable_manager_inv [OF assms(1)], of i c] assms(2)
    by (simp_all add: input_def)
  moreover note mem.close_outcome [OF reachable_manager_inv [OF assms(1)], of i c adapter, simplified, OF assms(2,3),
      folded input_def]
  ultimately show ?thesis
    by (intro exI [of _ input]) (auto split: sum.splits prod.splits)
qed

theorem close_settles_committed_total_witness:
  "fst (close memory_store (sample_adapter ''C1'') ''C1'' (sample_store 2)) =
     Inr \<lparr>cr_channelId = ''C1'', cr_settlementTxHash = ''tx-close'', cr_returnedRemainder = ''40''\<rparr>"
proof -
  have n: "nat_toString (BigInt ''100'' - BigInt ''60'') = ''40''" by code_simp
  have a: "closeChannel (sample_adapter ''C1'') = (\<lambda>input. Inr \<lparr>ca_settlementTxHash = ''tx-close'',
      ca_settledAmount = ca_cumulativeAmount input,
      ca_returnedRemainder = nat_toString (BigInt (ca_deposit input) - BigInt (ca_cumulativeAmount input))\<rparr>)"
    by (simp add: sample_adapter_def)
  obtain r s' where run: "close memory_store (sample_adapter ''C1'') ''C1'' (sample_store 2) = (r, s')"
    by (rule prod.exhaust)
  show ?thesis
    using close_settles_committed_total [OF sample_store_reachable sample_store_value, of "sample_adapter ''C1''"] n
    by (auto simp: a run)
qed

text \<open>C39. The drawdown heuristic of \<open>shouldClose\<close> compares with the configured fraction up to its scale:
  an open channel whose committed share is at least the threshold plus one millionth is to be closed,
  one whose share is at most the threshold minus one millionth is not.\<close>

theorem drawdown_threshold_within_millionth:
  assumes "reachable s" and "mem_getChannel i s = Some c" and "ch_status c = Status_open"
    and "0 \<le> t" and "t \<le> 1"
  shows "let share = (of_nat (BigInt (ch_committed c)) / of_nat (BigInt (ch_deposit c)) :: rat) in
    (t + 1 / 1000000 \<le> share \<longrightarrow>
      shouldClose memory_store date_parse (Some \<lparr>drawdownThreshold = Some (Finite t), idleTimeoutSeconds = None\<rparr>) now i s = Inr True) \<and>
    (share \<le> t - 1 / 1000000 \<longrightarrow>
      shouldClose memory_store date_parse (Some \<lparr>drawdownThreshold = Some (Finite t), idleTimeoutSeconds = None\<rparr>) now i s = Inr False)"
proof -
  define share where "share = (of_nat (BigInt (ch_committed c)) / of_nat (BigInt (ch_deposit c)) :: rat)"
  define k where "k = Math_round (to_double (t * 1000000))"
  define a where "a = int (BigInt (ch_committed c))"
  define d where "d = int (BigInt (ch_deposit c))"
  from reachable_channel_ok [OF assms(1,2)] latest_amount_props(1)
  have ok: "AMOUNT_RE (ch_deposit c)" "0 < d" "AMOUNT_RE (ch_committed c)"
    by (auto simp: channel_ok_def d_def)
  from scaled_error [OF assms(4,5)] have k: "of_int k < t * 1000000 + 1" "t * 1000000 - 1 < of_int k"
    by (auto simp: k_def abs_less_iff)
  have run: "shouldClose memory_store date_parse (Some \<lparr>drawdownThreshold = Some (Finite t), idleTimeoutSeconds = None\<rparr>) now i s
      = Inr (d * k \<le> a * 1000000)"
    using assms(2-5) ok
    by (auto simp: shouldClose_def drawdown_reached_def SCALE_def k_def a_def d_def Let_def parse_amount_def
        split: bool.splits)
  have share: "share * of_int d = of_int a" using ok(2) by (simp add: share_def a_def d_def)
  show ?thesis unfolding run Let_def share_def [symmetric]
  proof (intro conjI impI)
    assume "t + 1 / 1000000 \<le> share"
    with k(1) have "of_int k \<le> share * 1000000" by simp
    then have "of_int k * of_int d \<le> share * 1000000 * of_int d"
      using ok(2) by (intro mult_right_mono) simp_all
    then have "(of_int (d * k) :: rat) \<le> of_int (a * 1000000)" using share by (simp add: ac_simps)
    then show "Inr (d * k \<le> a * 1000000) = Inr True" by (simp only: of_int_le_iff)
  next
    assume "share \<le> t - 1 / 1000000"
    with k(2) have "share * 1000000 < of_int k" by simp
    then have "share * 1000000 * of_int d < of_int k * of_int d"
      using ok(2) by (intro mult_strict_right_mono) simp_all
    then have "(of_int (a * 1000000) :: rat) < of_int (d * k)" using share by (simp add: ac_simps)
    then show "Inr (d * k \<le> a * 1000000) = Inr False" by (simp only: of_int_less_iff) simp
  qed
qed

theorem drawdown_threshold_within_millionth_witness:
  "shouldClose memory_store (\<lambda>_. None) (Some \<lparr>drawdownThreshold = Some (Finite (1 / 2)), idleTimeoutSeconds = None\<rparr>)
     ''t3'' ''C1'' (sample_store 2) = Inr True"
proof -
  have n: "BigInt ''60'' = 60" "BigInt ''100'' = 100" by code_simp+
  show ?thesis
    using drawdown_threshold_within_millionth [OF sample_store_reachable sample_store_value, of "1 / 2"] n by simp
qed

text \<open>A threshold below half a millionth is rounded to zero, so a channel with nothing committed is
  to be closed although its committed share, 0, is below the configured fraction.\<close>

theorem tiny_threshold_closes_unused_channel:
  "shouldClose memory_store date_parse (Some \<lparr>drawdownThreshold = Some (Finite (1 / 2 ^ 24)), idleTimeoutSeconds = None\<rparr>)
     now ''C1'' (sample_store 0) = Inr True \<and>
   map_option ch_committed (mem_getChannel ''C1'' (sample_store 0)) = Some ''0''"
proof -
  have c: "mem_getChannel ''C1'' (sample_store 0) = Some \<lparr>ch_id = ''C1'', ch_counterparty = ''GPAYEE'', ch_asset = ''USDC'',
     ch_deposit = ''100'', ch_committed = ''0'', ch_sequence = -1, ch_status = Status_open, ch_network = Testnet,
     ch_openTxHash = ''tx-open'', ch_openedAt = ''t0'', ch_lastCommitAt = None, ch_settlementTxHash = None,
     ch_returnedRemainder = None\<rparr>" by code_simp
  have "\<bar>of_int (Math_round (to_double ((1 / 2 ^ 24) * 1000000))) - (1 / 2 ^ 24) * 1000000\<bar> < (1 :: rat)"
    by (rule scaled_error) simp_all
  have k: "Math_round (to_double ((1 / 2 ^ 24) * 1000000)) = 0" by code_simp
  have n: "AMOUNT_RE ''100''" "0 < BigInt ''100''" by code_simp+
  show ?thesis using k n
    by (simp add: c shouldClose_def drawdown_reached_def SCALE_def parse_amount_def del: BigInt_single)
qed

end
