(* ===== verification/ChannelSteps.thy ===== *)
theory ChannelSteps
  imports ChannelProofs
begin

text \<open>
  The manager's \<open>commit\<close> and \<open>close\<close> as the event loop runs them: an async function runs until its next
  \<open>await\<close>, and other calls may run before it resumes. A suspended call is a value of \<open>commit_call\<close> or
  \<open>close_call\<close>, one constructor per \<open>await\<close> of the source, and \<open>commit_resume\<close> and \<open>close_resume\<close> run
  one segment. A store operation takes effect when it is called; the answer of the adapter is an
  argument of the segment that receives it, so it may come arbitrarily late.

  Uninterrupted, the segments are \<open>commit\<close> and \<open>close\<close> of \<open>Channels\<close>. Interleaved, the amounts stay
  within the deposit, but neither the sequence numbers nor the single settlement survive.
\<close>

subsection \<open>Segments\<close>

datatype close_call =
    Close_called
  | Close_awaiting_channel "channel option"
  | Close_awaiting_stream channel "commitment list"
  | Close_awaiting_mark close_adapter_input
  | Close_awaiting_adapter close_adapter_input
  | Close_awaiting_update "close_result channel_result"
  | Close_settled "close_result channel_result"

definition close_resume ::
  "'s store_ops \<Rightarrow> close_adapter_result result \<Rightarrow> string \<Rightarrow> close_call \<Rightarrow> 's \<Rightarrow> close_call \<times> 's" where
  "close_resume S answer channelId call s =
     (case call of
        Close_called \<Rightarrow> (Close_awaiting_channel (getChannel S channelId s), s)
      | Close_awaiting_channel found \<Rightarrow>
          (case found of
             None \<Rightarrow> (Close_settled (Inl (ChannelNotFoundError channelId)), s)
           | Some current \<Rightarrow>
               if ch_status current \<noteq> Status_open
               then (Close_settled (Inl (ChannelAlreadyClosedError channelId (ch_status current))), s)
               else (Close_awaiting_stream current (listCommitments S channelId s), s))
      | Close_awaiting_stream current stream \<Rightarrow>
          (Close_awaiting_mark (close_input channelId current stream), set_status S channelId Status_closing s)
      | Close_awaiting_mark input \<Rightarrow> (Close_awaiting_adapter input, s)
      | Close_awaiting_adapter input \<Rightarrow>
          (case settle_close S channelId (ca_cumulativeAmount input) answer s of
             (r, s1) \<Rightarrow> (Close_awaiting_update r, s1))
      | Close_awaiting_update r \<Rightarrow> (Close_settled r, s)
      | Close_settled r \<Rightarrow> (Close_settled r, s))"

datatype commit_call =
    Commit_called
  | Commit_awaiting_channel nat "channel option"
  | Commit_awaiting_signature nat int stellar_network
  | Commit_awaiting_append commitment
  | Commit_awaiting_update commitment
  | Commit_settled "commitment channel_result"

definition commit_resume ::
  "'s store_ops \<Rightarrow> string result \<Rightarrow> string \<Rightarrow> string \<Rightarrow> string \<Rightarrow> commit_call \<Rightarrow> 's \<Rightarrow> commit_call \<times> 's" where
  "commit_resume S answer now channelId amount call s =
     (case call of
        Commit_called \<Rightarrow>
          (case parse_amount amount ''amount'' of
             Inl e \<Rightarrow> (Commit_settled (Inl e), s)
           | Inr delta \<Rightarrow>
               if delta = 0 then (Commit_settled (Inl (InvalidAmountError amount ''amount'')), s)
               else (Commit_awaiting_channel delta (getChannel S channelId s), s))
      | Commit_awaiting_channel delta found \<Rightarrow>
          (case found of
             None \<Rightarrow> (Commit_settled (Inl (ChannelNotFoundError channelId)), s)
           | Some current \<Rightarrow>
               if ch_status current \<noteq> Status_open
               then (Commit_settled (Inl (ChannelNotOpenError channelId (ch_status current))), s)
               else
                 (case parse_amount (ch_committed current) ''committed'' of
                    Inl e \<Rightarrow> (Commit_settled (Inl e), s)
                  | Inr committed \<Rightarrow>
                      (case parse_amount (ch_deposit current) ''deposit'' of
                         Inl e \<Rightarrow> (Commit_settled (Inl e), s)
                       | Inr deposit \<Rightarrow>
                           let nextCumulative = committed + delta
                           in if nextCumulative > deposit
                              then (Commit_settled (Inl (CommitmentExceedsDepositError channelId
                                      (nat_toString nextCumulative) (ch_deposit current))), s)
                              else (Commit_awaiting_signature nextCumulative (ch_sequence current + 1)
                                      (ch_network current), s))))
      | Commit_awaiting_signature nextCumulative nextSequence network \<Rightarrow>
          (case answer of
             Inl e \<Rightarrow> (Commit_settled (Inl (AdapterError e)), s)
           | Inr blob \<Rightarrow>
               let cm = \<lparr>cm_channelId = channelId, cm_sequence = nextSequence,
                     cm_cumulativeAmount = nat_toString nextCumulative, cm_commitment = blob\<rparr>
               in (Commit_awaiting_append cm, appendCommitment S cm s))
      | Commit_awaiting_append cm \<Rightarrow>
          (Commit_awaiting_update cm, snd (updateChannel S channelId
             (no_patch\<lparr>patch_committed := Some (cm_cumulativeAmount cm), patch_sequence := Some (cm_sequence cm),
               patch_lastCommitAt := Some now\<rparr>) s))
      | Commit_awaiting_update cm \<Rightarrow> (Commit_settled (Inr cm), s)
      | Commit_settled r \<Rightarrow> (Commit_settled r, s))"

subsection \<open>Without interruption\<close>

fun close_segments ::
  "nat \<Rightarrow> 's store_ops \<Rightarrow> channel_adapter \<Rightarrow> string \<Rightarrow> close_call \<times> 's \<Rightarrow> close_call \<times> 's" where
  "close_segments 0 S adapter i (call, s) = (call, s)"
| "close_segments (Suc n) S adapter i (call, s) =
     close_segments n S adapter i
       (close_resume S (case call of Close_awaiting_adapter input \<Rightarrow> closeChannel adapter input
                          | _ \<Rightarrow> Inl (PlatformError [] [])) i call s)"

fun commit_segments ::
  "nat \<Rightarrow> 's store_ops \<Rightarrow> channel_adapter \<Rightarrow> string \<Rightarrow> string \<Rightarrow> string \<Rightarrow> commit_call \<times> 's \<Rightarrow> commit_call \<times> 's" where
  "commit_segments 0 S adapter now i amount (call, s) = (call, s)"
| "commit_segments (Suc n) S adapter now i amount (call, s) =
     commit_segments n S adapter now i amount
       (commit_resume S (case call of Commit_awaiting_signature n _ network \<Rightarrow>
                             signCommitment adapter i (nat_toString n) network
                           | _ \<Rightarrow> Inl (PlatformError [] [])) now i amount call s)"

lemma close_uninterrupted:
  "close_segments 6 S adapter i (Close_called, s) =
     map_prod Close_settled id (close S adapter i s)"
  by (auto simp: numeral_eq_Suc close_resume_def close_def Let_def split: option.splits prod.splits)

lemma commit_uninterrupted:
  "commit_segments 5 S adapter now i amount (Commit_called, s) =
     map_prod Commit_settled id (commit S adapter now i amount s)"
  by (auto simp: numeral_eq_Suc commit_resume_def commit_def Let_def split: option.splits sum.splits)


subsection \<open>Any interleaving\<close>

datatype call = Commit_call (call_channel: string) string commit_call | Close_call (call_channel: string) close_call

inductive pool_step :: "'s store_ops \<Rightarrow> 's \<times> call list \<Rightarrow> 's \<times> call list \<Rightarrow> bool" for S :: "'s store_ops" where
  start_commit: "pool_step S (s, calls) (s, calls @ [Commit_call i amount Commit_called])"
| start_close: "pool_step S (s, calls) (s, calls @ [Close_call i Close_called])"
| run_commit: "k < length calls \<Longrightarrow> calls ! k = Commit_call i amount call \<Longrightarrow>
    commit_resume S answer now i amount call s = (call', s') \<Longrightarrow>
    pool_step S (s, calls) (s', calls[k := Commit_call i amount call'])"
| run_close: "k < length calls \<Longrightarrow> calls ! k = Close_call i ccall \<Longrightarrow>
    close_resume S canswer i ccall s = (ccall', s') \<Longrightarrow>
    pool_step S (s, calls) (s', calls[k := Close_call i ccall'])"

inductive_cases pool_step_cases: "pool_step S (s, calls) (s', calls')"

text \<open>What an interleaving cannot break: \<open>dep\<close> gives the deposits, which no call changes.\<close>

definition total_ok :: "(string \<Rightarrow> string option) \<Rightarrow> string \<Rightarrow> string \<Rightarrow> bool" where
  "total_ok dep i x \<longleftrightarrow> (\<exists>d. dep i = Some d \<and> AMOUNT_RE x \<and> BigInt x \<le> BigInt d)"

fun commit_call_ok :: "(string \<Rightarrow> string option) \<Rightarrow> string \<Rightarrow> commit_call \<Rightarrow> bool" where
  "commit_call_ok dep i (Commit_awaiting_channel delta (Some c)) \<longleftrightarrow> dep i = Some (ch_deposit c)"
| "commit_call_ok dep i (Commit_awaiting_signature n q network) \<longleftrightarrow> total_ok dep i (nat_toString n)"
| "commit_call_ok dep i (Commit_awaiting_append cm) \<longleftrightarrow> total_ok dep i (cm_cumulativeAmount cm)"
| "commit_call_ok dep i _ \<longleftrightarrow> True"

fun call_ok :: "(string \<Rightarrow> string option) \<Rightarrow> call \<Rightarrow> bool" where
  "call_ok dep (Commit_call i amount call) \<longleftrightarrow> commit_call_ok dep i call"
| "call_ok dep (Close_call i ccall) \<longleftrightarrow> True"

context commitment_store
begin

definition store_ok :: "(string \<Rightarrow> string option) \<Rightarrow> 's \<Rightarrow> bool" where
  "store_ok dep s \<longleftrightarrow> (\<forall>i. map_option ch_deposit (getChannel S i s) = dep i) \<and>
     (\<forall>i c. getChannel S i s = Some c \<longrightarrow> total_ok dep i (ch_committed c)) \<and>
     (\<forall>i m. m \<in> set (stream_of i s) \<longrightarrow> total_ok dep i (cm_cumulativeAmount m))"

lemma store_ok_update:
  assumes "store_ok dep s" "\<And>x. patch_committed p = Some x \<Longrightarrow> total_ok dep i x"
  shows "store_ok dep (snd (updateChannel S i p s))"
proof -
  have "total_ok dep j (ch_committed c)" if "getChannel S j (snd (updateChannel S i p s)) = Some c" for j c
    using that assms by (cases "patch_committed p") (auto simp: store_ok_def store_laws split: if_splits)
  moreover have "map_option ch_deposit (getChannel S j (snd (updateChannel S i p s))) = dep j" for j
  proof -
    have "map_option ch_deposit (getChannel S j s) = dep j" using assms(1) by (simp add: store_ok_def)
    then show ?thesis by (auto simp: get_update option.map_comp comp_def)
  qed
  ultimately show ?thesis
    using assms(1) by (auto simp: store_ok_def stream_update)
qed

lemma store_ok_append:
  "store_ok dep s \<Longrightarrow> total_ok dep (cm_channelId m) (cm_cumulativeAmount m) \<Longrightarrow> store_ok dep (appendCommitment S m s)"
  by (auto simp: store_ok_def store_laws)

lemma commit_resume_ok:
  assumes "store_ok dep s" "commit_call_ok dep i call"
    and "commit_resume S answer now i amount call s = (call', s')"
  shows "store_ok dep s' \<and> commit_call_ok dep i call'"
proof (cases call)
  case Commit_called
  with assms(1) assms(3) [symmetric] show ?thesis
    by (cases "getChannel S i s")
      (auto simp: commit_resume_def store_ok_def split: sum.splits if_splits dest: spec [of _ i])
next
  case (Commit_awaiting_channel delta found)
  with assms assms(3) [symmetric] show ?thesis
    by (cases found) (auto simp: commit_resume_def total_ok_def Let_def split: sum.splits if_splits)
next
  case (Commit_awaiting_signature n q network)
  with assms assms(3) [symmetric] show ?thesis
    by (auto simp: commit_resume_def store_ok_append Let_def split: sum.splits)
next
  case (Commit_awaiting_append cm)
  with assms assms(3) [symmetric] show ?thesis
    by (auto simp: commit_resume_def intro!: store_ok_update)
qed (use assms assms(3) [symmetric] in \<open>auto simp: commit_resume_def\<close>)

lemma close_resume_ok:
  assumes "store_ok dep s" "close_resume S answer i call s = (call', s')"
  shows "store_ok dep s'"
  using assms(1) assms(2) [symmetric]
  by (cases call)
    (auto simp: close_resume_def settle_close_def set_status_def split: option.splits if_splits sum.splits
      intro!: store_ok_update)

lemma pool_step_ok:
  assumes "pool_step S p q" "store_ok dep (fst p)" "list_all (call_ok dep) (snd p)"
  shows "store_ok dep (fst q) \<and> list_all (call_ok dep) (snd q)"
  using assms
proof (induction rule: pool_step.induct)
  case (run_commit k calls i amount call answer now s call' s')
  then have "commit_call_ok dep i call"
    by (metis call_ok.simps(1) list_all_length snd_conv)
  from commit_resume_ok [OF _ this run_commit.hyps(3)] run_commit show ?case
    by (auto simp: list_all_length nth_list_update)
next
  case (run_close k calls i ccall canswer s ccall' s')
  with close_resume_ok [OF _ run_close.hyps(3)] show ?case
    by (auto simp: list_all_length nth_list_update)
qed simp_all

lemma pool_run_ok:
  assumes "(pool_step S)\<^sup>*\<^sup>* p q" "store_ok dep (fst p)" "list_all (call_ok dep) (snd p)"
  shows "store_ok dep (fst q) \<and> list_all (call_ok dep) (snd q)"
  using assms by (induction rule: rtranclp_induct) (auto dest: pool_step_ok)

lemma inv_store_ok:
  assumes "manager_inv s"
  shows "store_ok (\<lambda>i. map_option ch_deposit (getChannel S i s)) s"
proof -
  have "total_ok (\<lambda>i. map_option ch_deposit (getChannel S i s)) i (cm_cumulativeAmount m)" if "m \<in> set (stream_of i s)" for i m
  proof (cases "getChannel S i s")
    case None
    with inv_None [OF assms] that show ?thesis by simp
  next
    case (Some c)
    with inv_Some [OF assms Some] that show ?thesis
      by (auto simp: total_ok_def channel_ok_def stream_ok_def list_all_iff amount_of_def canonical_amount_def)
  qed
  moreover have "total_ok (\<lambda>i. map_option ch_deposit (getChannel S i s)) i (ch_committed c)"
    if "getChannel S i s = Some c" for i c
    using inv_Some [OF assms that] that latest_amount_props by (auto simp: total_ok_def channel_ok_def)
  ultimately show ?thesis by (simp add: store_ok_def)
qed

end

subsection \<open>Properties\<close>

text \<open>C10. Whatever commits and closes overlap, in whatever order the event loop resumes them and
  whatever the adapters answer, no channel's committed total and no commitment of its stream ever
  exceeds the channel's deposit.\<close>

theorem interleaved_calls_stay_within_deposit:
  assumes "reachable s" and "(pool_step memory_store)\<^sup>*\<^sup>* (s, []) (s', calls)"
    and "mem_getChannel i s' = Some c"
  shows "BigInt (ch_committed c) \<le> BigInt (ch_deposit c) \<and>
    list_all (\<lambda>m. amount_of m \<le> BigInt (ch_deposit c)) (mem_listCommitments i s')"
proof -
  define dep where "dep = (\<lambda>i. map_option ch_deposit (mem_getChannel i s))"
  have "mem.store_ok dep s'"
    using mem.pool_run_ok [OF assms(2), of dep] mem.inv_store_ok [OF reachable_manager_inv [OF assms(1)]]
    by (simp add: dep_def)
  with assms(3) show ?thesis
    by (auto simp: mem.store_ok_def total_ok_def list_all_iff mem_listCommitments_def amount_of_def)
      (metis option.inject option.map(2))+
qed

text \<open>The schedules: each element names the call that runs its next segment.\<close>

fun run_schedule :: "nat list \<Rightarrow> mem_store \<times> call list \<Rightarrow> mem_store \<times> call list" where
  "run_schedule [] p = p"
| "run_schedule (k # ks) (s, calls) =
     run_schedule ks
       (case calls ! k of
          Commit_call i amount call \<Rightarrow>
            (case commit_resume memory_store (Inr ''sig'') ''t2'' i amount call s of
               (call', s') \<Rightarrow> (s', calls[k := Commit_call i amount call']))
        | Close_call i call \<Rightarrow>
            (case close_resume memory_store (Inl (PlatformError ''Error'' ''timeout'')) i call s of
               (call', s') \<Rightarrow> (s', calls[k := Close_call i call'])))"

lemma run_schedule_pool:
  "list_all (\<lambda>k. k < length calls) ks \<Longrightarrow> (pool_step memory_store)\<^sup>*\<^sup>* (s, calls) (run_schedule ks (s, calls))"
proof (induction ks arbitrary: s calls)
  case (Cons k ks)
  then have k: "k < length calls" by simp
  show ?case
  proof (cases "calls ! k")
    case (Commit_call i amount call)
    obtain call' s' where r: "commit_resume memory_store (Inr ''sig'') ''t2'' i amount call s = (call', s')"
      by (rule prod.exhaust)
    from run_commit [OF k Commit_call r] Cons.IH [of "calls[k := Commit_call i amount call']" s'] Cons.prems
    show ?thesis by (simp add: Commit_call r converse_rtranclp_into_rtranclp)
  next
    case (Close_call i call)
    obtain call' s' where r: "close_resume memory_store (Inl (PlatformError ''Error'' ''timeout'')) i call s = (call', s')"
      by (rule prod.exhaust)
    from run_close [OF k Close_call r] Cons.IH [of "calls[k := Close_call i call']" s'] Cons.prems
    show ?thesis by (simp add: Close_call r converse_rtranclp_into_rtranclp)
  qed
qed simp


theorem interleaved_calls_stay_within_deposit_witness:
  "let s = fst (run_schedule [0, 1, 0, 1, 0, 1, 0, 1] (sample_store 0,
       [Commit_call ''C1'' ''60'' Commit_called, Commit_call ''C1'' ''70'' Commit_called]))
   in \<exists>c. mem_getChannel ''C1'' s = Some c \<and> BigInt (ch_committed c) \<le> BigInt (ch_deposit c)"
proof -
  let ?calls = "[Commit_call ''C1'' ''60'' Commit_called, Commit_call ''C1'' ''70'' Commit_called]"
  define p where "p = run_schedule [0, 1, 0, 1, 0, 1, 0, 1] (sample_store 0, ?calls)"
  have "(pool_step memory_store)\<^sup>*\<^sup>* (sample_store 0, []) (sample_store 0, ?calls)"
    using start_commit [of memory_store "sample_store 0" "[]" "''C1''" "''60''"]
      start_commit [of memory_store "sample_store 0" "[Commit_call ''C1'' ''60'' Commit_called]" "''C1''" "''70''"]
    by simp
  moreover have "(pool_step memory_store)\<^sup>*\<^sup>* (sample_store 0, ?calls) p"
    unfolding p_def by (rule run_schedule_pool) simp
  ultimately have run: "(pool_step memory_store)\<^sup>*\<^sup>* (sample_store 0, []) (fst p, snd p)" by simp
  have "mem_getChannel ''C1'' (fst p) \<noteq> None" unfolding p_def by code_simp
  then obtain c where c: "mem_getChannel ''C1'' (fst p) = Some c" by auto
  from interleaved_calls_stay_within_deposit [OF sample_store_reachable run c] c
  show ?thesis by (auto simp: p_def)
qed

text \<open>Two overlapping calls of \<open>close\<close> on one open channel can both reach the adapter with the same
  settlement: each reads the status before the other marks the channel as closing.\<close>

theorem overlapping_closes_both_settle:
  "\<exists>input. snd (run_schedule [0, 1, 0, 1, 0, 1, 0, 1] (sample_store 2,
       [Close_call ''C1'' Close_called, Close_call ''C1'' Close_called])) =
     [Close_call ''C1'' (Close_awaiting_adapter input), Close_call ''C1'' (Close_awaiting_adapter input)] \<and>
     ca_cumulativeAmount input = ''60''"
  by (rule exI [of _ "\<lparr>ca_channelId = ''C1'', ca_network = Testnet, ca_cumulativeAmount = ''60'',
        ca_commitment = ''sig-60'', ca_deposit = ''100''\<rparr>"]) code_simp

text \<open>Two overlapping calls of \<open>commit\<close> on one channel can both succeed with the same sequence number:
  the stream then holds sequence 0 twice, and of the amounts 60 and 70 only the last counts, although
  their sum exceeds the deposit of 100.\<close>

theorem overlapping_commits_share_sequence:
  "let (s, calls) = run_schedule [0, 1, 0, 1, 0, 1, 0, 1, 0, 1] (sample_store 0,
       [Commit_call ''C1'' ''60'' Commit_called, Commit_call ''C1'' ''70'' Commit_called])
   in map cm_sequence (mem_listCommitments ''C1'' s) = [0, 0] \<and>
      map cm_cumulativeAmount (mem_listCommitments ''C1'' s) = [''60'', ''70''] \<and>
      map_option ch_committed (mem_getChannel ''C1'' s) = Some ''70'' \<and>
      map_option ch_sequence (mem_getChannel ''C1'' s) = Some 0 \<and>
      list_all (\<lambda>c. case c of Commit_call i amount (Commit_settled (Inr m)) \<Rightarrow> True | _ \<Rightarrow> False) calls"
  by code_simp

text \<open>C36. Run without interruption, the segments are the operations: six segments of \<open>close\<close> and five of
  \<open>commit\<close>, with the adapter's answers to the requests they send, have the result and the effect of
  \<open>close\<close> and \<open>commit\<close>.\<close>

theorem segments_implement_calls:
  "close_segments 6 S adapter i (Close_called, s) = map_prod Close_settled id (close S adapter i s) \<and>
   commit_segments 5 S adapter now i amount (Commit_called, s) =
     map_prod Commit_settled id (commit S adapter now i amount s)"
  by (simp add: close_uninterrupted commit_uninterrupted)

end
