(* ===== verification/Encoding.thy ===== *)
theory Encoding
  imports Domain
begin

text \<open>
  The byte helpers of \<open>packages/core/src/encoding.ts\<close>. A byte is a word of eight bits; the platform's
  \<open>TextEncoder\<close>, \<open>btoa\<close> and \<open>atob\<close> are written out (the forgiving decoder strips white space and up to
  two padding signs, rejects other lengths and signs, and drops left-over bits). Strings hold code
  units below 256, so the encoder needs one or two bytes per unit.

  The lemmas show that the base64url form of any bytes decodes to those bytes, that it uses only the
  URL-safe alphabet, and that the UTF-8 form determines the text.
\<close>

type_synonym byte = "8 word"

subsection \<open>Text to bytes\<close>

definition utf8_unit :: "char \<Rightarrow> byte list" where
  "utf8_unit c =
     (let n = (of_char c :: nat)
      in if n < 128 then [word_of_nat n] else [word_of_nat (192 + n div 64), word_of_nat (128 + n mod 64)])"

definition utf8Bytes :: "string \<Rightarrow> byte list" where
  "utf8Bytes txt0 = concat (map utf8_unit txt0)"

subsection \<open>btoa and atob\<close>

definition b64_char :: "nat \<Rightarrow> char" where
  "b64_char n =
     (if n < 26 then char_of (n + 65) else if n < 52 then char_of (n + 71)
      else if n < 62 then char_of (n - 4) else if n = 62 then CHR ''+'' else CHR ''/'')"

definition b64_val :: "char \<Rightarrow> nat option" where
  "b64_val c =
     (let n = (of_char c :: nat)
      in if 65 \<le> n \<and> n \<le> 90 then Some (n - 65) else if 97 \<le> n \<and> n \<le> 122 then Some (n - 71)
         else if 48 \<le> n \<and> n \<le> 57 then Some (n + 4) else if n = 43 then Some 62
         else if n = 47 then Some 63 else None)"

fun sextets :: "nat list \<Rightarrow> nat list" where
  "sextets [] = []"
| "sextets [a] = [a div 4, (a mod 4) * 16]"
| "sextets [a, b] = [a div 4, (a mod 4) * 16 + b div 16, (b mod 16) * 4]"
| "sextets (a # b # c # r) =
     [a div 4, (a mod 4) * 16 + b div 16, (b mod 16) * 4 + c div 64, c mod 64] @ sextets r"

fun octets :: "nat list \<Rightarrow> nat list" where
  "octets [] = []"
| "octets [p] = []"
| "octets [p, q] = [p * 4 + q div 16]"
| "octets [p, q, r] = [p * 4 + q div 16, (q mod 16) * 16 + r div 4]"
| "octets (p # q # r # s # t) = [p * 4 + q div 16, (q mod 16) * 16 + r div 4, (r mod 4) * 64 + s] @ octets t"

definition pad4 :: "string \<Rightarrow> string" where
  "pad4 s = s @ replicate ((4 - length s mod 4) mod 4) (CHR ''='')"

definition btoa :: "string \<Rightarrow> string" where
  "btoa binary = pad4 (map b64_char (sextets (map of_char binary)))"

definition is_ascii_space :: "char \<Rightarrow> bool" where
  "is_ascii_space c \<longleftrightarrow> (of_char c :: nat) \<in> {9, 10, 12, 13, 32}"

definition strip_padding :: "string \<Rightarrow> string" where
  "strip_padding s =
     (if length s mod 4 = 0 then
        (if take 2 (rev s) = ''=='' then rev (drop 2 (rev s))
         else if take 1 (rev s) = ''='' then rev (drop 1 (rev s)) else s)
      else s)"

definition atob :: "string \<Rightarrow> string result" where
  "atob txt0 =
     (let s = strip_padding (filter (\<lambda>c. \<not> is_ascii_space c) txt0)
      in if length s mod 4 = 1 \<or> \<not> list_all (\<lambda>c. b64_val c \<noteq> None) s
         then Inl (PlatformError ''InvalidCharacterError'' ''The string to be decoded is not correctly encoded.'')
         else Inr (map char_of (octets (map (the \<circ> b64_val) s))))"

subsection \<open>base64url\<close>

definition replace_char :: "char \<Rightarrow> char \<Rightarrow> string \<Rightarrow> string" where
  "replace_char a b s = map (\<lambda>c. if c = a then b else c) s"

definition bytesToBase64Url :: "byte list \<Rightarrow> string" where
  "bytesToBase64Url bytes =
     (let binary = map (\<lambda>b. char_of (unat b)) bytes;
          s = replace_char (CHR ''/'') (CHR ''_'') (replace_char (CHR ''+'') (CHR ''-'') (btoa binary))
      in rev (dropWhile (\<lambda>c. c = CHR ''='') (rev s)))"

definition base64UrlToBytes :: "string \<Rightarrow> byte list result" where
  "base64UrlToBytes txt0 =
     (let base64 = replace_char (CHR ''_'') (CHR ''/'') (replace_char (CHR ''-'') (CHR ''+'') txt0)
      in map_sum id (map (\<lambda>c. word_of_nat (of_char c))) (atob (pad4 base64)))"

subsection \<open>The UTF-8 form determines the text\<close>

lemma unat_utf8_unit:
  "map unat (utf8_unit c) =
     (let n = (of_char c :: nat) in if n < 128 then [n] else [192 + n div 64, 128 + n mod 64])"
proof -
  have c: "(of_char c :: nat) < 256" by simp
  have lt: "unat (word_of_nat n :: byte) = n" if "n < 256" for n using that by (simp add: unat_of_nat)
  have b: "192 + of_char c div 64 < (256::nat)" "128 + of_char c mod 64 < (256::nat)" using c by linarith+
  show ?thesis by (simp only: utf8_unit_def Let_def list.map if_distrib [of "map unat"] lt [OF c] lt [OF b(1)] lt [OF b(2)])
qed

lemma utf8_unit_append:
  assumes "utf8_unit c @ x = utf8_unit d @ y" shows "c = d \<and> x = y"
proof -
  have c: "(of_char c :: nat) < 256" "(of_char d :: nat) < 256" by simp_all
  from arg_cong [OF assms, of "map unat"]
  have m: "map unat (utf8_unit c) @ map unat x = map unat (utf8_unit d) @ map unat y" by simp
  have "(of_char c :: nat) = of_char d"
  proof (cases "(of_char c :: nat) < 128"; cases "(of_char d :: nat) < 128")
    assume "\<not> (of_char c :: nat) < 128" "\<not> (of_char d :: nat) < 128"
    with m have "of_char c div 64 = (of_char d div 64 :: nat)" "of_char c mod 64 = (of_char d mod 64 :: nat)"
      by (simp_all add: unat_utf8_unit Let_def)
    then show ?thesis by (metis div_mult_mod_eq)
  qed (use m in \<open>simp_all add: unat_utf8_unit Let_def\<close>)
  then have "c = d" by simp
  with assms show ?thesis by simp
qed

lemma utf8_unit_not_Nil [simp]: "utf8_unit c \<noteq> []"
  by (simp add: utf8_unit_def Let_def)

lemma utf8Bytes_inject [codec_simps]: "utf8Bytes s = utf8Bytes t \<longleftrightarrow> s = t"
proof
  show "utf8Bytes s = utf8Bytes t \<Longrightarrow> s = t"
  proof (induction s arbitrary: t)
    case Nil
    then show ?case by (cases t) (simp_all add: utf8Bytes_def)
  next
    case (Cons c s)
    then obtain d t' where t: "t = d # t'" by (cases t) (simp_all add: utf8Bytes_def)
    with Cons.prems utf8_unit_append [of c _ d] have "c = d" "utf8Bytes s = utf8Bytes t'"
      by (auto simp: utf8Bytes_def)
    with Cons.IH t show ?case by simp
  qed
qed simp

subsection \<open>The base64url round trip\<close>

lemma octet_ends:
  "(a div 4) * 4 + ((a mod 4) * 16 + b div 16) div 16 = (a::nat)" "((a mod 4) * 16 + b div 16) mod 16 = b div 16"
  "((b mod 16) * 4 + c div 64) div 4 = b mod 16" "((b mod 16) * 4 + c div 64) mod 4 = c div 64"
  "(a mod 4) * 16 div 16 = a mod 4"
  if "b < 256" "c < 256" for a b c :: nat
proof -
  have "b div 16 < 16" "c div 64 < 4" using that by linarith+
  then show "(a div 4) * 4 + ((a mod 4) * 16 + b div 16) div 16 = a" "((a mod 4) * 16 + b div 16) mod 16 = b div 16"
    "((b mod 16) * 4 + c div 64) div 4 = b mod 16" "((b mod 16) * 4 + c div 64) mod 4 = c div 64"
    "(a mod 4) * 16 div 16 = a mod 4"
    by (simp_all add: div_add1_eq)
qed

lemma octets_sextets: "list_all (\<lambda>a. a < 256) bs \<Longrightarrow> octets (sextets bs) = bs"
proof (induction bs rule: sextets.induct)
  case (2 a)
  then show ?case by (simp add: div_mult_mod_eq)
next
  case (3 a b)
  then have b: "b < 256" by simp
  have "(b mod 16) * 4 div 4 = b mod 16" by simp
  then show ?case
    by (simp only: sextets.simps octets.simps octet_ends(1,2) [OF b, of 0] div_mult_mod_eq zero_less_numeral)
next
  case (4 a b c r)
  then have b: "b < 256" "c < 256" and r: "octets (sextets r) = r" by simp_all
  show ?case
    by (simp only: sextets.simps octets.simps append.simps octet_ends(1-4) [OF b] div_mult_mod_eq r)
qed simp

lemma sextets_less: "list_all (\<lambda>a. a < 256) bs \<Longrightarrow> list_all (\<lambda>s. s < 64) (sextets bs)"
proof (induction bs rule: sextets.induct)
  case (2 a)
  then show ?case by (auto simp: less_mult_imp_div_less)
next
  case (3 a b)
  then have "b div 16 < 16" "a mod 4 < 4" "b mod 16 < 16" "a div 4 < 64" by auto
  then show ?case by simp
next
  case (4 a b c r)
  then have "b div 16 < 16" "a mod 4 < 4" "b mod 16 < 16" "a div 4 < 64" "c div 64 < 4" by auto
  then have "(a mod 4) * 16 + b div 16 < 64" "(b mod 16) * 4 + c div 64 < 64" by linarith+
  with 4 \<open>a div 4 < 64\<close> show ?case by simp
qed simp

lemma sextets_length: "length (sextets bs) mod 4 \<noteq> 1"
  by (induction bs rule: sextets.induct) simp_all


lemma unat_byte [simp]: "unat (b :: byte) < 256"
  using unsigned_less [of b] by simp

lemma b64_val_char [simp]: "n < 64 \<Longrightarrow> b64_val (b64_char n) = Some n"
  by (auto simp: b64_val_def b64_char_def Let_def)

definition is_base64 :: "char \<Rightarrow> bool" where
  "is_base64 c \<longleftrightarrow> b64_val c \<noteq> None"

lemma b64_char_alphabet: "n < 64 \<Longrightarrow> is_base64 (b64_char n)"
  by (simp add: is_base64_def)

lemma not_alphabet: "is_base64 c \<Longrightarrow> c \<noteq> CHR ''='' \<and> c \<noteq> CHR ''-'' \<and> c \<noteq> CHR ''_'' \<and> \<not> is_ascii_space c"
  by (auto simp: is_base64_def b64_val_def is_ascii_space_def Let_def split: if_splits)

lemma replace_back:
  assumes "list_all is_base64 s"
  shows "replace_char (CHR ''_'') (CHR ''/'') (replace_char (CHR ''-'') (CHR ''+'')
           (replace_char (CHR ''/'') (CHR ''_'') (replace_char (CHR ''+'') (CHR ''-'') s))) = s"
  using assms by (induction s) (auto simp: replace_char_def dest: not_alphabet)

lemma replace_pad: "replace_char a b (s @ replicate n c) = replace_char a b s @ replicate n (if c = a then b else c)"
  by (simp add: replace_char_def)

lemma url_no_pad:
  assumes "list_all is_base64 s"
  shows "list_all (\<lambda>c. c \<noteq> CHR ''='') (replace_char (CHR ''/'') (CHR ''_'') (replace_char (CHR ''+'') (CHR ''-'') s))"
  using assms by (induction s) (auto simp: replace_char_def dest: not_alphabet)

lemma dropWhile_replicate: "dropWhile (\<lambda>c. c = x) (replicate n x @ ys) = dropWhile (\<lambda>c. c = x) ys"
  by (induction n) simp_all

lemma dropWhile_rev_replicate:
  "list_all (\<lambda>c. c \<noteq> x) s \<Longrightarrow> rev (dropWhile (\<lambda>c. c = x) (rev (s @ replicate n x))) = s"
  by (cases s rule: rev_cases) (simp_all only: rev_append rev_replicate dropWhile_replicate, simp_all)

lemma bytesToBase64Url_eq:
  "bytesToBase64Url bytes =
     replace_char (CHR ''/'') (CHR ''_'') (replace_char (CHR ''+'') (CHR ''-'') (map b64_char (sextets (map unat bytes))))"
proof -
  have u: "map of_char (map (\<lambda>b. char_of (unat b)) bytes) = map unat bytes"
    by (simp add: comp_def unat_byte)
  have "list_all (\<lambda>a. a < 256) (map unat bytes)" by (simp add: list_all_iff unat_byte)
  from sextets_less [OF this] have a: "list_all is_base64 (map b64_char (sextets (map unat bytes)))"
    by (auto simp: list_all_iff b64_char_alphabet)
  show ?thesis
    by (simp only: bytesToBase64Url_def Let_def btoa_def pad4_def u replace_pad)
      (simp only: dropWhile_rev_replicate [OF url_no_pad [OF a]] simp_thms if_False char.inject)
qed

lemma strip_pad4:
  assumes "list_all is_base64 s" "length s mod 4 \<noteq> 1"
  shows "strip_padding (pad4 s) = s"
proof -
  have ne: "s = [] \<or> last s \<noteq> CHR ''=''" using assms(1) not_alphabet by (cases s rule: rev_cases) auto
  have "length s mod 4 < 4" by simp
  with assms(2) consider "length s mod 4 = 0" | "length s mod 4 = 2" | "length s mod 4 = 3" by linarith
  then show ?thesis
  proof cases
    case 1
    have "take 1 (rev s) \<noteq> ''=''" "take 2 (rev s) \<noteq> ''==''"
      using ne by (cases s rule: rev_cases; simp add: numeral_2_eq_2)+
    with 1 show ?thesis by (simp add: pad4_def strip_padding_def)
  next
    case 2
    then show ?thesis by (simp add: pad4_def strip_padding_def mod_Suc numeral_2_eq_2)
  next
    case 3
    from ne 3 have "last s \<noteq> CHR ''=''" by auto
    with 3 show ?thesis
      by (cases s rule: rev_cases) (auto simp: pad4_def strip_padding_def mod_Suc numeral_2_eq_2)
  qed
qed

lemma base64Url_roundtrip [codec_simps]: "base64UrlToBytes (bytesToBase64Url bytes) = Inr bytes"
proof -
  let ?n = "map unat bytes"
  let ?s = "map b64_char (sextets ?n)"
  have n: "list_all (\<lambda>a. a < 256) ?n" by (simp add: list_all_iff unat_byte)
  have l: "list_all (\<lambda>x. x < 64) (sextets ?n)" by (rule sextets_less [OF n])
  then have a: "list_all is_base64 ?s" by (auto simp: list_all_iff b64_char_alphabet)
  have "filter (\<lambda>c. \<not> is_ascii_space c) (pad4 ?s) = pad4 ?s"
    using a not_alphabet by (auto simp: filter_id_conv pad4_def list_all_iff is_ascii_space_def)
  then have "strip_padding (filter (\<lambda>c. \<not> is_ascii_space c) (pad4 ?s)) = ?s"
    using strip_pad4 [OF a] sextets_length by simp
  moreover have "map (the \<circ> b64_val) ?s = sextets ?n"
    using l by (induction "sextets ?n" arbitrary: bytes) (auto simp: list_all_iff map_idI)
  moreover have "list_all (\<lambda>c. b64_val c \<noteq> None) ?s" using a by (simp add: is_base64_def [abs_def])
  ultimately have "atob (pad4 ?s) = Inr (map char_of ?n)"
    using sextets_length [of ?n] octets_sextets [OF n] by (simp add: atob_def Let_def)
  then show ?thesis
    by (simp only: base64UrlToBytes_def Let_def bytesToBase64Url_eq replace_back [OF a])
      (simp add: comp_def unat_byte)
qed

end
