(* ===== verification/Canonical.thy ===== *)
theory Canonical
  imports Encoding
begin

text \<open>
  Deterministic JSON, \<open>packages/core/src/receipt/canonical.ts\<close>. A JSON value is a datatype; an object is
  the list of its properties in the order of \<open>Object.keys\<close>, where \<open>None\<close> is a property that is
  \<open>undefined\<close>. Numbers are the integers (receipts carry no others) and the three values that are not
  finite, kept by name. The quoting of \<open>JSON.stringify\<close> is written out.

  \<open>normal\<close> is the specification of "structurally equal": it drops undefined properties and sorts the
  others. The canonical text of a finite value is the text of its normal form, and it determines the
  normal form, so equal bytes mean structurally equal values and nothing else.
\<close>

datatype json =
    JNull
  | JBool bool
  | JInt int
  | JNonFinite string
  | JStr string
  | JArr "json list"
  | JObj "(string \<times> json option) list"

subsection \<open>Quoting\<close>

definition hex_digit :: "nat \<Rightarrow> char" where
  "hex_digit n = (if n < 10 then char_of (n + 48) else char_of (n + 87))"

definition json_escape :: "char \<Rightarrow> string" where
  "json_escape c =
     (let n = (of_char c :: nat)
      in if n = 34 then [CHR 0x5C, c]
         else if n = 92 then [CHR 0x5C, c]
         else if n = 8 then [CHR 0x5C, CHR ''b'']
         else if n = 9 then [CHR 0x5C, CHR ''t'']
         else if n = 10 then [CHR 0x5C, CHR ''n'']
         else if n = 12 then [CHR 0x5C, CHR ''f'']
         else if n = 13 then [CHR 0x5C, CHR ''r'']
         else if n < 32 then [CHR 0x5C, CHR ''u'', CHR ''0'', CHR ''0'', hex_digit (n div 16), hex_digit (n mod 16)]
         else [c])"

definition json_quote :: "string \<Rightarrow> string" where
  "json_quote s = CHR 0x22 # concat (map json_escape s) @ [CHR 0x22]"

subsection \<open>Canonical text\<close>

text \<open>A list of results, up to the first throw.\<close>

fun collect :: "'a result list \<Rightarrow> 'a list result" where
  "collect [] = Inr []"
| "collect (Inl e # rs) = Inl e"
| "collect (Inr x # rs) = map_sum id ((#) x) (collect rs)"

definition present :: "(string \<times> 'a option) list \<Rightarrow> (string \<times> 'a) list" where
  "present fs = map (map_prod id the) (filter (\<lambda>f. snd f \<noteq> None) fs)"

primrec canonicalJson :: "json \<Rightarrow> string result" where
  "canonicalJson JNull = Inr ''null''"
| "canonicalJson (JBool b) = Inr (if b then ''true'' else ''false'')"
| "canonicalJson (JInt i) = Inr (int_toString i)"
| "canonicalJson (JNonFinite name) = Inl (TollwayError Canonicalization_failed (''cannot canonicalize '' @ name))"
| "canonicalJson (JStr s) = Inr (json_quote s)"
| "canonicalJson (JArr vs) =
     map_sum id (\<lambda>parts. ''['' @ join_with '','' parts @ '']'') (collect (map canonicalJson vs))"
| "canonicalJson (JObj fs) =
     map_sum id (\<lambda>parts. ''{'' @ join_with '','' parts @ ''}'')
       (collect (map (\<lambda>(key, r). map_sum id (\<lambda>part. json_quote key @ '':'' @ part) r)
         (present (sort_key fst (map (map_prod id (map_option canonicalJson)) fs)))))"

definition canonicalBytes :: "json \<Rightarrow> byte list result" where
  "canonicalBytes v = map_sum id utf8Bytes (canonicalJson v)"

subsection \<open>Normal forms\<close>

primrec normal :: "json \<Rightarrow> json" where
  "normal JNull = JNull"
| "normal (JBool b) = JBool b"
| "normal (JInt i) = JInt i"
| "normal (JNonFinite name) = JNonFinite name"
| "normal (JStr s) = JStr s"
| "normal (JArr vs) = JArr (map normal vs)"
| "normal (JObj fs) = JObj (sort_key fst (filter (\<lambda>f. snd f \<noteq> None) (map (map_prod id (map_option normal)) fs)))"

text \<open>Every number is finite.\<close>

primrec finite_json :: "json \<Rightarrow> bool" where
  "finite_json JNull \<longleftrightarrow> True"
| "finite_json (JBool b) \<longleftrightarrow> True"
| "finite_json (JInt i) \<longleftrightarrow> True"
| "finite_json (JNonFinite name) \<longleftrightarrow> False"
| "finite_json (JStr s) \<longleftrightarrow> True"
| "finite_json (JArr vs) \<longleftrightarrow> list_all id (map finite_json vs)"
| "finite_json (JObj fs) \<longleftrightarrow> list_all (\<lambda>f. snd f \<noteq> Some False) (map (map_prod id (map_option finite_json)) fs)"

text \<open>The text of a normal form, as a total function.\<close>

primrec print_json :: "json \<Rightarrow> string" where
  "print_json JNull = ''null''"
| "print_json (JBool b) = (if b then ''true'' else ''false'')"
| "print_json (JInt i) = int_toString i"
| "print_json (JNonFinite name) = []"
| "print_json (JStr s) = json_quote s"
| "print_json (JArr vs) = ''['' @ join_with '','' (map print_json vs) @ '']''"
| "print_json (JObj fs) = ''{'' @ join_with '','' (map (\<lambda>(key, part). json_quote key @ '':'' @ part)
     (present (map (map_prod id (map_option print_json)) fs))) @ ''}''"

lemma collect_Inr: "collect (map (\<lambda>x. Inr (f x)) xs) = Inr (map f xs)"
  by (induction xs) simp_all

lemma map_sum_Inr_id: "map_sum id f (Inr x) = Inr (f x)"
  by simp

lemma filter_map_option: "filter (\<lambda>f. snd f \<noteq> None) (map (map_prod id (map_option g)) fs) =
    map (map_prod id (map_option g)) (filter (\<lambda>f. snd f \<noteq> None) fs)"
  by (induction fs) auto

lemma sort_key_fst_map_prod: "sort_key fst (map (map_prod id g) fs) = map (map_prod id g) (sort_key fst fs)"
  by (simp add: sort_key_map)

lemma canonicalJson_print: "finite_json v \<Longrightarrow> canonicalJson v = Inr (print_json (normal v))"
proof (induction v)
  case (JArr vs)
  then have "map canonicalJson vs = map (\<lambda>x. Inr (print_json (normal x))) vs"
    by (simp add: list_all_iff)
  then show ?case by (simp only: canonicalJson.simps collect_Inr normal.simps print_json.simps map_sum_Inr_id map_map comp_def)
next
  case (JObj fs)
  have f: "map (map_prod id (map_option canonicalJson)) fs =
      map (map_prod id (map_option (\<lambda>x. Inr (print_json (normal x))))) fs"
  proof (rule map_cong [OF refl])
    fix x assume x: "x \<in> set fs"
    obtain k o' where ko: "x = (k, o')" by (cases x)
    show "map_prod id (map_option canonicalJson) x = map_prod id (map_option (\<lambda>x. Inr (print_json (normal x)))) x"
    proof (cases o')
      case (Some v)
      with JObj.prems x ko have "finite_json v" by (force simp: list_all_iff)
      with JObj.IH [OF x, of o' v] Some ko show ?thesis by simp
    qed (simp add: ko)
  qed
  let ?n = "\<lambda>x. Inr (print_json (normal x)) :: string result"
  let ?s = "filter (\<lambda>f. snd f \<noteq> None) (sort_key fst fs)"
  have "present (sort_key fst (map (map_prod id (map_option canonicalJson)) fs)) =
      map (\<lambda>f. (fst f, ?n (the (snd f)))) ?s"
    unfolding f sort_key_fst_map_prod present_def filter_map_option by (auto simp: map_prod_def)
  then have c: "canonicalJson (JObj fs) = Inr (''{'' @ join_with '','' (map (\<lambda>f. json_quote (fst f) @ '':'' @
      print_json (normal (the (snd f)))) ?s) @ ''}'')"
    by (simp add: comp_def case_prod_beta collect_Inr)
  have "normal (JObj fs) = JObj (map (map_prod id (map_option normal)) ?s)"
    by (simp only: normal.simps filter_map_option sort_key_fst_map_prod filter_sort)
  then have "print_json (normal (JObj fs)) = ''{'' @ join_with '','' (map (\<lambda>f. json_quote (fst f) @ '':'' @
      print_json (normal (the (snd f)))) ?s) @ ''}''"
    by (simp add: present_def filter_map_option comp_def map_prod_def case_prod_beta)
      (auto intro!: arg_cong [of _ _ "join_with _"])
  with c show ?case by simp
qed simp_all


subsection \<open>The text determines the normal form\<close>

text \<open>What may follow a value inside a larger text.\<close>

definition delim :: "string \<Rightarrow> bool" where
  "delim r \<longleftrightarrow> r = [] \<or> hd r \<in> {CHR '','', CHR '']'', CHR ''}''}"

text \<open>Reading back one escaped unit.\<close>

definition hex_val :: "char \<Rightarrow> nat" where
  "hex_val c = (let n = (of_char c :: nat) in if n < 58 then n - 48 else n - 87)"

lemma hex_val_digit [simp]: "n < 16 \<Longrightarrow> hex_val (hex_digit n) = n"
  by (simp add: hex_val_def hex_digit_def)

definition unescape :: "string \<Rightarrow> nat \<times> string" where
  "unescape s =
     (if (of_char (hd s) :: nat) \<noteq> 92 then (of_char (hd s), tl s)
      else let n = (of_char (s ! 1) :: nat)
        in if n = 98 then (8, drop 2 s) else if n = 116 then (9, drop 2 s) else if n = 110 then (10, drop 2 s)
           else if n = 102 then (12, drop 2 s) else if n = 114 then (13, drop 2 s)
           else if n = 117 then (hex_val (s ! 4) * 16 + hex_val (s ! 5), drop 6 s)
           else (n, drop 2 s))"

lemma unescape_backslash:
  "unescape (CHR 0x5C # d # x) = (let n = (of_char d :: nat)
     in if n = 98 then (8, x) else if n = 116 then (9, x) else if n = 110 then (10, x) else if n = 102 then (12, x)
        else if n = 114 then (13, x) else if n = 117 then (hex_val (x ! 2) * 16 + hex_val (x ! 3), drop 4 x) else (n, x))"
  by (simp add: unescape_def Let_def numeral_eq_Suc)

lemma unescape_escape: "unescape (json_escape c @ x) = (of_char c, x)"
proof -
  let ?n = "of_char c :: nat"
  consider "?n = 34" | "?n = 92" | "?n = 8" | "?n = 9" | "?n = 10" | "?n = 12" | "?n = 13"
    | "?n \<notin> {34, 92, 8, 9, 10, 12, 13}" "?n < 32" | "?n \<notin> {34, 92, 8, 9, 10, 12, 13}" "\<not> ?n < 32" by blast
  then show ?thesis
  proof cases
    case 8
    then have "json_escape c = [CHR 0x5C, CHR ''u'', CHR ''0'', CHR ''0'', hex_digit (?n div 16), hex_digit (?n mod 16)]"
      by (simp add: json_escape_def Let_def)
    moreover have "hex_val (hex_digit (?n div 16)) * 16 + hex_val (hex_digit (?n mod 16)) = ?n"
      using 8(2) by (simp add: div_mult_mod_eq)
    ultimately show ?thesis by (simp add: unescape_backslash)
  next
    case 9
    then have "json_escape c = [c]" by (simp add: json_escape_def Let_def)
    with 9 show ?thesis by (simp add: unescape_def)
  qed (simp_all add: json_escape_def unescape_backslash)
qed

lemma json_escape_append: "json_escape c @ x = json_escape d @ y \<Longrightarrow> c = d \<and> x = y"
  using unescape_escape [of c x] unescape_escape [of d y] by (metis Pair_inject of_char_eq_iff)

lemma json_escape_quote: "json_escape c @ x \<noteq> CHR 0x22 # y"
  by (auto simp: json_escape_def Let_def)

lemma json_quote_append: "json_quote s @ x = json_quote t @ y \<Longrightarrow> s = t \<and> x = y"
proof (induction s arbitrary: t)
  case Nil
  then show ?case
    by (cases t) (auto simp: json_quote_def dest: json_escape_quote [THEN notE, OF sym])
next
  case (Cons c s)
  then show ?case
  proof (cases t)
    case Nil
    with Cons.prems show ?thesis by (auto simp: json_quote_def dest: json_escape_quote [THEN notE])
  next
    case (Cons d t')
    with Cons.prems json_escape_append [of c _ d]
    have "c = d" "json_quote s @ x = json_quote t' @ y" by (auto simp: json_quote_def)
    with Cons.IH [of t'] Cons show ?thesis by simp
  qed
qed

definition number_char :: "char \<Rightarrow> bool" where
  "number_char c \<longleftrightarrow> is_digit c \<or> c = CHR ''-''"

lemma int_toString_chars: "list_all number_char (int_toString i)"
  using nat_toString_digits [of "nat i"] nat_toString_digits [of "nat (- i)"]
  by (auto simp: int_toString_def number_char_def list_all_iff)

lemma int_toString_inject: "int_toString i = int_toString j \<longleftrightarrow> i = j"
proof -
  have "nat_toString n \<noteq> CHR ''-'' # x" for n x
    using nat_toString_digits [of n] by (auto simp: is_digit_def)
  then show ?thesis by (auto simp: int_toString_def nat_toString_inject) metis+
qed

lemma int_toString_append:
  assumes "int_toString i @ x = int_toString j @ y" "delim x" "delim y" shows "i = j \<and> x = y"
proof -
  have "takeWhile number_char (int_toString k @ z) = int_toString k" if "delim z" for k z
    using int_toString_chars [of k] that
    by (cases z) (auto simp: takeWhile_append2 list_all_iff delim_def number_char_def is_digit_def)
  with assms have "int_toString i = int_toString j" by metis
  with assms(1) show ?thesis by (simp add: int_toString_inject)
qed


text \<open>Values whose text is read back: no number that is not finite, no undefined property.\<close>

primrec plain :: "json \<Rightarrow> bool" where
  "plain JNull \<longleftrightarrow> True"
| "plain (JBool b) \<longleftrightarrow> True"
| "plain (JInt i) \<longleftrightarrow> True"
| "plain (JNonFinite name) \<longleftrightarrow> False"
| "plain (JStr s) \<longleftrightarrow> True"
| "plain (JArr vs) \<longleftrightarrow> list_all id (map plain vs)"
| "plain (JObj fs) \<longleftrightarrow> list_all (\<lambda>f. snd f = Some True) (map (map_prod id (map_option plain)) fs)"

lemma plain_normal: "finite_json v \<Longrightarrow> plain (normal v)"
proof (induction v)
  case (JObj fs)
  have "plain (normal w)" if "(k, Some w) \<in> set fs" for k w
  proof (rule JObj.IH [OF that, of "Some w" w])
    show "finite_json w" using JObj.prems that by (force simp: list_all_iff)
  qed auto
  then have "map_option plain (map_option normal u) = Some True" if "(k, u) \<in> set fs" "u \<noteq> None" for k u
    using that by (cases u) auto
  then show ?case by (simp add: list_all_iff) blast
qed (simp_all add: list_all_iff)

text \<open>The first sign of a text tells the constructor.\<close>

definition json_kind :: "json \<Rightarrow> nat" where
  "json_kind v = (case v of JNull \<Rightarrow> 0 | JBool b \<Rightarrow> if b then 1 else 2 | JInt _ \<Rightarrow> 3 | JNonFinite _ \<Rightarrow> 4
     | JStr _ \<Rightarrow> 5 | JArr _ \<Rightarrow> 6 | JObj _ \<Rightarrow> 7)"

definition char_kind :: "char \<Rightarrow> nat" where
  "char_kind c = (if c = CHR ''n'' then 0 else if c = CHR ''t'' then 1 else if c = CHR ''f'' then 2
     else if number_char c then 3 else if c = CHR 0x22 then 5 else if c = CHR ''['' then 6
     else if c = CHR ''{'' then 7 else 8)"

lemma int_toString_not_Nil [simp]: "int_toString i \<noteq> []"
  by (simp add: int_toString_def)

lemma char_kind_print:
  assumes "plain v" shows "print_json v \<noteq> []" "char_kind (hd (print_json v)) = json_kind v"
proof -
  show "print_json v \<noteq> []" using assms by (cases v) (simp_all add: json_quote_def)
  have "number_char (hd (int_toString i))" for i
    using int_toString_chars [of i] by (cases "int_toString i") (auto simp: list_all_iff)
  moreover have "number_char c \<Longrightarrow> c \<noteq> CHR ''n'' \<and> c \<noteq> CHR ''t'' \<and> c \<noteq> CHR ''f''" for c
    by (auto simp: number_char_def is_digit_def)
  ultimately show "char_kind (hd (print_json v)) = json_kind v"
    using assms by (cases v) (auto simp: char_kind_def json_kind_def json_quote_def number_char_def is_digit_def)
qed

lemma print_kind:
  assumes "plain v" "plain w" "print_json v @ x = print_json w @ y" shows "json_kind v = json_kind w"
  using char_kind_print [OF assms(1)] char_kind_print [OF assms(2)] assms(3) by (metis hd_append2)

text \<open>Lists of parts between brackets.\<close>

lemma parts_append:
  assumes "\<And>x y r r'. x \<in> set xs \<Longrightarrow> y \<in> set ys \<Longrightarrow> delim r \<Longrightarrow> delim r' \<Longrightarrow> f x @ r = f y @ r' \<Longrightarrow> x = y \<and> r = r'"
    and "close = CHR '']'' \<or> close = CHR ''}''"
    and "concat (map (\<lambda>x. '','' @ f x) xs) @ close # r = concat (map (\<lambda>x. '','' @ f x) ys) @ close # r'"
  shows "xs = ys \<and> r = r'"
  using assms(1,3)
proof (induction xs arbitrary: ys)
  case Nil
  with assms(2) show ?case by (cases ys) auto
next
  case (Cons x xs)
  with assms(2) obtain y ys' where ys: "ys = y # ys'" by (cases ys) auto
  let ?c = "\<lambda>zs r. concat (map (\<lambda>x. '','' @ f x) zs) @ close # r"
  have d: "delim (?c zs q)" for zs q using assms(2) by (cases zs) (auto simp: delim_def)
  have "f x @ ?c xs r = f y @ ?c ys' r'" using Cons.prems(2) ys by simp
  with Cons.prems(1) [of x y] d ys have "x = y" "?c xs r = ?c ys' r'" by auto
  moreover have "xs = ys' \<and> r = r'" using Cons.IH [of ys'] Cons.prems(1) ys calculation(2) by auto
  ultimately show ?case using ys by simp
qed

lemma brackets_append:
  assumes "\<And>x y r r'. x \<in> set xs \<Longrightarrow> y \<in> set ys \<Longrightarrow> delim r \<Longrightarrow> delim r' \<Longrightarrow> f x @ r = f y @ r' \<Longrightarrow> x = y \<and> r = r'"
    and "\<And>x. x \<in> set xs \<union> set ys \<Longrightarrow> f x \<noteq> [] \<and> hd (f x) \<noteq> close"
    and "close = CHR '']'' \<or> close = CHR ''}''"
    and "join_with '','' (map f xs) @ close # r = join_with '','' (map f ys) @ close # r'"
  shows "xs = ys \<and> r = r'"
proof -
  have h: "hd (join_with '','' (map f zs) @ z) \<noteq> close" if "zs \<noteq> []" "set zs \<subseteq> set xs \<union> set ys" for zs z
    using that assms(2) [of "hd zs"] by (cases zs) (auto simp: join_with_Cons simp del: join_with.simps(2,3))
  have "xs = [] \<longleftrightarrow> ys = []"
    using h [of xs "close # r"] h [of ys "close # r'"] assms(4)
    by (metis append_Nil join_with.simps(1) list.map(1) list.sel(1) sup_ge1 sup_ge2)
  have "'','' @ join_with '','' (map f zs) = concat (map (\<lambda>x. '','' @ f x) zs)" if "zs \<noteq> []" for zs
    using that by (cases zs) (simp_all add: join_with_Cons comp_def del: join_with.simps)
  note c = this
  show ?thesis
  proof (cases "xs = []")
    case True
    with \<open>xs = [] \<longleftrightarrow> ys = []\<close> assms(4) show ?thesis by simp
  next
    case False
    with \<open>xs = [] \<longleftrightarrow> ys = []\<close> have "ys \<noteq> []" by simp
    have "concat (map (\<lambda>x. '','' @ f x) xs) @ close # r = concat (map (\<lambda>x. '','' @ f x) ys) @ close # r'"
      using assms(4) by (simp only: c [OF False, symmetric] c [OF \<open>ys \<noteq> []\<close>, symmetric] append_assoc)
    with assms(1,3) show ?thesis by (rule parts_append)
  qed
qed

lemma plain_field: "list_all (\<lambda>f. snd f = Some True) (map (map_prod id (map_option plain)) fs) \<Longrightarrow>
    f \<in> set fs \<Longrightarrow> \<exists>k v. f = (k, Some v) \<and> plain v"
  by (cases f) (auto simp: list_all_iff)

lemma print_fields:
  assumes "list_all (\<lambda>f. snd f = Some True) (map (map_prod id (map_option plain)) fs)"
  shows "map (\<lambda>(key, part). json_quote key @ '':'' @ part) (present (map (map_prod id (map_option print_json)) fs)) =
    map (\<lambda>f. json_quote (fst f) @ '':'' @ print_json (the (snd f))) fs"
  using assms by (induction fs) (auto simp: present_def)

lemma print_json_append:
  "plain v \<Longrightarrow> plain w \<Longrightarrow> delim r \<Longrightarrow> delim r' \<Longrightarrow> print_json v @ r = print_json w @ r' \<Longrightarrow> v = w \<and> r = r'"
proof (induction v arbitrary: w r r')
  case JNull
  with print_kind [of JNull w r r'] show ?case by (cases w) (auto simp: json_kind_def split: if_splits)
next
  case (JBool b)
  with print_kind [of "JBool b" w r r'] show ?case by (cases w) (auto simp: json_kind_def split: if_splits)
next
  case (JInt i)
  with print_kind [of "JInt i" w r r'] obtain j where "w = JInt j"
    by (cases w) (auto simp: json_kind_def split: if_splits)
  with JInt.prems int_toString_append [of i r j r'] show ?case by simp
next
  case (JNonFinite name)
  then show ?case by simp
next
  case (JStr s)
  with print_kind [of "JStr s" w r r'] obtain u where "w = JStr u"
    by (cases w) (auto simp: json_kind_def split: if_splits)
  with JStr.prems json_quote_append [of s r u r'] show ?case by simp
next
  case (JArr vs)
  with print_kind [of "JArr vs" w r r'] obtain ws where w: "w = JArr ws"
    by (cases w) (auto simp: json_kind_def split: if_splits)
  have pl: "\<forall>x\<in>set vs. plain x" "\<forall>x\<in>set ws. plain x"
    using JArr.prems(1,2) w by (auto simp: list_all_iff)
  have "hd (print_json x) \<noteq> CHR '']''" if "plain x" for x
    using char_kind_print(2) [OF that] by (cases x) (auto simp: json_kind_def char_kind_def number_char_def is_digit_def)
  then have hd: "print_json x \<noteq> [] \<and> hd (print_json x) \<noteq> CHR '']''" if "x \<in> set vs \<union> set ws" for x
    using that pl char_kind_print(1) by blast
  have "vs = ws \<and> r = r'"
  proof (rule brackets_append [where f = print_json and close = "CHR '']''"])
    fix x y q q' assume "x \<in> set vs" "y \<in> set ws" "delim q" "delim q'" "print_json x @ q = print_json y @ q'"
    with JArr.IH pl show "x = y \<and> q = q'" by blast
  qed (use JArr.prems(5) w hd in auto)
  with w show ?case by simp
next
  case (JObj fs)
  with print_kind [of "JObj fs" w r r'] obtain gs where w: "w = JObj gs"
    by (cases w) (auto simp: json_kind_def split: if_splits)
  let ?f = "\<lambda>f. json_quote (fst f) @ '':'' @ print_json (the (snd f))"
  have pl: "list_all (\<lambda>f. snd f = Some True) (map (map_prod id (map_option plain)) fs)"
    "list_all (\<lambda>f. snd f = Some True) (map (map_prod id (map_option plain)) gs)"
    using JObj.prems(1,2) w by simp_all
  have "fs = gs \<and> r = r'"
  proof (rule brackets_append [where f = ?f and close = "CHR ''}''"])
    fix x y q q' assume xy: "x \<in> set fs" "y \<in> set gs" "delim q" "delim q'" "?f x @ q = ?f y @ q'"
    from plain_field [OF pl(1) xy(1)] plain_field [OF pl(2) xy(2)]
    obtain k v l u where e: "x = (k, Some v)" "y = (l, Some u)" "plain v" "plain u" by blast
    from json_quote_append [of k "'':'' @ print_json v @ q" l "'':'' @ print_json u @ q'"] xy(5) e
    have "k = l" "print_json v @ q = print_json u @ q'" by auto
    moreover have "v = u \<and> q = q'"
      by (rule JObj.IH [of x "Some v" v]) (use e xy calculation(2) in auto)
    ultimately show "x = y \<and> q = q'" using e by simp
  next
    show "join_with '','' (map ?f fs) @ CHR ''}'' # r = join_with '','' (map ?f gs) @ CHR ''}'' # r'"
      using JObj.prems(5) w print_fields [OF pl(1)] print_fields [OF pl(2)] by simp
  qed (auto simp: json_quote_def)
  with w show ?case by simp
qed

lemma canonicalJson_eq_iff:
  assumes "finite_json v" "finite_json w"
  shows "canonicalJson v = canonicalJson w \<longleftrightarrow> normal v = normal w"
  using print_json_append [OF plain_normal [OF assms(1)] plain_normal [OF assms(2)], of "[]" "[]"]
  by (auto simp: canonicalJson_print assms delim_def)

lemma canonicalBytes_eq_iff:
  assumes "finite_json v" "finite_json w"
  shows "canonicalBytes v = canonicalBytes w \<longleftrightarrow> normal v = normal w"
  using canonicalJson_eq_iff [OF assms] by (simp add: canonicalBytes_def canonicalJson_print assms utf8Bytes_inject)

text \<open>Two objects with the same properties in another order have the same normal form.\<close>

lemma normal_permuted:
  assumes "mset fs = mset gs" "distinct (map fst fs)"
  shows "normal (JObj fs) = normal (JObj gs)"
proof -
  let ?n = "\<lambda>fs. filter (\<lambda>f. snd f \<noteq> None) (map (map_prod id (map_option normal)) fs)"
  have "mset (?n fs) = mset (?n gs)" using assms(1) by (simp add: mset_filter)
  moreover have "distinct (map fst (?n fs))"
    using assms(2) by (auto simp: filter_map_option comp_def intro: distinct_map_filter)
  ultimately show ?thesis by (simp add: sort_key_mset)
qed

end
