(* ===== verification/Receipt.thy ===== *)
theory Receipt
  imports Canonical
begin

text \<open>
  The canonical receipt: the schema of \<open>packages/core/src/receipt/schema.ts\<close>, building, signing and
  verifying of \<open>receipt.ts\<close>, and the Ed25519 signer and verifier of \<open>signer.ts\<close>.

  The schema is translated as the list of issues it raises on a value of the receipt's type, in the
  order of the schema's fields and with the refinement last (it is skipped when the version literal
  does not match; \<open>int()\<close> admits the safe integers). Two things of the schema library are
  arguments: \<open>zmsg\<close>, the message of a built-in check, and \<open>is_datetime\<close>, the format check of
  \<open>z.iso.datetime()\<close>. A candidate from the wire has any type; \<open>safeParse\<close>, the schema applied to it, is
  an argument too. WebCrypto is an argument of the signer and the verifier.
\<close>

subsection \<open>The schema\<close>

datatype settlement_ref =
    Transaction_ref (ref_txHash: string)
  | Channel_commitment_ref (ref_channelId: string) (ref_sequence: int)

datatype ref_kind = Kind_transaction | Kind_channel_commitment

fun ref_kind_str :: "ref_kind \<Rightarrow> string" where
  "ref_kind_str Kind_transaction = ''transaction''"
| "ref_kind_str Kind_channel_commitment = ''channel-commitment''"

fun settlement_kind :: "settlement_ref \<Rightarrow> ref_kind" where
  "settlement_kind (Transaction_ref _) = Kind_transaction"
| "settlement_kind (Channel_commitment_ref _ _) = Kind_channel_commitment"

fun refKindForModel :: "settlement_model \<Rightarrow> ref_kind" where
  "refKindForModel X402 = Kind_transaction"
| "refKindForModel Mpp_charge = Kind_transaction"
| "refKindForModel Mpp_channel = Kind_channel_commitment"

record receipt_body =
  body_version :: int
  body_id :: string
  body_payer :: string
  body_payee :: string
  body_amount :: string
  body_asset :: string
  body_resource :: string
  body_model :: settlement_model
  body_settlement :: settlement_ref
  body_network :: stellar_network
  body_issuedAt :: string

record receipt_signature =
  sig_keyId :: string
  sig_algorithm :: string
  sig_value :: string

record signed_receipt =
  receipt :: receipt_body
  signature :: receipt_signature

datatype zod_check = Too_small | Too_big | Invalid_literal | Invalid_datetime

type_synonym issue = "string list \<times> string"

definition min1 :: "(zod_check \<Rightarrow> string) \<Rightarrow> string list \<Rightarrow> string \<Rightarrow> issue list" where
  "min1 zmsg path s = (if s = [] then [(path, zmsg Too_small)] else [])"

fun settlement_issues :: "(zod_check \<Rightarrow> string) \<Rightarrow> settlement_ref \<Rightarrow> issue list" where
  "settlement_issues zmsg (Transaction_ref h) = min1 zmsg [''settlement'', ''txHash''] h"
| "settlement_issues zmsg (Channel_commitment_ref i q) =
     min1 zmsg [''settlement'', ''channelId''] i @
     (if q < 0 then [([''settlement'', ''sequence''], zmsg Too_small)]
      else if q > 9007199254740991 then [([''settlement'', ''sequence''], zmsg Too_big)] else [])"

definition kind_issues :: "receipt_body \<Rightarrow> issue list" where
  "kind_issues b =
     (if settlement_kind (body_settlement b) \<noteq> refKindForModel (body_model b)
      then [([''settlement'', ''kind''],
              ''model \"'' @ model_str (body_model b) @ ''\" settles via \"'' @
              ref_kind_str (refKindForModel (body_model b)) @ ''\", got \"'' @
              ref_kind_str (settlement_kind (body_settlement b)) @ ''\"'')]
      else [])"

definition body_issues :: "(zod_check \<Rightarrow> string) \<Rightarrow> (string \<Rightarrow> bool) \<Rightarrow> receipt_body \<Rightarrow> issue list" where
  "body_issues zmsg is_datetime b =
     ((if body_version b = 1 then [] else [([''version''], zmsg Invalid_literal)]) @
        min1 zmsg [''id''] (body_id b) @
        min1 zmsg [''payer''] (body_payer b) @
        min1 zmsg [''payee''] (body_payee b) @
        (if AMOUNT_RE (body_amount b) then [] else [([''amount''], ''amount must be an integer string'')]) @
        min1 zmsg [''asset''] (body_asset b) @
        min1 zmsg [''resource''] (body_resource b) @
        settlement_issues zmsg (body_settlement b) @
        (if is_datetime (body_issuedAt b) then [] else [([''issuedAt''], zmsg Invalid_datetime)]) @
        (if body_version b = 1 then kind_issues b else []))"

definition signature_issues :: "(zod_check \<Rightarrow> string) \<Rightarrow> receipt_signature \<Rightarrow> issue list" where
  "signature_issues zmsg g =
     min1 zmsg [''keyId''] (sig_keyId g) @ min1 zmsg [''algorithm''] (sig_algorithm g) @
     min1 zmsg [''value''] (sig_value g)"

definition signed_issues :: "(zod_check \<Rightarrow> string) \<Rightarrow> (string \<Rightarrow> bool) \<Rightarrow> signed_receipt \<Rightarrow> issue list" where
  "signed_issues zmsg is_datetime r =
     map (map_prod ((#) ''receipt'') id) (body_issues zmsg is_datetime (receipt r)) @
     map (map_prod ((#) ''signature'') id) (signature_issues zmsg (signature r))"

definition formatIssue :: "issue \<Rightarrow> string" where
  "formatIssue i = (if fst i = [] then ''(root)'' else join_with ''.'' (fst i)) @ '': '' @ snd i"

definition formatIssues :: "issue list \<Rightarrow> string" where
  "formatIssues is = join_with ''; '' (map formatIssue is)"

subsection \<open>Building\<close>

record build_receipt_input =
  bi_id :: "string option"
  bi_payer :: string
  bi_payee :: string
  bi_amount :: string
  bi_asset :: string
  bi_resource :: string
  bi_model :: settlement_model
  bi_settlement :: settlement_ref
  bi_network :: stellar_network
  bi_issuedAt :: "string option"

definition or_default :: "'a option \<Rightarrow> 'a \<Rightarrow> 'a" where
  "or_default o' d = (case o' of Some x \<Rightarrow> x | None \<Rightarrow> d)"

definition body_of_input :: "string \<Rightarrow> string \<Rightarrow> build_receipt_input \<Rightarrow> receipt_body" where
  "body_of_input uuid now input =
     \<lparr>body_version = 1, body_id = or_default (bi_id input) uuid, body_payer = bi_payer input,
      body_payee = bi_payee input, body_amount = bi_amount input, body_asset = bi_asset input,
      body_resource = bi_resource input, body_model = bi_model input, body_settlement = bi_settlement input,
      body_network = bi_network input, body_issuedAt = or_default (bi_issuedAt input) now\<rparr>"

definition buildReceipt ::
  "(zod_check \<Rightarrow> string) \<Rightarrow> (string \<Rightarrow> bool) \<Rightarrow> string \<Rightarrow> string \<Rightarrow> build_receipt_input \<Rightarrow> receipt_body result" where
  "buildReceipt zmsg is_datetime uuid now input =
     (let body = body_of_input uuid now input
      in case body_issues zmsg is_datetime body of
           [] \<Rightarrow> Inr body
         | i # is \<Rightarrow> Inl (TollwayError Invalid_receipt (formatIssues (i # is))))"

subsection \<open>Signing and verifying\<close>

record receipt_signer =
  signer_keyId :: string
  signer_algorithm :: string
  signer_sign :: "byte list \<Rightarrow> byte list result"

type_synonym receipt_verifier = "byte list \<Rightarrow> byte list \<Rightarrow> string \<Rightarrow> string \<Rightarrow> bool result"

text \<open>The receipt as the JSON value whose canonical bytes are signed.\<close>

fun settlement_json :: "settlement_ref \<Rightarrow> json" where
  "settlement_json (Transaction_ref h) =
     JObj [(''kind'', Some (JStr ''transaction'')), (''txHash'', Some (JStr h))]"
| "settlement_json (Channel_commitment_ref i q) =
     JObj [(''kind'', Some (JStr ''channel-commitment'')), (''channelId'', Some (JStr i)), (''sequence'', Some (JInt q))]"

definition body_json :: "receipt_body \<Rightarrow> json" where
  "body_json b = JObj
     [(''version'', Some (JInt (body_version b))), (''id'', Some (JStr (body_id b))),
      (''payer'', Some (JStr (body_payer b))), (''payee'', Some (JStr (body_payee b))),
      (''amount'', Some (JStr (body_amount b))), (''asset'', Some (JStr (body_asset b))),
      (''resource'', Some (JStr (body_resource b))), (''model'', Some (JStr (model_str (body_model b)))),
      (''settlement'', Some (settlement_json (body_settlement b))),
      (''network'', Some (JStr (network_str (body_network b)))), (''issuedAt'', Some (JStr (body_issuedAt b)))]"

definition signReceipt ::
  "(zod_check \<Rightarrow> string) \<Rightarrow> (string \<Rightarrow> bool) \<Rightarrow> receipt_body \<Rightarrow> receipt_signer \<Rightarrow> signed_receipt result" where
  "signReceipt zmsg is_datetime body signer =
     (if body_issues zmsg is_datetime body \<noteq> []
      then Inl (PlatformError ''ZodError'' (formatIssues (body_issues zmsg is_datetime body)))
      else
        (case canonicalBytes (body_json body) of
           Inl e \<Rightarrow> Inl e
         | Inr message \<Rightarrow>
             (case signer_sign signer message of
                Inl e \<Rightarrow> Inl e
              | Inr sig \<Rightarrow> Inr \<lparr>receipt = body, signature = \<lparr>sig_keyId = signer_keyId signer,
                    sig_algorithm = signer_algorithm signer, sig_value = bytesToBase64Url sig\<rparr>\<rparr>)))"

datatype receipt_verification = Valid | Invalid string

definition verifyReceipt ::
  "('u \<Rightarrow> issue list + signed_receipt) \<Rightarrow> 'u \<Rightarrow> receipt_verifier \<Rightarrow> receipt_verification result" where
  "verifyReceipt safeParse candidate verify =
     (case safeParse candidate of
        Inl issues \<Rightarrow> Inr (Invalid (formatIssues issues))
      | Inr r \<Rightarrow>
          (case canonicalBytes (body_json (receipt r)) of
             Inl e \<Rightarrow> Inl e
           | Inr message \<Rightarrow>
               (case base64UrlToBytes (sig_value (signature r)) of
                  Inl e \<Rightarrow> Inl e
                | Inr sig \<Rightarrow>
                    (case verify message sig (sig_keyId (signature r)) (sig_algorithm (signature r)) of
                       Inl e \<Rightarrow> Inl e
                     | Inr False \<Rightarrow> Inr (Invalid ''signature does not verify against any trusted key'')
                     | Inr True \<Rightarrow> Inr Valid))))"

subsection \<open>Ed25519\<close>

definition ED25519 :: string where
  "ED25519 = ''Ed25519''"

text \<open>
  \<open>subtle_sign key message\<close> is \<open>crypto.subtle.sign\<close>; \<open>subtle_verify raw signature message\<close> is
  \<open>importKey\<close> on the raw public key followed by \<open>crypto.subtle.verify\<close>.
\<close>

record 'k ed25519_signer =
  ed_keyId :: string
  ed_publicKey :: "byte list"
  ed_privateKey :: 'k

definition ed25519_generate :: "byte list \<times> 'k \<Rightarrow> string option \<Rightarrow> 'k ed25519_signer" where
  "ed25519_generate pair keyId =
     \<lparr>ed_keyId = or_default keyId (bytesToBase64Url (fst pair)), ed_publicKey = fst pair, ed_privateKey = snd pair\<rparr>"

definition ed25519_signer_of :: "('k \<Rightarrow> byte list \<Rightarrow> byte list result) \<Rightarrow> 'k ed25519_signer \<Rightarrow> receipt_signer" where
  "ed25519_signer_of subtle_sign s =
     \<lparr>signer_keyId = ed_keyId s, signer_algorithm = ED25519, signer_sign = subtle_sign (ed_privateKey s)\<rparr>"

fun ed25519_keys :: "(string \<times> (byte list + string)) list \<Rightarrow> (string, byte list) js_map result" where
  "ed25519_keys [] = Inr Map.empty"
| "ed25519_keys ((keyId, key) # rest) =
     (case (case key of Inl raw \<Rightarrow> Inr raw | Inr b64 \<Rightarrow> base64UrlToBytes b64) of
        Inl e \<Rightarrow> Inl e
      | Inr raw \<Rightarrow> map_sum id (\<lambda>m. if keyId \<in> dom m then m else m(keyId \<mapsto> raw)) (ed25519_keys rest))"

definition forSigner :: "'k ed25519_signer \<Rightarrow> (string, byte list) js_map result" where
  "forSigner s = ed25519_keys [(ed_keyId s, Inl (ed_publicKey s))]"

definition ed25519_verify ::
  "(byte list \<Rightarrow> byte list \<Rightarrow> byte list \<Rightarrow> bool result) \<Rightarrow> (string, byte list) js_map \<Rightarrow> receipt_verifier" where
  "ed25519_verify subtle_verify keys message sig keyId algorithm =
     (if algorithm \<noteq> ED25519 then Inr False
      else
        (case keys keyId of
           None \<Rightarrow> Inr False
         | Some raw \<Rightarrow> subtle_verify raw sig message))"


subsection \<open>The bytes determine the body\<close>

lemma normal_JObj_set:
  assumes "normal (JObj fs) = normal (JObj gs)"
  shows "set (filter (\<lambda>f. snd f \<noteq> None) (map (map_prod id (map_option normal)) fs)) =
         set (filter (\<lambda>f. snd f \<noteq> None) (map (map_prod id (map_option normal)) gs))"
proof -
  from assms have "sort_key fst (filter (\<lambda>f. snd f \<noteq> None) (map (map_prod id (map_option normal)) fs)) =
      sort_key fst (filter (\<lambda>f. snd f \<noteq> None) (map (map_prod id (map_option normal)) gs))" by simp
  then show ?thesis by (metis set_sort)
qed

lemma normal_JObj_field:
  assumes "normal (JObj fs) = normal (JObj gs)" "distinct (map fst fs)" "distinct (map fst gs)"
    and "list_all (\<lambda>f. snd f \<noteq> None) fs" "list_all (\<lambda>f. snd f \<noteq> None) gs"
  shows "map_of (map (map_prod id (map_option normal)) fs) k = map_of (map (map_prod id (map_option normal)) gs) k"
proof -
  have f: "filter (\<lambda>f. snd f \<noteq> None) (map (map_prod id (map_option normal)) hs) = map (map_prod id (map_option normal)) hs"
    if "list_all (\<lambda>f. snd f \<noteq> None) hs" for hs
    using that unfolding filter_map_option by (simp add: list_all_iff)
  have d: "distinct (map fst (map (map_prod id (map_option normal)) hs))" if "distinct (map fst hs)" for hs
    using that by (simp add: comp_def)
  from normal_JObj_set [OF assms(1)] show ?thesis
    unfolding f [OF assms(4)] f [OF assms(5)] using map_of_inject_set [OF d [OF assms(2)] d [OF assms(3)]] by simp
qed

lemma normal_settlement_json: "normal (settlement_json r) = normal (settlement_json q) \<Longrightarrow> r = q"
proof (cases r; cases q)
  fix h g assume e: "normal (settlement_json r) = normal (settlement_json q)" "r = Transaction_ref h" "q = Transaction_ref g"
  from normal_JObj_field [OF e(1) [unfolded e(2,3) settlement_json.simps], of "''txHash''"] e(2,3) show "r = q" by simp
next
  fix h i n assume e: "normal (settlement_json r) = normal (settlement_json q)" "r = Transaction_ref h"
    "q = Channel_commitment_ref i n"
  from normal_JObj_field [OF e(1) [unfolded e(2,3) settlement_json.simps], of "''kind''"] show "r = q" by simp
next
  fix h i n assume e: "normal (settlement_json r) = normal (settlement_json q)" "r = Channel_commitment_ref i n"
    "q = Transaction_ref h"
  from normal_JObj_field [OF e(1) [unfolded e(2,3) settlement_json.simps], of "''kind''"] show "r = q" by simp
next
  fix i n j m assume e: "normal (settlement_json r) = normal (settlement_json q)" "r = Channel_commitment_ref i n"
    "q = Channel_commitment_ref j m"
  note n = normal_JObj_field [OF e(1) [unfolded e(2,3) settlement_json.simps]]
  from n [of "''channelId''"] n [of "''sequence''"] e(2,3) show "r = q" by simp
qed

lemma normal_body_json:
  assumes "normal (body_json b) = normal (body_json c)" shows "b = c"
proof -
  note n = normal_JObj_field [OF assms [unfolded body_json_def], simplified list.map map_prod_simp option.map id_apply]
  have "body_version b = body_version c" using n [of "''version''"] by simp
  moreover have "body_id b = body_id c" using n [of "''id''"] by simp
  moreover have "body_payer b = body_payer c" using n [of "''payer''"] by simp
  moreover have "body_payee b = body_payee c" using n [of "''payee''"] by simp
  moreover have "body_amount b = body_amount c" using n [of "''amount''"] by simp
  moreover have "body_asset b = body_asset c" using n [of "''asset''"] by simp
  moreover have "body_resource b = body_resource c" using n [of "''resource''"] by simp
  moreover have "body_model b = body_model c" using n [of "''model''"] by simp
  moreover have "body_settlement b = body_settlement c" using n [of "''settlement''"] by (simp add: normal_settlement_json)
  moreover have "body_network b = body_network c" using n [of "''network''"] by simp
  moreover have "body_issuedAt b = body_issuedAt c" using n [of "''issuedAt''"] by simp
  ultimately show ?thesis by simp
qed

lemma finite_body_json [simp]: "finite_json (body_json b)"
  by (cases "body_settlement b") (simp_all add: body_json_def)

lemma body_bytes_inject: "canonicalBytes (body_json b) = canonicalBytes (body_json c) \<longleftrightarrow> b = c"
  using normal_body_json by (auto simp: canonicalBytes_eq_iff)

lemma body_bytes_Inr: "\<exists>bytes. canonicalBytes (body_json b) = Inr bytes"
  by (simp add: canonicalBytes_def canonicalJson_print)


subsection \<open>What the schema accepts\<close>

definition well_formed :: "(string \<Rightarrow> bool) \<Rightarrow> receipt_body \<Rightarrow> bool" where
  "well_formed is_datetime b \<longleftrightarrow>
     body_version b = 1 \<and>
     list_all (\<lambda>s. s \<noteq> []) [body_id b, body_payer b, body_payee b, body_asset b, body_resource b] \<and>
     AMOUNT_RE (body_amount b) \<and> is_datetime (body_issuedAt b) \<and>
     (case body_settlement b of
        Transaction_ref h \<Rightarrow> h \<noteq> [] \<and> body_model b \<in> {X402, Mpp_charge}
      | Channel_commitment_ref i q \<Rightarrow>
          i \<noteq> [] \<and> 0 \<le> q \<and> q \<le> 9007199254740991 \<and> body_model b = Mpp_channel)"

lemma body_issues_Nil: "body_issues zmsg is_datetime b = [] \<longleftrightarrow> well_formed is_datetime b"
  by (cases "body_settlement b"; cases "body_model b")
    (auto simp: body_issues_def well_formed_def min1_def kind_issues_def)

lemma signed_issues_Nil:
  "signed_issues zmsg is_datetime r = [] \<longleftrightarrow> well_formed is_datetime (receipt r) \<and>
     sig_keyId (signature r) \<noteq> [] \<and> sig_algorithm (signature r) \<noteq> [] \<and> sig_value (signature r) \<noteq> []"
  by (auto simp: signed_issues_def body_issues_Nil signature_issues_def min1_def)

lemma bytesToBase64Url_Nil [simp]: "bytesToBase64Url bytes = [] \<longleftrightarrow> bytes = []"
proof
  assume "bytesToBase64Url bytes = []"
  with base64Url_roundtrip [of bytes] have "base64UrlToBytes [] = Inr bytes" by simp
  moreover have "base64UrlToBytes [] = Inr []" by code_simp
  ultimately show "bytes = []" by simp
qed (simp add: bytesToBase64Url_eq replace_char_def)

lemma sign_signed:
  assumes "signReceipt zmsg is_datetime b signer = Inr r"
  obtains m g where "well_formed is_datetime b" "receipt r = b" "sig_keyId (signature r) = signer_keyId signer"
    "sig_algorithm (signature r) = signer_algorithm signer" "canonicalBytes (body_json b) = Inr m"
    "signer_sign signer m = Inr g" "sig_value (signature r) = bytesToBase64Url g"
  using assms body_issues_Nil [of zmsg is_datetime b]
  by (auto simp: signReceipt_def split: sum.splits if_splits)

lemma forSigner_keys: "forSigner s = Inr [ed_keyId s \<mapsto> ed_publicKey s]"
  by (simp add: forSigner_def)

definition sample_body :: receipt_body where
  "sample_body = \<lparr>body_version = 1, body_id = ''r1'', body_payer = ''GA'', body_payee = ''GB'', body_amount = ''5'',
     body_asset = ''USDC'', body_resource = ''/a'', body_model = X402, body_settlement = Transaction_ref ''tx'',
     body_network = Testnet, body_issuedAt = ''2025-01-01T00:00:00.000Z''\<rparr>"

lemma sample_body_ok: "well_formed (\<lambda>_. True) sample_body"
  by (simp add: well_formed_def sample_body_def AMOUNT_RE_def is_digit_def)

text \<open>Signing and verifying with one key, over any transport the schema undoes.\<close>

lemma signed_verifies:
  assumes "signReceipt zmsg is_datetime b (ed25519_signer_of subtle_sign s) = Inr r"
    and "forSigner s = Inr keys" and "ed_keyId s \<noteq> []"
    and "\<And>m g. subtle_sign (ed_privateKey s) m = Inr g \<Longrightarrow> g \<noteq> [] \<and> subtle_verify (ed_publicKey s) g m = Inr True"
    and "\<And>x. safeParse (wire x) = (if signed_issues zmsg is_datetime x = [] then Inr x else Inl (signed_issues zmsg is_datetime x))"
  shows "verifyReceipt safeParse (wire r) (ed25519_verify subtle_verify keys) = Inr Valid"
proof -
  from assms(1) obtain m g where s: "well_formed is_datetime b" "receipt r = b" "sig_keyId (signature r) = ed_keyId s"
    "sig_algorithm (signature r) = ED25519" "canonicalBytes (body_json b) = Inr m"
    "subtle_sign (ed_privateKey s) m = Inr g" "sig_value (signature r) = bytesToBase64Url g"
    by (rule sign_signed) (simp add: ed25519_signer_of_def)
  from assms(4) [OF s(6)] s assms(3) have "signed_issues zmsg is_datetime r = []"
    by (simp add: signed_issues_Nil ED25519_def)
  moreover have "keys = [ed_keyId s \<mapsto> ed_publicKey s]" using assms(2) by (simp add: forSigner_keys)
  ultimately show ?thesis using assms(4,5) s
    by (simp add: verifyReceipt_def ed25519_verify_def base64Url_roundtrip)
qed

subsection \<open>Properties\<close>

text \<open>C20. The bytes that are signed identify the value: two JSON values with finite numbers have the same
  canonical bytes exactly when they are equal up to the order of object properties and to properties
  that are undefined.\<close>

theorem canonical_bytes_decide_structure:
  assumes "finite_json v" and "finite_json w"
  shows "canonicalBytes v = canonicalBytes w \<longleftrightarrow> normal v = normal w"
  by (rule canonicalBytes_eq_iff [OF assms])

theorem canonical_bytes_decide_structure_witness:
  "canonicalBytes (JObj [(''b'', Some (JInt 1)), (''a'', Some (JArr [JStr ''x'', JNull])), (''c'', None)]) =
   canonicalBytes (JObj [(''a'', Some (JArr [JStr ''x'', JNull])), (''b'', Some (JInt 1))])"
  by (rule canonical_bytes_decide_structure [THEN iffD2]) (simp, simp, code_simp)

text \<open>Decoding what \<open>bytesToBase64Url\<close> encodes gives the bytes back, for any bytes.\<close>

theorem base64url_decodes_what_it_encodes:
  "base64UrlToBytes (bytesToBase64Url bytes) = Inr bytes"
  by (rule base64Url_roundtrip)

text \<open>\<open>buildReceipt\<close> returns exactly the well-formed bodies: version 1, non-empty identifiers, an integer
  amount, a datetime, and a settlement reference of the kind its model settles with. Anything else is an
  \<open>invalid-receipt\<close> error.\<close>

theorem build_receipt_accepts_well_formed:
  "case buildReceipt zmsg is_datetime uuid now input of
     Inr b \<Rightarrow> b = body_of_input uuid now input \<and> well_formed is_datetime b
   | Inl e \<Rightarrow> error_code e = Some Invalid_receipt \<and> \<not> well_formed is_datetime (body_of_input uuid now input)"
  using body_issues_Nil [of zmsg is_datetime "body_of_input uuid now input"]
  by (auto simp: buildReceipt_def Let_def split: list.splits)

text \<open>C25. A receipt signed with an Ed25519 key verifies with the verifier made for that key, when the schema
  parses the transmitted receipt back, and WebCrypto accepts its own (non-empty) signatures.\<close>

theorem signed_receipt_verifies:
  assumes "signReceipt zmsg is_datetime b (ed25519_signer_of subtle_sign s) = Inr r"
    and "forSigner s = Inr keys" and "ed_keyId s \<noteq> []"
    and "\<And>m g. subtle_sign (ed_privateKey s) m = Inr g \<Longrightarrow> g \<noteq> [] \<and> subtle_verify (ed_publicKey s) g m = Inr True"
    and "\<And>x. safeParse (wire x) = (if signed_issues zmsg is_datetime x = [] then Inr x else Inl (signed_issues zmsg is_datetime x))"
  shows "verifyReceipt safeParse (wire r) (ed25519_verify subtle_verify keys) = Inr Valid"
  by (rule signed_verifies) (fact assms)+

theorem signed_receipt_verifies_witness:
  "case signReceipt (\<lambda>_. []) (\<lambda>_. True) sample_body
      (ed25519_signer_of (\<lambda>k m. Inr (k # m)) \<lparr>ed_keyId = ''k1'', ed_publicKey = [7], ed_privateKey = 7\<rparr>) of
     Inl _ \<Rightarrow> False
   | Inr r \<Rightarrow> verifyReceipt Inr r (ed25519_verify (\<lambda>p g m. Inr (g = hd p # m)) [''k1'' \<mapsto> [7]]) = Inr Valid"
proof -
  let ?s = "\<lparr>ed_keyId = ''k1'', ed_publicKey = [7], ed_privateKey = 7\<rparr> :: byte ed25519_signer"
  let ?sign = "\<lambda>(k :: byte) m. Inr (k # m) :: byte list result"
  let ?safe = "\<lambda>x. if signed_issues (\<lambda>_. []) (\<lambda>_. True) x = [] then Inr x else Inl (signed_issues (\<lambda>_. []) (\<lambda>_. True) x)"
  obtain m where m: "canonicalBytes (body_json sample_body) = Inr m" using body_bytes_Inr by blast
  obtain r where r: "signReceipt (\<lambda>_. []) (\<lambda>_. True) sample_body (ed25519_signer_of ?sign ?s) = Inr r"
    using sample_body_ok m by (auto simp: signReceipt_def body_issues_Nil ed25519_signer_of_def)
  have "verifyReceipt ?safe (id r) (ed25519_verify (\<lambda>p g m. Inr (g = hd p # m)) [''k1'' \<mapsto> [7]]) = Inr Valid"
    by (rule signed_receipt_verifies [OF r]) (auto simp: forSigner_keys)
  moreover have "?safe r = Inr r"
    using r by (rule sign_signed) (auto simp: signed_issues_Nil ed25519_signer_of_def ED25519_def)
  ultimately show ?thesis by (simp add: r verifyReceipt_def)
qed

text \<open>C11. A valid receipt was signed as it is, or its signature is a forgery. Let \<open>issued key\<close> be the bodies that were
  ever signed with a key, any number of them. A receipt that verifies against the trusted keys names Ed25519
  and a trusted key, and its decoded signature verifies with that key on the canonical bytes of its body. If the
  body is not among those signed with the key, these bytes are none that were signed with it: no change to any field
  of a signed body leaves its bytes as they were.\<close>

theorem valid_receipt_is_signed_or_forged:
  assumes "verifyReceipt safeParse candidate (ed25519_verify subtle_verify keys) = Inr Valid"
  shows "\<exists>r key m g. safeParse candidate = Inr r \<and> sig_algorithm (signature r) = ED25519 \<and>
    keys (sig_keyId (signature r)) = Some key \<and> canonicalBytes (body_json (receipt r)) = Inr m \<and>
    base64UrlToBytes (sig_value (signature r)) = Inr g \<and> subtle_verify key g m = Inr True \<and>
    (receipt r \<in> issued key \<or> (\<forall>b\<in>issued key. canonicalBytes (body_json b) \<noteq> Inr m))"
proof -
  from assms obtain r m g where r: "safeParse candidate = Inr r" "canonicalBytes (body_json (receipt r)) = Inr m"
      "base64UrlToBytes (sig_value (signature r)) = Inr g"
    and v: "ed25519_verify subtle_verify keys m g (sig_keyId (signature r)) (sig_algorithm (signature r)) = Inr True"
    by (auto simp: verifyReceipt_def split: sum.splits bool.splits)
  from v obtain key where "sig_algorithm (signature r) = ED25519" "keys (sig_keyId (signature r)) = Some key"
    "subtle_verify key g m = Inr True" by (auto simp: ed25519_verify_def split: if_splits option.splits)
  moreover have "receipt r \<in> issued key" if "b \<in> issued key" "canonicalBytes (body_json b) = Inr m" for b
    using that r(2) body_bytes_inject [of b "receipt r"] by simp
  ultimately show ?thesis using r by blast
qed

definition sample_signed :: "string \<Rightarrow> signed_receipt" where
  "sample_signed v = \<lparr>receipt = sample_body,
     signature = \<lparr>sig_keyId = ''k1'', sig_algorithm = ED25519, sig_value = v\<rparr>\<rparr>"

text \<open>A key that has signed two bodies of other amounts, and a verifier that accepts a signature of a third.\<close>

theorem valid_receipt_is_signed_or_forged_witness:
  "verifyReceipt Inr (sample_signed ''AQ'') (ed25519_verify (\<lambda>_ g _. Inr (g = [1])) [''k1'' \<mapsto> [7]]) = Inr Valid \<and>
   canonicalBytes (body_json (sample_body\<lparr>body_amount := ''8''\<rparr>)) \<noteq> canonicalBytes (body_json sample_body) \<and>
   canonicalBytes (body_json (sample_body\<lparr>body_amount := ''9''\<rparr>)) \<noteq> canonicalBytes (body_json sample_body)"
proof -
  let ?bs = "{sample_body\<lparr>body_amount := ''8''\<rparr>, sample_body\<lparr>body_amount := ''9''\<rparr>}"
  obtain m where m: "canonicalBytes (body_json sample_body) = Inr m" using body_bytes_Inr by blast
  have b: "base64UrlToBytes ''AQ'' = Inr [1]" by code_simp
  have v: "verifyReceipt Inr (sample_signed ''AQ'') (ed25519_verify (\<lambda>_ g _. Inr (g = [1])) [''k1'' \<mapsto> [7]]) = Inr Valid"
    by (simp add: verifyReceipt_def sample_signed_def m b ed25519_verify_def)
  have "sample_body \<notin> ?bs" by (simp add: sample_body_def)
  with valid_receipt_is_signed_or_forged [OF v, of "\<lambda>_. ?bs"] v m show ?thesis by (auto simp: sample_signed_def)
qed

text \<open>A receipt that satisfies the schema can make \<open>verifyReceipt\<close> throw an untyped error instead of
  returning a verdict: any signature value outside the base64url alphabet does.\<close>

theorem verify_throws_on_undecodable_signature:
  "signed_issues zmsg (\<lambda>_. True) (sample_signed ''*'') = [] \<and>
   (\<exists>e. verifyReceipt Inr (sample_signed ''*'') verify = Inl e \<and> error_code e = None)"
proof -
  have b: "base64UrlToBytes ''*'' = Inl (PlatformError ''InvalidCharacterError'' ''The string to be decoded is not correctly encoded.'')"
    by code_simp
  obtain m where m: "canonicalBytes (body_json sample_body) = Inr m" using body_bytes_Inr by blast
  show ?thesis
    using sample_body_ok b m by (simp add: signed_issues_Nil sample_signed_def verifyReceipt_def ED25519_def)
qed

end
