(* ===== verification/Reconcile.thy ===== *)
theory Reconcile
  imports ChannelSteps Receipt
begin

text \<open>
  The reconciler of \<open>packages/reconcile/src/index.ts\<close>. \<open>channel_drifts\<close> is the
  list \<open>drifts\<close> that the body of \<open>reconcileChannel\<close> collects up to whichever \<open>buildResult\<close> it returns
  through. The specification \<open>clean_close\<close> says when a stream of commitments and a settlement agree.
\<close>

record commitment_record =
  rec_channelId :: string
  rec_sequence :: int
  rec_cumulativeAmount :: string

record settlement_record =
  set_channelId :: string
  set_settledAmount :: string
  set_returnedRemainder :: string
  set_txHash :: string

datatype drift_kind =
    Under_settled | Over_settled | Missing_commitment | Unexpected_remainder | Sequence_gap | Malformed_record

record drift =
  drift_kind :: drift_kind
  drift_detail :: string

datatype reconciliation_result =
    Reconciled (result_channel: string)
  | Drifted (result_channel: string) (result_drift: "drift list")

definition parse_record_amount :: "string \<Rightarrow> string \<Rightarrow> drift + nat" where
  "parse_record_amount value field =
     (if AMOUNT_RE value then Inr (BigInt value)
      else Inl \<lparr>drift_kind = Malformed_record,
                drift_detail = field @ '' \"'' @ value @ ''\" is not a valid non-negative integer string''\<rparr>)"

type_synonym suppress_hook = "(drift \<Rightarrow> string \<Rightarrow> bool) option"

definition buildResult :: "string \<Rightarrow> drift list \<Rightarrow> suppress_hook \<Rightarrow> reconciliation_result" where
  "buildResult channelId drifts suppress =
     (let active = (case suppress of Some f \<Rightarrow> filter (\<lambda>d. \<not> f d channelId) drifts | None \<Rightarrow> drifts)
      in if active = [] then Reconciled channelId else Drifted channelId active)"

text \<open>The loop over \<open>sorted.entries()\<close>, which stops at the first gap.\<close>

fun sequence_gap :: "nat \<Rightarrow> commitment_record list \<Rightarrow> drift list" where
  "sequence_gap i [] = []"
| "sequence_gap i (e # es) =
     (if rec_sequence e \<noteq> int i
      then [\<lparr>drift_kind = Sequence_gap, drift_detail = ''sequence gap at position '' @ nat_toString i @
              '': expected sequence '' @ nat_toString i @ '', got '' @ int_toString (rec_sequence e)\<rparr>]
      else sequence_gap (Suc i) es)"

definition settled_drift :: "settlement_record \<Rightarrow> commitment_record \<Rightarrow> nat \<Rightarrow> nat \<Rightarrow> drift list" where
  "settled_drift settlement latest settled lastCumulative =
     (if settled < lastCumulative
      then [\<lparr>drift_kind = Under_settled, drift_detail =
              ''channel settled '' @ set_settledAmount settlement @ '' but last commitment was '' @
              rec_cumulativeAmount latest @ '' (sequence '' @ int_toString (rec_sequence latest) @
              ''); shortfall: '' @ nat_toString (lastCumulative - settled)\<rparr>]
      else if settled > lastCumulative
      then [\<lparr>drift_kind = Over_settled, drift_detail =
              ''channel settled '' @ set_settledAmount settlement @ '' but last commitment was only '' @
              rec_cumulativeAmount latest @ '' (sequence '' @ int_toString (rec_sequence latest) @
              ''); excess: '' @ nat_toString (settled - lastCumulative)\<rparr>]
      else [])"

definition lost_drift :: "settlement_record \<Rightarrow> commitment_record \<Rightarrow> nat \<Rightarrow> nat \<Rightarrow> nat \<Rightarrow> drift list" where
  "lost_drift settlement latest settled remainder lastCumulative =
     (if settled + remainder = 0 \<and> lastCumulative > 0
      then [\<lparr>drift_kind = Unexpected_remainder, drift_detail =
              ''settled ('' @ set_settledAmount settlement @ '') + returnedRemainder ('' @
              set_returnedRemainder settlement @ '') is zero but commitments totalled '' @
              rec_cumulativeAmount latest @ ''; channel funds appear lost''\<rparr>]
      else [])"

definition channel_drifts :: "commitment_record list \<Rightarrow> settlement_record \<Rightarrow> drift list" where
  "channel_drifts commitments settlement =
     (case parse_record_amount (set_settledAmount settlement) ''settledAmount'' of
        Inl d \<Rightarrow> [d]
      | Inr settled \<Rightarrow>
          (case parse_record_amount (set_returnedRemainder settlement) ''returnedRemainder'' of
             Inl d \<Rightarrow> [d]
           | Inr remainder \<Rightarrow>
               if commitments = [] then
                 (if settled > 0
                  then [\<lparr>drift_kind = Missing_commitment, drift_detail =
                          ''settlement settled '' @ set_settledAmount settlement @
                          '' but no commitment records found for channel '' @ set_channelId settlement\<rparr>]
                  else [])
               else
                 let ordered = sort_key rec_sequence commitments;
                     gap = sequence_gap 0 ordered;
                     latest = last ordered
                 in (case parse_record_amount (rec_cumulativeAmount latest)
                         (''commitments['' @ int_toString (rec_sequence latest) @ ''].cumulativeAmount'') of
                       Inl d \<Rightarrow> gap @ [d]
                     | Inr lastCumulative \<Rightarrow>
                         gap @ settled_drift settlement latest settled lastCumulative @
                         lost_drift settlement latest settled remainder lastCumulative)))"

definition reconcileChannel ::
  "suppress_hook \<Rightarrow> commitment_record list \<Rightarrow> settlement_record \<Rightarrow> reconciliation_result" where
  "reconcileChannel suppress commitments settlement =
     buildResult (set_channelId settlement) (channel_drifts commitments settlement) suppress"

definition reconcileCharge ::
  "(zod_check \<Rightarrow> string) \<Rightarrow> (string \<Rightarrow> bool) \<Rightarrow> suppress_hook \<Rightarrow> signed_receipt \<Rightarrow> reconciliation_result" where
  "reconcileCharge zmsg is_datetime suppress r =
     (let channelId = (case body_settlement (receipt r) of
            Channel_commitment_ref i q \<Rightarrow> i | Transaction_ref h \<Rightarrow> h);
          drifts = map (\<lambda>issue. \<lparr>drift_kind = Malformed_record, drift_detail =
              ''receipt structural error at '' @ join_with ''.'' (fst issue) @ '': '' @ snd issue\<rparr>)
            (signed_issues zmsg is_datetime r)
      in buildResult channelId drifts suppress)"

subsection \<open>When a close is clean\<close>

definition clean_close :: "commitment_record list \<Rightarrow> settlement_record \<Rightarrow> bool" where
  "clean_close commitments settlement \<longleftrightarrow>
     AMOUNT_RE (set_settledAmount settlement) \<and> AMOUNT_RE (set_returnedRemainder settlement) \<and>
     mset (map rec_sequence commitments) = mset (map int [0..<length commitments]) \<and>
     (if commitments = [] then BigInt (set_settledAmount settlement) = 0
      else \<exists>m\<in>set commitments. rec_sequence m = int (length commitments) - 1 \<and>
             AMOUNT_RE (rec_cumulativeAmount m) \<and>
             BigInt (rec_cumulativeAmount m) = BigInt (set_settledAmount settlement))"

lemma sequence_gap_Nil: "sequence_gap i es = [] \<longleftrightarrow> map rec_sequence es = map int [i..<i + length es]"
proof (induction es arbitrary: i)
  case (Cons e es)
  have "[i..<i + length (e # es)] = i # [Suc i..<Suc i + length es]" by (simp del: upt_Suc add: upt_conv_Cons [of i])
  with Cons.IH [of "Suc i"] show ?case by simp
qed simp

lemma sorted_map_int_upt [simp]: "sorted (map int [i..<j])"
  by (simp add: sorted_iff_nth_mono)

lemma sort_contiguous:
  "map rec_sequence (sort_key rec_sequence cs) = map int [0..<length cs] \<longleftrightarrow>
   mset (map rec_sequence cs) = mset (map int [0..<length cs])"
proof
  assume "map rec_sequence (sort_key rec_sequence cs) = map int [0..<length cs]"
  then have "mset (map rec_sequence (sort_key rec_sequence cs)) = mset (map int [0..<length cs])" by simp
  then show "mset (map rec_sequence cs) = mset (map int [0..<length cs])" by (simp only: mset_map mset_sort)
next
  assume m: "mset (map rec_sequence cs) = mset (map int [0..<length cs])"
  have "sort (map int [0..<length cs]) = map rec_sequence (sort_key rec_sequence cs)"
    by (rule properties_for_sort) (use m in \<open>simp_all only: mset_map mset_sort sorted_sort_key\<close>)
  then show "map rec_sequence (sort_key rec_sequence cs) = map int [0..<length cs]"
    by (simp add: sorted_sort_id)
qed

lemma last_sorted:
  assumes "cs \<noteq> []" "mset (map rec_sequence cs) = mset (map int [0..<length cs])"
  shows "m \<in> set cs \<and> rec_sequence m = int (length cs) - 1 \<longleftrightarrow> m = last (sort_key rec_sequence cs)"
proof -
  let ?s = "sort_key rec_sequence cs"
  have seq: "map rec_sequence ?s = map int [0..<length cs]" using assms(2) by (simp only: sort_contiguous)
  have ne: "?s \<noteq> []" using assms(1) by (metis length_0_conv length_sort)
  have "rec_sequence (last ?s) = last (map rec_sequence ?s)" by (rule last_map [OF ne, symmetric])
  also have "\<dots> = int (length cs) - 1" unfolding seq using assms(1) by (cases cs) (simp_all add: last_map)
  finally have l: "rec_sequence (last ?s) = int (length cs) - 1" .
  have inj: "inj_on rec_sequence (set cs)"
  proof -
    have "distinct (map rec_sequence ?s)" unfolding seq by (simp add: distinct_map)
    then show ?thesis by (simp add: distinct_map)
  qed
  have "last ?s \<in> set cs" using last_in_set [OF ne] by simp
  with l inj show ?thesis by (metis inj_onD)
qed

lemma channel_drifts_Nil: "channel_drifts cs st = [] \<longleftrightarrow> clean_close cs st"
proof (cases "cs = []")
  case True
  then show ?thesis by (simp add: channel_drifts_def clean_close_def parse_record_amount_def)
next
  case False
  let ?l = "last (sort_key rec_sequence cs)"
  show ?thesis
  proof (cases "mset (map rec_sequence cs) = mset (map int [0..<length cs])")
    case True
    then have gap: "sequence_gap 0 (sort_key rec_sequence cs) = []"
      by (simp only: sequence_gap_Nil length_sort add_0 sort_contiguous)
    have "(\<exists>m\<in>set cs. rec_sequence m = int (length cs) - 1 \<and> P m) \<longleftrightarrow> P ?l" for P
      unfolding Bex_def conj_assoc [symmetric] last_sorted [OF False True] by simp
    with gap True False show ?thesis
      by (auto simp: channel_drifts_def clean_close_def parse_record_amount_def settled_drift_def
          lost_drift_def Let_def)
  next
    case ne: False
    then have "sequence_gap 0 (sort_key rec_sequence cs) \<noteq> []"
      by (simp only: sequence_gap_Nil length_sort add_0 sort_contiguous) simp
    with False ne show ?thesis
      by (auto simp: channel_drifts_def clean_close_def parse_record_amount_def Let_def split: sum.splits)
  qed
qed

lemma buildResult_ok:
  "buildResult i ds hook = Reconciled j \<longleftrightarrow> i = j \<and> list_all (\<lambda>d. \<exists>f. hook = Some f \<and> f d i) ds"
  by (auto simp: buildResult_def Let_def list_all_iff filter_empty_conv split: option.splits) (cases ds; auto)

lemma reconcileCharge_ok:
  "(\<exists>i. reconcileCharge zmsg is_datetime None r = Reconciled i) \<longleftrightarrow>
     well_formed is_datetime (receipt r) \<and> sig_keyId (signature r) \<noteq> [] \<and>
     sig_algorithm (signature r) \<noteq> [] \<and> sig_value (signature r) \<noteq> []"
  unfolding signed_issues_Nil [of zmsg, symmetric]
  by (cases "signed_issues zmsg is_datetime r") (simp_all add: reconcileCharge_def buildResult_ok Let_def)

lemma buildResult_channel [simp]: "result_channel (buildResult i ds hook) = i"
  by (simp add: buildResult_def Let_def)


text \<open>Distinct sequence numbers make the answer independent of the input's order.\<close>

lemma channel_drifts_mset:
  assumes "mset xs = mset ys" "distinct (map rec_sequence xs)"
  shows "channel_drifts xs st = channel_drifts ys st"
proof -
  have "xs = [] \<longleftrightarrow> ys = []" using assms(1) by auto
  then show ?thesis by (simp only: channel_drifts_def sort_key_mset [OF assms])
qed

subsection \<open>Records of a tracked channel\<close>

definition record_of :: "commitment \<Rightarrow> commitment_record" where
  "record_of m = \<lparr>rec_channelId = cm_channelId m, rec_sequence = cm_sequence m,
     rec_cumulativeAmount = cm_cumulativeAmount m\<rparr>"

definition settlement_of :: "string \<Rightarrow> close_adapter_result \<Rightarrow> settlement_record" where
  "settlement_of i answer = \<lparr>set_channelId = i, set_settledAmount = ca_settledAmount answer,
     set_returnedRemainder = ca_returnedRemainder answer, set_txHash = ca_settlementTxHash answer\<rparr>"

lemma stream_clean:
  assumes "stream_ok i d st" "AMOUNT_RE (ca_returnedRemainder answer)" "ca_settledAmount answer = latest_amount st"
  shows "clean_close (map record_of st) (settlement_of i answer)"
proof (cases st rule: rev_cases)
  case Nil
  with assms show ?thesis
    by (simp add: clean_close_def settlement_of_def latest_amount_def BigInt_zero_string del: BigInt_single)
next
  case (snoc ms m)
  from assms(1) have seq: "map cm_sequence st = map int [0..<length st]" by (simp add: stream_ok_def)
  have "map rec_sequence (map record_of st) = map int [0..<length st]"
    by (simp add: record_of_def comp_def seq)
  moreover have "cm_sequence m = int (length st) - 1" using seq by (simp add: snoc)
  moreover have "AMOUNT_RE (cm_cumulativeAmount m)"
    using assms(1) by (simp add: snoc stream_ok_def canonical_amount_def)
  ultimately show ?thesis
    using assms(2,3) by (simp add: clean_close_def settlement_of_def latest_amount_def snoc record_of_def del: map_map)
qed


lemma record_latest:
  assumes "channel_ok c st" "ch_id c = i" "AMOUNT_RE rem"
  shows "clean_close (map record_of st) \<lparr>set_channelId = i, set_settledAmount = ch_committed c,
     set_returnedRemainder = rem, set_txHash = h\<rparr>"
  using stream_clean [of i "BigInt (ch_deposit c)" st
      "\<lparr>ca_settlementTxHash = h, ca_settledAmount = ch_committed c, ca_returnedRemainder = rem\<rparr>"] assms
  by (simp add: channel_ok_def settlement_of_def)

lemma reconcile_clean:
  "clean_close cs st \<Longrightarrow> reconcileChannel hook cs st = Reconciled (set_channelId st)"
  by (simp add: reconcileChannel_def buildResult_ok channel_drifts_Nil [THEN iffD2])

lemma close_success:
  assumes "reachable s" "close memory_store adapter i s = (Inr r, s')"
  shows "\<exists>c. mem_getChannel i s' = Some c \<and> ch_status c = Status_closed \<and> ch_id c = i \<and>
     channel_ok c (mem_listCommitments i s')"
proof -
  have reach: "reachable s'" using reachable_steps(4) [OF assms(1)] assms(2) by (metis snd_conv)
  obtain c0 where c0: "mem_getChannel i s = Some c0" "ch_status c0 = Status_open"
    using assms(2) by (auto simp: close_def split: option.splits if_splits)
  have "map_option ch_status (mem_getChannel i s') = Some Status_closed"
    using mem.close_outcome [OF reachable_manager_inv [OF assms(1)], of i c0 adapter i] c0 assms(2)
    by (auto split: sum.splits if_splits)
  then obtain c where "mem_getChannel i s' = Some c" "ch_status c = Status_closed" by auto
  with reachable_channel_ok [OF reach this(1)] reachable_list [OF reach this(1)] show ?thesis by auto
qed

text \<open>A close that succeeds records as committed what the adapter said it settled.\<close>

lemma close_answer:
  assumes "reachable s" "close memory_store adapter i s = (Inr r, s')" "mem_getChannel i s = Some c"
    and "closeChannel adapter (close_input i c (mem_listCommitments i s)) = Inr answer"
  shows "map_option ch_committed (mem_getChannel i s') = Some (ca_settledAmount answer)"
proof -
  have "ch_status c = Status_open" using assms(2,3) by (auto simp: close_def split: if_splits)
  with mem.close_outcome [OF reachable_manager_inv [OF assms(1)], of i c adapter i] assms(2-4) show ?thesis
    by (auto split: if_splits)
qed

subsection \<open>Properties\<close>

text \<open>C16. The reconciler reports no drift exactly for a clean close: both on-chain amounts are integer
  strings, the sequence numbers are a permutation of 0, 1, ..., n-1, and the settled amount is the
  cumulative amount of the commitment with the highest sequence (zero when there are none). With a
  suppression hook it reports none exactly when the hook accepts every drift found.\<close>

theorem reconciler_accepts_exactly_clean_closes:
  "(reconcileChannel None cs st = Reconciled (set_channelId st) \<longleftrightarrow> clean_close cs st) \<and>
   (reconcileChannel (Some f) cs st = Reconciled (set_channelId st) \<longleftrightarrow>
      list_all (\<lambda>d. f d (set_channelId st)) (channel_drifts cs st))"
  by (simp add: reconcileChannel_def buildResult_ok channel_drifts_Nil [symmetric] list_all_iff filter_empty_conv)

text \<open>The answer, with every detail, does not depend on the order in which the commitment records
  are given, when their sequence numbers are distinct.\<close>

theorem reconciler_order_independent:
  assumes "mset xs = mset ys" and "distinct (map rec_sequence xs)"
  shows "reconcileChannel hook xs st = reconcileChannel hook ys st"
  by (simp add: reconcileChannel_def channel_drifts_mset [OF assms])

theorem reconciler_order_independent_witness:
  "let a = \<lparr>rec_channelId = ''C1'', rec_sequence = 0, rec_cumulativeAmount = ''30''\<rparr>;
       b = \<lparr>rec_channelId = ''C1'', rec_sequence = 1, rec_cumulativeAmount = ''60''\<rparr>;
       st = \<lparr>set_channelId = ''C1'', set_settledAmount = ''50'', set_returnedRemainder = ''50'', set_txHash = ''tx''\<rparr>
   in reconcileChannel None [a, b] st = reconcileChannel None [b, a] st"
  unfolding Let_def by (rule reconciler_order_independent) simp_all

text \<open>C30. What the channel manager closes, the reconciler accepts. When \<open>close\<close> succeeds on a manager with the in-memory
  store, then the settlement that the adapter answered with, its amount and its remainder, reconciles with the stored
  stream without drift, whatever the adapter and the hook, as long as the answered remainder is an integer string. So
  an adapter that settles more or less than was committed never gets a channel closed.\<close>

theorem managed_close_reconciles_clean:
  assumes "reachable s" and "close memory_store adapter i s = (Inr r, s')" and "mem_getChannel i s = Some c"
    and "closeChannel adapter (close_input i c (mem_listCommitments i s)) = Inr answer" and "AMOUNT_RE (ca_returnedRemainder answer)"
  shows "map_option ch_status (mem_getChannel i s') = Some Status_closed \<and>
    reconcileChannel hook (map record_of (mem_listCommitments i s')) (settlement_of i answer) = Reconciled i"
proof -
  from close_success [OF assms(1,2)] obtain c' where
    c': "mem_getChannel i s' = Some c'" "ch_status c' = Status_closed" "ch_id c' = i" "channel_ok c' (mem_listCommitments i s')"
    by blast
  have "ca_settledAmount answer = ch_committed c'"
    using close_answer [OF assms(1,2,3,4)] c'(1) by simp
  with record_latest [OF c'(4,3) assms(5), of "ca_settlementTxHash answer"]
  have "clean_close (map record_of (mem_listCommitments i s')) (settlement_of i answer)" by (simp add: settlement_of_def)
  from reconcile_clean [OF this] c'(1,2) show ?thesis by (simp add: settlement_of_def)
qed

theorem managed_close_reconciles_clean_witness:
  "map_option ch_status (mem_getChannel ''C1'' (snd (close memory_store (sample_adapter ''C1'') ''C1'' (sample_store 2)))) = Some Status_closed"
proof -
  let ?a = "sample_adapter ''C1''"
  have run: "close memory_store ?a ''C1'' (sample_store 2) =
    (Inr \<lparr>cr_channelId = ''C1'', cr_settlementTxHash = ''tx-close'', cr_returnedRemainder = ''40''\<rparr>,
     snd (close memory_store ?a ''C1'' (sample_store 2)))"
    by (rule prod_eqI) (simp_all only: fst_conv snd_conv, code_simp)
  obtain c where c: "mem_getChannel ''C1'' (sample_store 2) = Some c" using sample_store_value by auto
  obtain answer where a: "closeChannel ?a (close_input ''C1'' c (mem_listCommitments ''C1'' (sample_store 2))) = Inr answer"
    "AMOUNT_RE (ca_returnedRemainder answer)" by (simp add: sample_adapter_def)
  from managed_close_reconciles_clean [OF sample_store_reachable run c a] show ?thesis by blast
qed

text \<open>The two commits that overlapped and share a sequence number are what reconciliation catches: their
  stream has a gap, whatever is settled.\<close>

theorem overlapping_commits_are_flagged:
  "let (s, calls) = run_schedule [0, 1, 0, 1, 0, 1, 0, 1, 0, 1] (sample_store 0,
       [Commit_call ''C1'' ''60'' Commit_called, Commit_call ''C1'' ''70'' Commit_called])
   in map drift_kind (channel_drifts (map record_of (mem_listCommitments ''C1'' s))
        \<lparr>set_channelId = ''C1'', set_settledAmount = ''70'', set_returnedRemainder = ''30'', set_txHash = ''tx''\<rparr>)
      = [Sequence_gap]"
  by code_simp

text \<open>Beyond its format, the returned remainder is not checked once anything settled, and neither is the
  channel a commitment record names: any two remainders, and any renaming of the records' channels,
  give the same answer.\<close>

theorem reconciler_ignores_remainder_and_owner:
  assumes "AMOUNT_RE rem" and "AMOUNT_RE rem'" and "0 < BigInt (set_settledAmount st)"
  shows "reconcileChannel hook (map (\<lambda>m. m\<lparr>rec_channelId := owner m\<rparr>) cs) (st\<lparr>set_returnedRemainder := rem\<rparr>) =
         reconcileChannel hook cs (st\<lparr>set_returnedRemainder := rem'\<rparr>)"
proof -
  have gap: "sequence_gap n (map (\<lambda>m. m\<lparr>rec_channelId := owner m\<rparr>) es) = sequence_gap n es" for n es
    by (induction es arbitrary: n) simp_all
  have "channel_drifts (map (\<lambda>m. m\<lparr>rec_channelId := owner m\<rparr>) cs) (st\<lparr>set_returnedRemainder := rem\<rparr>) =
        channel_drifts cs (st\<lparr>set_returnedRemainder := rem'\<rparr>)"
  proof (cases cs rule: rev_cases)
    case Nil
    then show ?thesis using assms by (simp add: channel_drifts_def parse_record_amount_def)
  next
    case (snoc ms m)
    then have "sort_key rec_sequence cs \<noteq> []" by (metis append_is_Nil_conv length_0_conv length_sort not_Cons_self2)
    then show ?thesis using assms snoc
      by (simp add: channel_drifts_def parse_record_amount_def sort_key_map gap last_map settled_drift_def
          lost_drift_def Let_def del: map_append)
  qed
  then show ?thesis by (simp add: reconcileChannel_def)
qed

theorem reconciler_ignores_remainder_and_owner_witness:
  "reconcileChannel None [\<lparr>rec_channelId = ''C2'', rec_sequence = 0, rec_cumulativeAmount = ''30''\<rparr>]
     \<lparr>set_channelId = ''C1'', set_settledAmount = ''30'', set_returnedRemainder = ''999999'', set_txHash = ''tx''\<rparr> = Reconciled ''C1''"
proof -
  have n: "AMOUNT_RE ''999999''" "AMOUNT_RE ''70''" "0 < BigInt ''30''" by code_simp+
  have "reconcileChannel None [\<lparr>rec_channelId = ''C1'', rec_sequence = 0, rec_cumulativeAmount = ''30''\<rparr>]
     \<lparr>set_channelId = ''C1'', set_settledAmount = ''30'', set_returnedRemainder = ''70'', set_txHash = ''tx''\<rparr> = Reconciled ''C1''"
    by code_simp
  with reconciler_ignores_remainder_and_owner [OF n(1,2), of
      "\<lparr>set_channelId = ''C1'', set_settledAmount = ''30'', set_returnedRemainder = [], set_txHash = ''tx''\<rparr>" None
      "\<lambda>_. ''C2''" "[\<lparr>rec_channelId = ''C1'', rec_sequence = 0, rec_cumulativeAmount = ''30''\<rparr>]"] n(3)
  show ?thesis by simp
qed

end
