(* ===== verification/Headers.thy ===== *)
theory Headers
  imports Receipt
begin

text \<open>
  The x402 headers, \<open>packages/server/src/headers.ts\<close>, with \<open>JSON.stringify\<close> written out. Decoding
  uses the platform's UTF-8 decoder and \<open>JSON.parse\<close>, which are arguments. The headers of a request
  are the list of its entries in order.
\<close>

definition PAYMENT_REQUIRED_HEADER :: string where
  "PAYMENT_REQUIRED_HEADER = ''PAYMENT-REQUIRED''"

definition PAYMENT_SIGNATURE_HEADER :: string where
  "PAYMENT_SIGNATURE_HEADER = ''PAYMENT-SIGNATURE''"

definition PAYMENT_RESPONSE_HEADER :: string where
  "PAYMENT_RESPONSE_HEADER = ''PAYMENT-RESPONSE''"

text \<open>\<open>JSON.stringify\<close>: properties in order, undefined ones dropped, numbers that are not finite as null.\<close>

primrec json_stringify :: "json \<Rightarrow> string" where
  "json_stringify JNull = ''null''"
| "json_stringify (JBool b) = (if b then ''true'' else ''false'')"
| "json_stringify (JInt i) = int_toString i"
| "json_stringify (JNonFinite name) = ''null''"
| "json_stringify (JStr s) = json_quote s"
| "json_stringify (JArr vs) = ''['' @ join_with '','' (map json_stringify vs) @ '']''"
| "json_stringify (JObj fs) = ''{'' @ join_with '','' (map (\<lambda>(key, part). json_quote key @ '':'' @ part)
     (present (map (map_prod id (map_option json_stringify)) fs))) @ ''}''"

definition encodeHeader :: "json \<Rightarrow> string" where
  "encodeHeader v = bytesToBase64Url (utf8Bytes (json_stringify v))"

definition decodeHeader :: "(byte list \<Rightarrow> string) \<Rightarrow> (string \<Rightarrow> json result) \<Rightarrow> string \<Rightarrow> json result" where
  "decodeHeader text_decode json_parse v =
     (case base64UrlToBytes v of Inl e \<Rightarrow> Inl e | Inr bytes \<Rightarrow> json_parse (text_decode bytes))"

datatype header_value = Header_undefined | Header_single string | Header_list "string list"

definition to_lower :: "char \<Rightarrow> char" where
  "to_lower c =
     (let n = (of_char c :: nat)
      in if 65 \<le> n \<and> n \<le> 90 \<or> 192 \<le> n \<and> n \<le> 222 \<and> n \<noteq> 215 then char_of (n + 32) else c)"

fun header_text :: "header_value \<Rightarrow> string option" where
  "header_text Header_undefined = None"
| "header_text (Header_single s) = Some s"
| "header_text (Header_list []) = None"
| "header_text (Header_list (s # _)) = Some s"

fun readHeader :: "(string \<times> header_value) list \<Rightarrow> string \<Rightarrow> string option" where
  "readHeader [] name = None"
| "readHeader ((key, v) # rest) name =
     (if map to_lower key = map to_lower name then header_text v else readHeader rest name)"

text \<open>The header carries the value: decoding gives back what was encoded.\<close>

lemma decode_encode:
  assumes "text_decode (utf8Bytes (json_stringify v)) = json_stringify v" "json_parse (json_stringify v) = Inr v"
  shows "decodeHeader text_decode json_parse (encodeHeader v) = Inr v"
  using assms by (simp add: decodeHeader_def encodeHeader_def base64Url_roundtrip)

lemma json_stringify_print: "plain v \<Longrightarrow> json_stringify v = print_json v"
proof (induction v)
  case (JArr vs)
  then show ?case by (simp add: list_all_iff cong: map_cong)
next
  case (JObj fs)
  have m: "map (map_prod id (map_option json_stringify)) fs = map (map_prod id (map_option print_json)) fs"
  proof (rule map_cong [OF refl])
    fix x assume x: "x \<in> set fs"
    from plain_field [OF JObj.prems [unfolded plain.simps] x] obtain k u where "x = (k, Some u)" "plain u" by blast
    with JObj.IH [OF x, of "Some u" u]
    show "map_prod id (map_option json_stringify) x = map_prod id (map_option print_json) x" by simp
  qed
  show ?case by (simp only: json_stringify.simps print_json.simps m)
qed simp_all

text \<open>Different plain values have different headers.\<close>

lemma encodeHeader_inject:
  assumes "plain v" "plain w" shows "encodeHeader v = encodeHeader w \<longleftrightarrow> v = w"
proof
  assume "encodeHeader v = encodeHeader w"
  then have "utf8Bytes (json_stringify v) = utf8Bytes (json_stringify w)"
    using base64Url_roundtrip unfolding encodeHeader_def by (metis sum.inject(2))
  then have "print_json v @ [] = print_json w @ []"
    by (simp add: utf8Bytes_inject json_stringify_print assms)
  with print_json_append [OF assms, of "[]" "[]"] show "v = w" by (simp add: delim_def)
qed simp

end
