(* ===== verification/Cache.thy ===== *)
theory Cache
  imports Headers
begin

text \<open>
  The idempotency cache, \<open>packages/server/src/cache.ts\<close>: its interface, the in-memory cache with
  expiry, and the cache over an injected Redis-like client. Operations run in a world of any type and
  may throw. For the in-memory cache the world is a pair of its entries with the clock and the rest of
  the world.

  The laws a cache without locks gives its users are the locale \<open>receipt_store\<close>, interpreted on the
  in-memory cache with its default lifetime.
\<close>

subsection \<open>The interface\<close>

record 'w settlement_cache =
  cache_get :: "string \<Rightarrow> 'w \<Rightarrow> signed_receipt option result \<times> 'w"
  cache_set :: "string \<Rightarrow> signed_receipt \<Rightarrow> 'w \<Rightarrow> unit result \<times> 'w"
  cache_acquire :: "(string \<Rightarrow> int \<Rightarrow> 'w \<Rightarrow> bool result \<times> 'w) option"
  cache_release :: "(string \<Rightarrow> 'w \<Rightarrow> unit result \<times> 'w) option"

subsection \<open>In memory\<close>

record entry =
  entry_receipt :: signed_receipt
  entry_expiresAt :: int

record mem_cache =
  cache_entries :: "(string, entry) js_map"
  cache_clock :: int

definition memory_get :: "string \<Rightarrow> mem_cache \<Rightarrow> signed_receipt option \<times> mem_cache" where
  "memory_get key w =
     (case cache_entries w key of
        None \<Rightarrow> (None, w)
      | Some e \<Rightarrow>
          if entry_expiresAt e \<le> cache_clock w
          then (None, w\<lparr>cache_entries := (cache_entries w)(key := None)\<rparr>)
          else (Some (entry_receipt e), w))"

definition memory_set :: "int \<Rightarrow> string \<Rightarrow> signed_receipt \<Rightarrow> mem_cache \<Rightarrow> mem_cache" where
  "memory_set ttlMs key r w =
     w\<lparr>cache_entries := (cache_entries w)(key \<mapsto> \<lparr>entry_receipt = r, entry_expiresAt = cache_clock w + ttlMs\<rparr>)\<rparr>"

definition createInMemorySettlementCache :: "int \<Rightarrow> (mem_cache \<times> 'h) settlement_cache" where
  "createInMemorySettlementCache ttlMs =
     \<lparr>cache_get = (\<lambda>key (c, h). case memory_get key c of (r, c') \<Rightarrow> (Inr r, (c', h))),
      cache_set = (\<lambda>key r (c, h). (Inr (), (memory_set ttlMs key r c, h))),
      cache_acquire = None, cache_release = None\<rparr>"

text \<open>What a lookup at the present time would return.\<close>

definition memory_lookup :: "string \<Rightarrow> mem_cache \<times> 'h \<Rightarrow> signed_receipt option" where
  "memory_lookup key w =
     (case cache_entries (fst w) key of
        None \<Rightarrow> None
      | Some e \<Rightarrow> if entry_expiresAt e \<le> cache_clock (fst w) then None else Some (entry_receipt e))"

locale receipt_store =
  fixes C :: "'w settlement_cache" and lookup :: "string \<Rightarrow> 'w \<Rightarrow> signed_receipt option"
  assumes get_result: "fst (cache_get C key w) = Inr (lookup key w)"
    and get_frame: "lookup k (snd (cache_get C key w)) = lookup k w"
    and set_result: "fst (cache_set C key r w) = Inr ()"
    and set_lookup: "lookup k (snd (cache_set C key r w)) = (if k = key then Some r else lookup k w)"
    and no_lock: "cache_acquire C = None"
begin

lemmas cache_laws = get_result get_frame set_result set_lookup no_lock

lemma get_after_set: "fst (cache_get C key (snd (cache_set C key r w))) = Inr (Some r)"
  by (simp add: cache_laws)

lemma get_pair: "cache_get C key w = (Inr (lookup key w), snd (cache_get C key w))"
  using get_result [of key w] by (metis prod.collapse)

lemma set_pair: "cache_set C key r w = (Inr (), snd (cache_set C key r w))"
  using set_result [of key r w] by (metis prod.collapse)

end

lemma memory_cache_laws:
  "0 < ttl \<Longrightarrow> receipt_store (createInMemorySettlementCache ttl) memory_lookup"
  by unfold_locales
    (auto simp: createInMemorySettlementCache_def memory_get_def memory_set_def memory_lookup_def
      split: option.splits prod.splits)

interpretation mem_cache: receipt_store "createInMemorySettlementCache 30000" memory_lookup
  by (rule memory_cache_laws) simp

text \<open>An entry lives exactly as long as its lifetime.\<close>

lemma memory_set_lifetime:
  "fst (memory_get key ((memory_set ttl key r w)\<lparr>cache_clock := cache_clock w + d\<rparr>)) = (if d < ttl then Some r else None)"
  by (simp add: memory_get_def memory_set_def)

subsection \<open>Redis\<close>

record 'w redis_client =
  redis_get :: "string \<Rightarrow> 'w \<Rightarrow> string option result \<times> 'w"
  redis_set_ex :: "string \<Rightarrow> string \<Rightarrow> int \<Rightarrow> 'w \<Rightarrow> unit result \<times> 'w"
  redis_set_nx :: "string \<Rightarrow> string \<Rightarrow> int \<Rightarrow> 'w \<Rightarrow> string option result \<times> 'w"
  redis_del :: "string \<Rightarrow> 'w \<Rightarrow> unit result \<times> 'w"

record 'w redis_options =
  redis_client :: "'w redis_client"
  redis_ttlMs :: "int option"
  redis_keyPrefix :: "string option"

definition DEFAULT_REDIS_TTL_MS :: int where
  "DEFAULT_REDIS_TTL_MS = 30000"

definition DEFAULT_REDIS_KEY_PREFIX :: string where
  "DEFAULT_REDIS_KEY_PREFIX = ''tollway:settlement:''"

text \<open>\<open>Math.ceil(n / d)\<close>.\<close>

definition ceil_div :: "int \<Rightarrow> int \<Rightarrow> int" where
  "ceil_div n d = - ((- n) div d)"

definition signed_json :: "signed_receipt \<Rightarrow> json" where
  "signed_json r = JObj
     [(''receipt'', Some (body_json (receipt r))),
      (''signature'', Some (JObj
         [(''keyId'', Some (JStr (sig_keyId (signature r)))),
          (''algorithm'', Some (JStr (sig_algorithm (signature r)))),
          (''value'', Some (JStr (sig_value (signature r))))]))]"

definition redis_lookup ::
  "(string \<Rightarrow> json result) \<Rightarrow> (json \<Rightarrow> issue list + signed_receipt) \<Rightarrow> string option \<Rightarrow> signed_receipt option" where
  "redis_lookup json_parse safeParse raw =
     (case raw of
        None \<Rightarrow> None
      | Some s \<Rightarrow>
          (case json_parse s of
             Inl _ \<Rightarrow> None
           | Inr candidate \<Rightarrow> (case safeParse candidate of Inl _ \<Rightarrow> None | Inr r \<Rightarrow> Some r)))"

definition createRedisSettlementCache ::
  "(string \<Rightarrow> json result) \<Rightarrow> (json \<Rightarrow> issue list + signed_receipt) \<Rightarrow> 'w redis_options \<Rightarrow> 'w settlement_cache" where
  "createRedisSettlementCache json_parse safeParse opts =
     (let client = redis_client opts;
          ttlMs = or_default (redis_ttlMs opts) DEFAULT_REDIS_TTL_MS;
          keyPrefix = or_default (redis_keyPrefix opts) DEFAULT_REDIS_KEY_PREFIX;
          ttlSeconds = max 1 (ceil_div ttlMs 1000)
      in \<lparr>cache_get = (\<lambda>key w.
            (case redis_get client (keyPrefix @ key) w of
               (Inl e, w') \<Rightarrow> (Inl e, w')
             | (Inr raw, w') \<Rightarrow> (Inr (redis_lookup json_parse safeParse raw), w'))),
          cache_set = (\<lambda>key r w. redis_set_ex client (keyPrefix @ key) (json_stringify (signed_json r)) ttlSeconds w),
          cache_acquire = Some (\<lambda>key lockTtlMs w.
            (case redis_set_nx client (keyPrefix @ ''lock:'' @ key) ''1'' (max 1 lockTtlMs) w of
               (Inl e, w') \<Rightarrow> (Inl e, w')
             | (Inr reply, w') \<Rightarrow> (Inr (reply = Some ''OK''), w'))),
          cache_release = Some (\<lambda>key w. redis_del client (keyPrefix @ ''lock:'' @ key) w)\<rparr>)"

text \<open>What is written is what a lookup parses back.\<close>

lemma redis_lookup_written:
  assumes "json_parse (json_stringify (signed_json r)) = Inr (signed_json r)" "safeParse (signed_json r) = Inr r"
  shows "redis_lookup json_parse safeParse (Some (json_stringify (signed_json r))) = Some r"
  using assms by (simp add: redis_lookup_def)

lemma redis_get_never_throws_on_content:
  assumes "redis_get (redis_client opts) (or_default (redis_keyPrefix opts) DEFAULT_REDIS_KEY_PREFIX @ key) w = (Inr raw, w')"
  shows "cache_get (createRedisSettlementCache json_parse safeParse opts) key w =
    (Inr (redis_lookup json_parse safeParse raw), w')"
  using assms by (simp add: createRedisSettlementCache_def Let_def)

end
