(* ===== verification/Hash.thy ===== *)
theory Hash
  imports Dates
begin

text \<open>
  The deterministic hashing of the mocks, \<open>packages/server/src/hash.ts\<close>. \<open>fnv1a\<close> works on a 32-bit
  word: \<open>Math.imul\<close> is the word product and \<open>>>> 0\<close> reads it unsigned. The loop of \<open>mockHex\<close>
  terminates because every round adds eight digits; its output has exactly the requested length.
\<close>

unbundle bit_operations_syntax

definition fnv1a :: "string \<Rightarrow> 32 word" where
  "fnv1a input = foldl (\<lambda>hash c. (hash XOR word_of_nat (of_char c)) * 0x01000193) 0x811c9dc5 input"

text \<open>\<open>toString(16)\<close> of a non-negative integer.\<close>

definition hex_char :: "nat \<Rightarrow> char" where
  "hex_char d = (if d < 10 then char_of (d + 48) else char_of (d + 87))"

fun nat_toHex :: "nat \<Rightarrow> string" where
  "nat_toHex n = (if n < 16 then [hex_char n] else nat_toHex (n div 16) @ [hex_char (n mod 16)])"

declare nat_toHex.simps [simp del]

lemma length_nat_toHex: "n < 16 ^ k \<Longrightarrow> 0 < k \<Longrightarrow> length (nat_toHex n) \<le> k"
proof (induction n arbitrary: k rule: nat_toHex.induct)
  case (1 n)
  show ?case
  proof (cases "n < 16")
    case True
    with 1 show ?thesis by (simp add: nat_toHex.simps [of n])
  next
    case False
    from 1 False obtain j where k: "k = Suc j" "0 < j" by (cases k) (auto simp: not_less, metis gr0I power_0 power_one_right mult.right_neutral not_less)
    with 1 have "n div 16 < 16 ^ j" by (simp add: less_mult_imp_div_less mult.commute)
    with 1 False k have "length (nat_toHex (n div 16)) \<le> j" by blast
    with False k show ?thesis by (simp add: nat_toHex.simps [of n])
  qed
qed

definition hash_block :: "string \<Rightarrow> nat \<Rightarrow> string" where
  "hash_block input rnd = padStart 8 (nat_toHex (unat (fnv1a (input @ '':'' @ nat_toString rnd))))"

lemma length_hash_block [simp]: "length (hash_block input rnd) = 8"
proof -
  have "unat (w :: 32 word) < 16 ^ 8" for w using unsigned_less [of w] by simp
  from length_nat_toHex [OF this] show ?thesis by (simp add: hash_block_def padStart_def)
qed

text \<open>The loop \<open>while (out.length < length)\<close>.\<close>

function hash_rounds :: "string \<Rightarrow> nat \<Rightarrow> nat \<Rightarrow> string \<Rightarrow> string" where
  "hash_rounds input len rnd out =
     (if length out < len then hash_rounds input len (Suc rnd) (out @ hash_block input rnd) else out)"
  by pat_completeness auto
termination
  by (relation "measure (\<lambda>(input, len, rnd, out). len - length out)") auto

declare hash_rounds.simps [simp del]

definition mockHex :: "string \<Rightarrow> nat \<Rightarrow> string" where
  "mockHex input len = take len (hash_rounds input len 0 [])"

definition to_upper :: "char \<Rightarrow> char" where
  "to_upper c = (let n = (of_char c :: nat) in if 97 \<le> n \<and> n \<le> 122 then char_of (n - 32) else c)"

definition mockAccount :: "string \<Rightarrow> string" where
  "mockAccount seed = ''G'' @ map to_upper (mockHex seed 55)"

lemma length_hash_rounds: "len \<le> length (hash_rounds input len rnd out)"
proof (induction input len rnd out rule: hash_rounds.induct)
  case (1 input len rnd out)
  then show ?case by (subst hash_rounds.simps) (auto simp: not_less)
qed

lemma hash_rounds_blocks:
  "len \<le> length out + 8 * k \<Longrightarrow>
   take len (hash_rounds input len r out) = take len (out @ concat (map (hash_block input) [r..<r + k]))"
proof (induction k arbitrary: r out)
  case 0
  then show ?case by (subst hash_rounds.simps) simp
next
  case (Suc k)
  show ?case
  proof (cases "length out < len")
    case True
    have "[r..<r + Suc k] = r # [Suc r..<Suc r + k]" by (simp add: upt_conv_Cons del: upt_Suc)
    with True Suc.prems Suc.IH [of "out @ hash_block input r" "Suc r"] show ?thesis
      by (subst hash_rounds.simps) simp
  next
    case False
    then show ?thesis by (subst hash_rounds.simps) simp
  qed
qed

lemma mockHex_blocks: "mockHex input len = take len (concat (map (hash_block input) [0..<(len + 7) div 8]))"
proof -
  have "len \<le> 8 * ((len + 7) div 8)" by presburger
  then show ?thesis using hash_rounds_blocks [of len "[]" "(len + 7) div 8" input 0] by (simp add: mockHex_def)
qed

lemma length_mockHex [simp]: "length (mockHex input len) = len"
  using length_hash_rounds [of len input 0 "[]"] by (simp add: mockHex_def)

lemma length_mockAccount [simp]: "length (mockAccount seed) = 56"
  by (simp add: mockAccount_def)


subsection \<open>Property\<close>

text \<open>The loop of \<open>mockHex\<close> ends for every input and length, after as many rounds of eight digits as
  are needed: the result has exactly the requested length and is the beginning of the concatenated
  blocks, and an account id has the 56 characters of a Stellar address.\<close>

theorem mock_hex_has_requested_length:
  "length (mockHex input len) = len \<and> length (mockAccount input) = 56 \<and>
   mockHex input len = take len (concat (map (hash_block input) [0..<(len + 7) div 8]))"
  using length_mockHex [of input len] mockHex_blocks [of input len] by simp

end
