(* ===== verification/Handlers.thy ===== *)
theory Handlers
  imports Hash Canonical
begin

text \<open>
  The payment handlers of the gate: the facilitator of \<open>packages/server/src/facilitator.ts\<close> (the offline
  mock and the HTTP client's wrapper) and the MPP charge handler of \<open>mpp-charge.ts\<close> (the mock, the stub
  that throws, and the nonce). The client of the x402 packages, their constants and SHA-256 are
  arguments; what the wrapper makes of every answer and error of that client is modelled.
\<close>

subsection \<open>Handlers\<close>

datatype verify_result = Verified (verified_payer: string) (verified_nonce: string) | Not_verified string

datatype settle_result = Settled (settled_txHash: string) | Not_settled string

record 'w handler =
  h_verify :: "payment_payload \<Rightarrow> payment_offer \<Rightarrow> 'w \<Rightarrow> verify_result result \<times> 'w"
  h_settle :: "payment_payload \<Rightarrow> payment_offer \<Rightarrow> string \<Rightarrow> string \<Rightarrow> 'w \<Rightarrow> settle_result result \<times> 'w"

record supported_result =
  supported_models :: "settlement_model list"
  supported_assets :: "string list"

subsection \<open>The mocks\<close>

definition mock_verify :: "string \<Rightarrow> string \<Rightarrow> verify_result" where
  "mock_verify empty_reason proof_text =
     (if proof_text = [] then Not_verified empty_reason
      else Verified (mockAccount proof_text) (mockHex proof_text 32))"

definition mock_settle :: "payment_offer \<Rightarrow> string \<Rightarrow> settle_result" where
  "mock_settle offer nonce = Settled (mockHex (nonce @ '':'' @ offer_resource offer) 64)"

definition createMockFacilitator :: "'w handler" where
  "createMockFacilitator =
     \<lparr>h_verify = (\<lambda>payment offer w. (Inr (mock_verify ''empty payment signature'' (paymentSignature payment)), w)),
      h_settle = (\<lambda>payment offer payer nonce w. (Inr (mock_settle offer nonce), w))\<rparr>"

definition mock_supported :: supported_result where
  "mock_supported = \<lparr>supported_models = [X402], supported_assets = []\<rparr>"

definition createMockMppChargeHandler :: "'w handler" where
  "createMockMppChargeHandler =
     \<lparr>h_verify = (\<lambda>payment offer w. (Inr (mock_verify ''empty mpp charge payload'' (charge_payload payment)), w)),
      h_settle = (\<lambda>payment offer payer nonce w. (Inr (mock_settle offer nonce), w))\<rparr>"

definition createMppChargeHandler :: "'w handler result" where
  "createMppChargeHandler = Inl (NotImplementedError ''createMppChargeHandler'' ''docs/design.md, \"Build plan\", Phase 1'')"

subsection \<open>Nonces\<close>

definition deriveNonce :: "(byte list \<Rightarrow> byte list result) \<Rightarrow> string \<Rightarrow> string result" where
  "deriveNonce sha256 transaction = map_sum id bytesToBase64Url (sha256 (utf8Bytes transaction))"

definition deriveMppChargeNonce :: "(byte list \<Rightarrow> byte list result) \<Rightarrow> string \<Rightarrow> string result" where
  "deriveMppChargeNonce sha256 payload = map_sum id bytesToBase64Url (sha256 (utf8Bytes payload))"

text \<open>Two payments share a nonce only where SHA-256 collides.\<close>

lemma deriveNonce_collision:
  assumes "deriveNonce sha256 p = Inr n" "deriveNonce sha256 q = Inr n"
  shows "\<exists>d. sha256 (utf8Bytes p) = Inr d \<and> sha256 (utf8Bytes q) = Inr d"
  using assms base64Url_roundtrip unfolding deriveNonce_def
  by (cases "sha256 (utf8Bytes p)"; cases "sha256 (utf8Bytes q)") (auto, metis sum.inject(2))

subsection \<open>The HTTP facilitator\<close>

record payment_requirements =
  req_scheme :: string
  req_network :: string
  req_asset :: string
  req_amount :: string
  req_payTo :: string
  req_maxTimeoutSeconds :: int
  req_extra :: "(string \<times> json option) list"

record facilitator_payload =
  fp_x402Version :: int
  fp_accepted :: payment_requirements
  fp_transaction :: string

record verify_response =
  vr_isValid :: bool
  vr_invalidReason :: "string option"
  vr_invalidMessage :: "string option"
  vr_payer :: "string option"

record settle_response =
  sr_success :: bool
  sr_errorReason :: "string option"
  sr_errorMessage :: "string option"
  sr_transaction :: string

text \<open>An error of the client: its structured rejection (\<open>VerifyError\<close>, \<open>SettleError\<close>) or any other.\<close>

datatype client_error = Structured "string option" "string option" | Other_error js_error

record 'w http_client =
  hc_verify :: "facilitator_payload \<Rightarrow> payment_requirements \<Rightarrow> 'w \<Rightarrow> (client_error + verify_response) \<times> 'w"
  hc_settle :: "facilitator_payload \<Rightarrow> payment_requirements \<Rightarrow> 'w \<Rightarrow> (client_error + settle_response) \<times> 'w"
  hc_getSupported :: "'w \<Rightarrow> (js_error + string list) \<times> 'w"

record http_facilitator_options =
  opt_maxTimeoutSeconds :: "int option"
  opt_extra :: "(string \<times> json option) list option"

definition STELLAR_EXACT_SCHEME :: string where
  "STELLAR_EXACT_SCHEME = ''exact''"

definition DEFAULT_MAX_TIMEOUT_SECONDS :: int where
  "DEFAULT_MAX_TIMEOUT_SECONDS = 60"

fun first_reason :: "string option list \<Rightarrow> string" where
  "first_reason [] = ''unknown reason''"
| "first_reason (Some (c # cs) # rest) = c # cs"
| "first_reason (_ # rest) = first_reason rest"

definition toRequirements ::
  "(stellar_network \<Rightarrow> string option) \<Rightarrow> http_facilitator_options \<Rightarrow> payment_offer \<Rightarrow> payment_requirements result" where
  "toRequirements NETWORK_CAIP2 opts offer =
     (case NETWORK_CAIP2 (offer_network offer) of
        None \<Rightarrow> Inl (TollwayError Payment_failed
          (''no CAIP-2 mapping for network \"'' @ network_str (offer_network offer) @
           ''\"; the x402 facilitator needs stellar:testnet or stellar:pubnet''))
      | Some network \<Rightarrow> Inr
          \<lparr>req_scheme = STELLAR_EXACT_SCHEME, req_network = network, req_asset = offer_asset offer,
           req_amount = offer_amount offer, req_payTo = offer_payTo offer,
           req_maxTimeoutSeconds = (case opt_maxTimeoutSeconds opts of Some n \<Rightarrow> n | None \<Rightarrow> DEFAULT_MAX_TIMEOUT_SECONDS),
           req_extra = (case opt_extra opts of Some x \<Rightarrow> x | None \<Rightarrow> [])\<rparr>)"

definition toPayload :: "int \<Rightarrow> payment_payload \<Rightarrow> payment_requirements \<Rightarrow> facilitator_payload" where
  "toPayload x402Version payment requirements =
     \<lparr>fp_x402Version = x402Version, fp_accepted = requirements, fp_transaction = paymentSignature payment\<rparr>"

definition http_verify_answer ::
  "(byte list \<Rightarrow> byte list result) \<Rightarrow> payment_payload \<Rightarrow> client_error + verify_response \<Rightarrow> verify_result result" where
  "http_verify_answer sha256 payment answer =
     (case answer of
        Inl (Structured invalidReason invalidMessage) \<Rightarrow>
          Inr (Not_verified (first_reason [invalidReason, invalidMessage, Some ''payment rejected'']))
      | Inl (Other_error e) \<Rightarrow>
          Inl (TollwayError Payment_failed (''facilitator /verify request failed: '' @ error_message e))
      | Inr response \<Rightarrow>
          if \<not> vr_isValid response then
            Inr (Not_verified (first_reason [vr_invalidReason response, vr_invalidMessage response, Some ''payment rejected'']))
          else
            (case vr_payer response of
               Some (c # cs) \<Rightarrow> map_sum id (Verified (c # cs)) (deriveNonce sha256 (paymentSignature payment))
             | _ \<Rightarrow> Inr (Not_verified ''facilitator verified the payment but returned no payer'')))"

definition http_settle_answer :: "client_error + settle_response \<Rightarrow> settle_result result" where
  "http_settle_answer answer =
     (case answer of
        Inl (Structured errorReason errorMessage) \<Rightarrow>
          Inr (Not_settled (first_reason [errorReason, errorMessage, Some ''settlement rejected'']))
      | Inl (Other_error e) \<Rightarrow>
          Inl (TollwayError Payment_failed (''facilitator /settle request failed: '' @ error_message e))
      | Inr response \<Rightarrow>
          if \<not> sr_success response then
            Inr (Not_settled (first_reason [sr_errorReason response, sr_errorMessage response, Some ''settlement rejected'']))
          else Inr (Settled (sr_transaction response)))"

definition createHttpFacilitator ::
  "(stellar_network \<Rightarrow> string option) \<Rightarrow> int \<Rightarrow> (byte list \<Rightarrow> byte list result) \<Rightarrow> 'w http_client \<Rightarrow>
   http_facilitator_options \<Rightarrow> 'w handler" where
  "createHttpFacilitator NETWORK_CAIP2 x402Version sha256 client opts =
     \<lparr>h_verify = (\<lambda>payment offer w.
        (case toRequirements NETWORK_CAIP2 opts offer of
           Inl e \<Rightarrow> (Inl e, w)
         | Inr requirements \<Rightarrow>
             (case hc_verify client (toPayload x402Version payment requirements) requirements w of
                (answer, w') \<Rightarrow> (http_verify_answer sha256 payment answer, w')))),
      h_settle = (\<lambda>payment offer payer nonce w.
        (case toRequirements NETWORK_CAIP2 opts offer of
           Inl e \<Rightarrow> (Inl e, w)
         | Inr requirements \<Rightarrow>
             (case hc_settle client (toPayload x402Version payment requirements) requirements w of
                (answer, w') \<Rightarrow> (http_settle_answer answer, w'))))\<rparr>"

definition http_supported :: "'w http_client \<Rightarrow> 'w \<Rightarrow> supported_result result \<times> 'w" where
  "http_supported client w =
     (case hc_getSupported client w of
        (Inl e, w') \<Rightarrow>
          (Inl (TollwayError Payment_failed (''facilitator /supported request failed: '' @ error_message e)), w')
      | (Inr schemes, w') \<Rightarrow>
          (Inr \<lparr>supported_models = (if STELLAR_EXACT_SCHEME \<in> set schemes then [X402] else []),
                supported_assets = []\<rparr>, w'))"

text \<open>No rejection has an empty reason.\<close>

lemma first_reason_not_Nil: "first_reason rs \<noteq> []"
  by (induction rs rule: first_reason.induct) simp_all

lemma http_verify_answer_reason:
  "http_verify_answer sha256 payment answer = Inr (Not_verified reason) \<Longrightarrow> reason \<noteq> []"
  by (auto simp: http_verify_answer_def first_reason_not_Nil split: sum.splits client_error.splits if_splits
      option.splits list.splits) (cases "deriveNonce sha256 (paymentSignature payment)"; simp)+

end
