(* ===== verification/Gate.thy ===== *)
theory Gate
  imports Cache Handlers Router
begin

text \<open>
  The gate between a request and a paid resource, \<open>packages/server/src/gate.ts\<close>. Every injected part
  (handler, cache, signer, router, error callback) may throw, and all but the router and the signer may
  change the world they run in. A call runs here without interruption; the promises of settlements that
  are in progress when it starts are the argument \<open>inFlight\<close>, a map to what each will resolve to.
  \<open>GateSteps\<close> interleaves calls. Thrown values are errors, so \<open>asError\<close> returns them as they are.
\<close>

subsection \<open>Requests, configuration, outcomes\<close>

record tollway_request =
  rq_method :: string
  rq_url :: string
  rq_headers :: "(string \<times> header_value) list"

record paywall_config =
  pw_amount :: string
  pw_asset :: string
  pw_payTo :: string
  pw_network :: stellar_network
  pw_models :: "settlement_model list option"
  pw_resource :: "string option"
  pw_facilitatorUrl :: "string option"

datatype gate_outcome =
    Payment_required (required_headers: "(string \<times> string) list") (challenge: payment_offer)
  | Gate_settled (settled_headers: "(string \<times> string) list") (settled_receipt: signed_receipt)
      (settled_replayed: bool) (settled_cacheError: "js_error option")
  | Rejected (rejected_status: nat) (rejected_reason: string)

datatype settlement_result =
    Settlement_ok (result_receipt: signed_receipt) (result_replayed: bool) (result_cacheError: "js_error option")
  | Settlement_not_ok (not_ok_status: nat) (not_ok_reason: string)

record 'w settlement_context =
  ctx_signer :: receipt_signer
  ctx_cache :: "'w settlement_cache option"
  ctx_onCacheError :: "(js_error \<Rightarrow> string \<Rightarrow> 'w \<Rightarrow> unit result \<times> 'w) option"
  ctx_zmsg :: "zod_check \<Rightarrow> string"
  ctx_is_datetime :: "string \<Rightarrow> bool"
  ctx_uuid :: "'w \<Rightarrow> string"
  ctx_now :: "'w \<Rightarrow> string"

definition SETTLEMENT_LOCK_TTL_MS :: int where
  "SETTLEMENT_LOCK_TTL_MS = 30000"

definition OFFER_MISMATCH :: gate_outcome where
  "OFFER_MISMATCH = Rejected 409 ''payment already settled for a different offer''"

definition SETTLEMENT_IN_PROGRESS :: settlement_result where
  "SETTLEMENT_IN_PROGRESS = Settlement_not_ok 409 ''settlement in progress''"

subsection \<open>Binding a receipt to an offer\<close>

definition offerBinding :: "payment_offer \<Rightarrow> settlement_model \<Rightarrow> string result" where
  "offerBinding offer model = canonicalJson (JObj
     [(''model'', Some (JStr (model_str model))), (''network'', Some (JStr (network_str (offer_network offer)))),
      (''resource'', Some (JStr (offer_resource offer))), (''amount'', Some (JStr (offer_amount offer))),
      (''asset'', Some (JStr (offer_asset offer))), (''payee'', Some (JStr (offer_payTo offer)))])"

definition receiptBinding :: "signed_receipt \<Rightarrow> string result" where
  "receiptBinding sgnd = (let body = receipt sgnd in canonicalJson (JObj
     [(''model'', Some (JStr (model_str (body_model body)))), (''network'', Some (JStr (network_str (body_network body)))),
      (''resource'', Some (JStr (body_resource body))), (''amount'', Some (JStr (body_amount body))),
      (''asset'', Some (JStr (body_asset body))), (''payee'', Some (JStr (body_payee body)))]))"

definition toOutcome ::
  "settlement_result \<Rightarrow> payment_offer \<Rightarrow> settlement_model \<Rightarrow> bool \<Rightarrow> gate_outcome result" where
  "toOutcome r offer model waited =
     (case r of
        Settlement_not_ok status reason \<Rightarrow> Inr (Rejected status reason)
      | Settlement_ok sgnd replayed cacheError \<Rightarrow>
          (case (receiptBinding sgnd, offerBinding offer model) of
             (Inl e, _) \<Rightarrow> Inl e
           | (_, Inl e) \<Rightarrow> Inl e
           | (Inr rb, Inr ob) \<Rightarrow>
               if rb \<noteq> ob then Inr OFFER_MISMATCH
               else Inr (Gate_settled [(PAYMENT_RESPONSE_HEADER, encodeHeader (signed_json sgnd))] sgnd
                      (waited \<or> replayed) (if waited then None else cacheError))))"

subsection \<open>Settling\<close>

definition report_cache_error :: "'w settlement_context \<Rightarrow> js_error \<Rightarrow> string \<Rightarrow> 'w \<Rightarrow> unit result \<times> 'w" where
  "report_cache_error ctx e key w =
     (case ctx_onCacheError ctx of None \<Rightarrow> (Inr (), w) | Some callback \<Rightarrow> callback e key w)"

definition receipt_input :: "payment_offer \<Rightarrow> settlement_model \<Rightarrow> string \<Rightarrow> string \<Rightarrow> build_receipt_input" where
  "receipt_input offer model payer txHash =
     \<lparr>bi_id = None, bi_payer = payer, bi_payee = offer_payTo offer, bi_amount = offer_amount offer,
      bi_asset = offer_asset offer, bi_resource = offer_resource offer, bi_model = model,
      bi_settlement = Transaction_ref txHash, bi_network = offer_network offer, bi_issuedAt = None\<rparr>"

definition issue_receipt ::
  "'w settlement_context \<Rightarrow> payment_offer \<Rightarrow> settlement_model \<Rightarrow> string \<Rightarrow> string \<Rightarrow> 'w \<Rightarrow> signed_receipt result" where
  "issue_receipt ctx offer model payer txHash w =
     (case buildReceipt (ctx_zmsg ctx) (ctx_is_datetime ctx) (ctx_uuid ctx w) (ctx_now ctx w)
         (receipt_input offer model payer txHash) of
        Inl e \<Rightarrow> Inl e
      | Inr body \<Rightarrow> signReceipt (ctx_zmsg ctx) (ctx_is_datetime ctx) body (ctx_signer ctx))"

definition record_settlement ::
  "'w settlement_context \<Rightarrow> string \<Rightarrow> signed_receipt \<Rightarrow> 'w \<Rightarrow> settlement_result result \<times> 'w" where
  "record_settlement ctx key r w =
     (case ctx_cache ctx of
        None \<Rightarrow> (Inr (Settlement_ok r False None), w)
      | Some cache \<Rightarrow>
          (case cache_set cache key r w of
             (Inr _, w1) \<Rightarrow> (Inr (Settlement_ok r False None), w1)
           | (Inl cacheError, w1) \<Rightarrow>
               (case report_cache_error ctx cacheError key w1 of
                  (Inl e, w2) \<Rightarrow> (Inl e, w2)
                | (Inr _, w2) \<Rightarrow> (Inr (Settlement_ok r False (Some cacheError)), w2))))"

definition settleAndRecord ::
  "'w settlement_context \<Rightarrow> 'w handler \<Rightarrow> payment_payload \<Rightarrow> payment_offer \<Rightarrow> settlement_model \<Rightarrow>
   string \<Rightarrow> string \<Rightarrow> string \<Rightarrow> 'w \<Rightarrow> settlement_result result \<times> 'w" where
  "settleAndRecord ctx handler payment offer model payer nonce key w =
     (case h_settle handler payment offer payer nonce w of
        (Inl e, w1) \<Rightarrow> (Inl e, w1)
      | (Inr (Not_settled reason), w1) \<Rightarrow> (Inr (Settlement_not_ok 502 reason), w1)
      | (Inr (Settled txHash), w1) \<Rightarrow>
          (case issue_receipt ctx offer model payer txHash w1 of
             Inl e \<Rightarrow> (Inl e, w1)
           | Inr r \<Rightarrow> record_settlement ctx key r w1))"

definition releaseOrThrow :: "(string \<Rightarrow> 'w \<Rightarrow> unit result \<times> 'w) \<Rightarrow> string \<Rightarrow> js_error \<Rightarrow> 'w \<Rightarrow> js_error \<times> 'w" where
  "releaseOrThrow release key original w =
     (case release key w of
        (Inr _, w1) \<Rightarrow> (original, w1)
      | (Inl releaseFailure, w1) \<Rightarrow>
          (AggregateError [original, releaseFailure]
             ''settlement failed and the settlement lock could not be released'', w1))"

text \<open>The end of \<open>settleOnce\<close>: the lock is released after a result.\<close>

definition release_after ::
  "'w settlement_context \<Rightarrow> (string \<Rightarrow> 'w \<Rightarrow> unit result \<times> 'w) \<Rightarrow> string \<Rightarrow> settlement_result \<Rightarrow> 'w \<Rightarrow>
   settlement_result result \<times> 'w" where
  "release_after ctx release key r w =
     (case release key w of
        (Inr _, w1) \<Rightarrow> (Inr r, w1)
      | (Inl releaseError, w1) \<Rightarrow>
          (case r of
             Settlement_not_ok _ _ \<Rightarrow> (Inl releaseError, w1)
           | Settlement_ok sgnd replayed cacheError \<Rightarrow>
               if replayed then (Inl releaseError, w1)
               else
                 (case report_cache_error ctx releaseError key w1 of
                    (Inl e, w2) \<Rightarrow> (Inl e, w2)
                  | (Inr _, w2) \<Rightarrow>
                      (Inr (Settlement_ok sgnd replayed (Some (or_default cacheError releaseError))), w2))))"

definition settleOnce ::
  "'w settlement_context \<Rightarrow> 'w handler \<Rightarrow> payment_payload \<Rightarrow> payment_offer \<Rightarrow> settlement_model \<Rightarrow>
   string \<Rightarrow> string \<Rightarrow> string \<Rightarrow> 'w \<Rightarrow> settlement_result result \<times> 'w" where
  "settleOnce ctx handler payment offer model payer nonce key w =
     (case ctx_cache ctx of
        None \<Rightarrow> settleAndRecord ctx handler payment offer model payer nonce key w
      | Some cache \<Rightarrow>
          (case cache_get cache key w of
             (Inl e, w1) \<Rightarrow> (Inl e, w1)
           | (Inr (Some cached), w1) \<Rightarrow> (Inr (Settlement_ok cached True None), w1)
           | (Inr None, w1) \<Rightarrow>
               (case (cache_acquire cache, cache_release cache) of
                  (Some acquire, Some release) \<Rightarrow>
                    (case acquire key SETTLEMENT_LOCK_TTL_MS w1 of
                       (Inl e, w2) \<Rightarrow> (Inl e, w2)
                     | (Inr False, w2) \<Rightarrow> (Inr SETTLEMENT_IN_PROGRESS, w2)
                     | (Inr True, w2) \<Rightarrow>
                         (case (case cache_get cache key w2 of
                                  (Inl e, w3) \<Rightarrow> (Inl e, w3)
                                | (Inr (Some settledElsewhere), w3) \<Rightarrow>
                                    (Inr (Settlement_ok settledElsewhere True None), w3)
                                | (Inr None, w3) \<Rightarrow>
                                    settleAndRecord ctx handler payment offer model payer nonce key w3) of
                            (Inl e, w4) \<Rightarrow> map_prod Inl id (releaseOrThrow release key e w4)
                          | (Inr r, w4) \<Rightarrow> release_after ctx release key r w4))
                | _ \<Rightarrow> settleAndRecord ctx handler payment offer model payer nonce key w1)))"

definition settlement_key :: "settlement_model \<Rightarrow> string \<Rightarrow> string" where
  "settlement_key model nonce = model_str model @ '':'' @ nonce"

definition settleWithHandler ::
  "'w settlement_context \<Rightarrow> (string, settlement_result result) js_map \<Rightarrow> 'w handler \<Rightarrow> payment_payload \<Rightarrow>
   payment_offer \<Rightarrow> settlement_model \<Rightarrow> 'w \<Rightarrow> gate_outcome result \<times> 'w" where
  "settleWithHandler ctx inFlight handler payment offer model w =
     (case h_verify handler payment offer w of
        (Inl e, w1) \<Rightarrow> (Inl e, w1)
      | (Inr (Not_verified reason), w1) \<Rightarrow> (Inr (Rejected 402 reason), w1)
      | (Inr (Verified payer nonce), w1) \<Rightarrow>
          let key = settlement_key model nonce
          in (case inFlight key of
                Some (Inl e) \<Rightarrow> (Inl e, w1)
              | Some (Inr r) \<Rightarrow> (toOutcome r offer model True, w1)
              | None \<Rightarrow>
                  (case settleOnce ctx handler payment offer model payer nonce key w1 of
                     (Inl e, w2) \<Rightarrow> (Inl e, w2)
                   | (Inr r, w2) \<Rightarrow> (toOutcome r offer model False, w2))))"

subsection \<open>The gate\<close>

record 'w paywall_deps =
  dep_facilitator :: "'w handler"
  dep_mppChargeHandler :: "'w handler option"
  dep_router :: "(route_input \<Rightarrow> route_decision result) option"

definition offer_of_config :: "paywall_config \<Rightarrow> tollway_request \<Rightarrow> payment_offer" where
  "offer_of_config config request =
     \<lparr>offer_resource = or_default (pw_resource config) (rq_url request), offer_amount = pw_amount config,
      offer_asset = pw_asset config, offer_payTo = pw_payTo config, offer_network = pw_network config,
      offer_models = or_default (pw_models config) [X402], offer_mppSessionSupported = None,
      offer_facilitatorUrl = pw_facilitatorUrl config\<rparr>"

definition offer_json :: "payment_offer \<Rightarrow> json" where
  "offer_json offer = JObj
     [(''resource'', Some (JStr (offer_resource offer))), (''amount'', Some (JStr (offer_amount offer))),
      (''asset'', Some (JStr (offer_asset offer))), (''payTo'', Some (JStr (offer_payTo offer))),
      (''network'', Some (JStr (network_str (offer_network offer)))),
      (''models'', Some (JArr (map (JStr \<circ> model_str) (offer_models offer)))),
      (''facilitatorUrl'', map_option JStr (offer_facilitatorUrl offer))]"

text \<open>The routing decision: \<open>None\<close> is the undefined first element of an empty list of models.\<close>

definition gate_model ::
  "(route_input \<Rightarrow> route_decision result) option \<Rightarrow> payment_offer \<Rightarrow> settlement_model option result" where
  "gate_model router offer =
     (case router of
        Some decide \<Rightarrow>
          map_sum id (Some \<circ> decided_model)
            (decide \<lparr>route_counterparty = offer_payTo offer, route_resource = offer_resource offer,
               route_offer = Some offer, route_traffic = None, route_override = None, route_allowedModels = None\<rparr>)
      | None \<Rightarrow> Inr (case offer_models offer of [] \<Rightarrow> None | m # _ \<Rightarrow> Some m))"

definition gate ::
  "'w settlement_context \<Rightarrow> (string, settlement_result result) js_map \<Rightarrow> 'w paywall_deps \<Rightarrow> paywall_config \<Rightarrow>
   tollway_request \<Rightarrow> 'w \<Rightarrow> gate_outcome result \<times> 'w" where
  "gate ctx inFlight deps config request w =
     (let offer = offer_of_config config request
      in case readHeader (rq_headers request) PAYMENT_SIGNATURE_HEADER of
           Some (c # cs) \<Rightarrow>
             (case gate_model (dep_router deps) offer of
                Inl e \<Rightarrow> (Inl e, w)
              | Inr (Some X402) \<Rightarrow>
                  settleWithHandler ctx inFlight (dep_facilitator deps) (X402Payment (c # cs)) offer X402 w
              | Inr (Some Mpp_charge) \<Rightarrow>
                  (case dep_mppChargeHandler deps of
                     None \<Rightarrow> (Inr (Rejected 500 ''mpp-charge handler not configured''), w)
                   | Some handler \<Rightarrow>
                       settleWithHandler ctx inFlight handler (MppChargePayment (c # cs)) offer Mpp_charge w)
              | Inr m \<Rightarrow>
                  (Inr (Rejected 501 (''model \"'' @ (case m of None \<Rightarrow> ''undefined'' | Some x \<Rightarrow> model_str x) @
                     ''\" routing is selected but settlement is not implemented yet'')), w))
         | _ \<Rightarrow> (Inr (Payment_required [(PAYMENT_REQUIRED_HEADER, encodeHeader (offer_json offer))] offer), w))"

end
