(* ===== verification/GateProofs.thy ===== *)
theory GateProofs
  imports Gate
begin

text \<open>
  What the gate promises: a receipt is returned only for the offer it was issued against, a retry gets
  the original receipt without a second settlement, a failing cache never costs a payer the receipt of
  a settled payment, and a lock that was taken is released on every path.

  The laws of the cache are the locale \<open>receipt_store\<close> of \<open>Cache\<close>; what a gate replays is shown inside it, for any
  handler, and holds of the in-memory cache with any lifetime.
\<close>

subsection \<open>Bindings\<close>

definition matches :: "receipt_body \<Rightarrow> payment_offer \<Rightarrow> settlement_model \<Rightarrow> bool" where
  "matches b offer m \<longleftrightarrow>
     body_model b = m \<and> body_network b = offer_network offer \<and> body_resource b = offer_resource offer \<and>
     body_amount b = offer_amount offer \<and> body_asset b = offer_asset offer \<and> body_payee b = offer_payTo offer"

lemma binding_eq: "receiptBinding r = offerBinding offer m \<longleftrightarrow> matches (receipt r) offer m"
proof
  assume "receiptBinding r = offerBinding offer m"
  then have n: "normal (JObj
     [(''model'', Some (JStr (model_str (body_model (receipt r))))),
      (''network'', Some (JStr (network_str (body_network (receipt r))))),
      (''resource'', Some (JStr (body_resource (receipt r)))), (''amount'', Some (JStr (body_amount (receipt r)))),
      (''asset'', Some (JStr (body_asset (receipt r)))), (''payee'', Some (JStr (body_payee (receipt r))))]) =
    normal (JObj
     [(''model'', Some (JStr (model_str m))), (''network'', Some (JStr (network_str (offer_network offer)))),
      (''resource'', Some (JStr (offer_resource offer))), (''amount'', Some (JStr (offer_amount offer))),
      (''asset'', Some (JStr (offer_asset offer))), (''payee'', Some (JStr (offer_payTo offer)))])"
    unfolding receiptBinding_def offerBinding_def Let_def by (subst (asm) canonicalJson_eq_iff) simp_all
  note f = normal_JObj_field [OF n, simplified list.map map_prod_simp option.map id_apply]
  have "body_model (receipt r) = m" using f [of "''model''"] by simp
  moreover have "body_network (receipt r) = offer_network offer" using f [of "''network''"] by simp
  moreover have "body_resource (receipt r) = offer_resource offer" using f [of "''resource''"] by simp
  moreover have "body_amount (receipt r) = offer_amount offer" using f [of "''amount''"] by simp
  moreover have "body_asset (receipt r) = offer_asset offer" using f [of "''asset''"] by simp
  moreover have "body_payee (receipt r) = offer_payTo offer" using f [of "''payee''"] by simp
  ultimately show "matches (receipt r) offer m" by (simp add: matches_def)
qed (simp add: matches_def receiptBinding_def offerBinding_def Let_def)

lemma binding_Inr: "\<exists>t. receiptBinding r = Inr t" "\<exists>t. offerBinding offer m = Inr t"
  unfolding receiptBinding_def offerBinding_def Let_def
  by (rule exI, rule canonicalJson_print, simp)+

definition settled_with :: "signed_receipt \<Rightarrow> bool \<Rightarrow> js_error option \<Rightarrow> gate_outcome" where
  "settled_with r replayed ce = Gate_settled [(PAYMENT_RESPONSE_HEADER, encodeHeader (signed_json r))] r replayed ce"

lemma toOutcome_ok:
  "toOutcome (Settlement_ok r replayed ce) offer m waited =
     Inr (if matches (receipt r) offer m then settled_with r (waited \<or> replayed) (if waited then None else ce)
          else OFFER_MISMATCH)"
proof -
  obtain a where a: "receiptBinding r = Inr a" using binding_Inr by blast
  obtain b where b: "offerBinding offer m = Inr b" using binding_Inr by blast
  have "a = b \<longleftrightarrow> matches (receipt r) offer m" using binding_eq [of r offer m] by (simp add: a b)
  then show ?thesis by (simp add: toOutcome_def a b settled_with_def)
qed

lemma toOutcome_not_ok: "toOutcome (Settlement_not_ok status reason) offer m waited = Inr (Rejected status reason)"
  by (simp add: toOutcome_def)

lemmas toOutcome_simps = toOutcome_ok toOutcome_not_ok

text \<open>A receipt that was issued for this request satisfies \<open>P\<close>.\<close>

fun result_ok :: "(signed_receipt \<Rightarrow> bool) \<Rightarrow> settlement_result \<Rightarrow> bool" where
  "result_ok P (Settlement_ok r replayed ce) \<longleftrightarrow> replayed \<or> P r"
| "result_ok P (Settlement_not_ok status reason) \<longleftrightarrow> True"

lemma issue_receipt_matches:
  assumes "issue_receipt ctx offer m payer tx w = Inr r"
  shows "matches (receipt r) offer m \<and> body_settlement (receipt r) = Transaction_ref tx \<and> body_payer (receipt r) = payer \<and>
    well_formed (ctx_is_datetime ctx) (receipt r)"
proof -
  from assms obtain body where b: "buildReceipt (ctx_zmsg ctx) (ctx_is_datetime ctx) (ctx_uuid ctx w) (ctx_now ctx w)
      (receipt_input offer m payer tx) = Inr body" "signReceipt (ctx_zmsg ctx) (ctx_is_datetime ctx) body (ctx_signer ctx) = Inr r"
    by (auto simp: issue_receipt_def split: sum.splits)
  from b(1) have "body = body_of_input (ctx_uuid ctx w) (ctx_now ctx w) (receipt_input offer m payer tx)"
    by (auto simp: buildReceipt_def Let_def split: list.splits)
  moreover from b(2) have "receipt r = body \<and> well_formed (ctx_is_datetime ctx) body" by (rule sign_signed) simp
  ultimately show ?thesis by (simp add: matches_def body_of_input_def receipt_input_def)
qed

text \<open>What settling yields: a receipt that matches the offer and names the transaction, or a rejection.\<close>

lemma settleAndRecord_result:
  assumes "settleAndRecord ctx h p offer m payer nonce key w = (Inr res, w')"
  shows "result_ok (\<lambda>r. matches (receipt r) offer m) res"
  using assms
  by (auto simp: settleAndRecord_def record_settlement_def dest: issue_receipt_matches
      split: prod.splits sum.splits settle_result.splits option.splits)

lemma settleOnce_result:
  assumes "settleOnce ctx h p offer m payer nonce key w = (Inr res, w')"
  shows "result_ok (\<lambda>r. matches (receipt r) offer m) res"
  using assms
  by (auto simp: settleOnce_def release_after_def releaseOrThrow_def SETTLEMENT_IN_PROGRESS_def dest: settleAndRecord_result
      split: prod.splits sum.splits option.splits bool.splits settlement_result.splits if_splits)


lemma settleWithHandler_settled:
  assumes "settleWithHandler ctx inFlight h p offer m w = (Inr (Gate_settled hs r replayed ce), w')"
  shows "matches (receipt r) offer m \<and> hs = [(PAYMENT_RESPONSE_HEADER, encodeHeader (signed_json r))]"
proof -
  from assms obtain res waited where "toOutcome res offer m waited = Inr (Gate_settled hs r replayed ce)"
    by (auto simp: settleWithHandler_def Let_def
        split: prod.splits sum.splits verify_result.splits option.splits)
  then show ?thesis
    by (cases res) (auto simp: toOutcome_simps settled_with_def OFFER_MISMATCH_def split: if_splits)
qed

subsection \<open>Locks\<close>

lemma release_after_last:
  "\<exists>w'. snd (release_after ctx release key r w) = snd (release key w') \<or>
    (\<exists>e. fst (release key w') = Inl e \<and> snd (release_after ctx release key r w) = snd (report_cache_error ctx e key (snd (release key w'))))"
  by (intro exI [of _ w]) (auto simp: release_after_def split: prod.splits sum.splits settlement_result.splits)

lemma settleOnce_releases:
  assumes "ctx_cache ctx = Some cache" "cache_acquire cache = Some acquire" "cache_release cache = Some release"
    and "cache_get cache key w = (Inr None, w1)" "acquire key SETTLEMENT_LOCK_TTL_MS w1 = (Inr True, w2)"
  shows "\<exists>w'. snd (settleOnce ctx h p offer m payer nonce key w) = snd (release key w') \<or>
    (\<exists>e. fst (release key w') = Inl e \<and>
       snd (settleOnce ctx h p offer m payer nonce key w) = snd (report_cache_error ctx e key (snd (release key w'))))"
proof -
  obtain x w4 where x: "(case cache_get cache key w2 of
      (Inl e, w3) \<Rightarrow> (Inl e, w3)
    | (Inr (Some settledElsewhere), w3) \<Rightarrow> (Inr (Settlement_ok settledElsewhere True None), w3)
    | (Inr None, w3) \<Rightarrow> settleAndRecord ctx h p offer m payer nonce key w3) = (x, w4)"
    by (rule prod.exhaust)
  show ?thesis
  proof (cases x)
    case (Inl e)
    then show ?thesis using assms x
      by (intro exI [of _ w4]) (simp add: settleOnce_def releaseOrThrow_def split: prod.splits sum.splits)
  next
    case (Inr r)
    then show ?thesis using assms x release_after_last [of ctx release key r w4]
      by (simp add: settleOnce_def)
  qed
qed

subsection \<open>A failing cache\<close>

definition callback_returns :: "'w settlement_context \<Rightarrow> bool" where
  "callback_returns ctx \<longleftrightarrow> (\<forall>e key w. \<exists>w'. report_cache_error ctx e key w = (Inr (), w'))"

lemma callback_cases:
  assumes "callback_returns ctx"
  obtains w' where "report_cache_error ctx e key w = (Inr (), w')"
  using assms unfolding callback_returns_def by blast

lemma record_settlement_ok:
  assumes "callback_returns ctx"
  shows "\<exists>ce w'. record_settlement ctx key r w = (Inr (Settlement_ok r False ce), w')"
proof (cases "ctx_cache ctx")
  case (Some cache)
  obtain x w1 where x: "cache_set cache key r w = (x, w1)" by (rule prod.exhaust)
  show ?thesis
  proof (cases x)
    case (Inl e)
    obtain w2 where "report_cache_error ctx e key w1 = (Inr (), w2)" by (rule callback_cases [OF assms])
    then show ?thesis by (simp add: record_settlement_def Some x Inl)
  qed (simp add: record_settlement_def Some x)
qed (simp add: record_settlement_def)

lemma release_after_ok:
  assumes "callback_returns ctx"
  shows "\<exists>ce' w'. release_after ctx release key (Settlement_ok r False ce) w = (Inr (Settlement_ok r False ce'), w')"
proof -
  obtain x w1 where x: "release key w = (x, w1)" by (rule prod.exhaust)
  show ?thesis
  proof (cases x)
    case (Inl e)
    obtain w2 where "report_cache_error ctx e key w1 = (Inr (), w2)" by (rule callback_cases [OF assms])
    then show ?thesis by (simp add: release_after_def x Inl)
  qed (simp add: release_after_def x)
qed

lemma settleAndRecord_ok:
  assumes "callback_returns ctx" "h_settle h p offer payer nonce w = (Inr (Settled tx), w1)"
    and "issue_receipt ctx offer m payer tx w1 = Inr r"
  shows "\<exists>ce w'. settleAndRecord ctx h p offer m payer nonce key w = (Inr (Settlement_ok r False ce), w')"
  using record_settlement_ok [OF assms(1), of key r w1] assms(2,3) by (simp add: settleAndRecord_def)

lemma settleOnce_ok:
  assumes "callback_returns ctx" "ctx_cache ctx = Some cache" "cache_acquire cache = Some acquire"
    "cache_release cache = Some release" "cache_get cache key w = (Inr None, w1)"
    "acquire key SETTLEMENT_LOCK_TTL_MS w1 = (Inr True, w2)" "cache_get cache key w2 = (Inr None, w3)"
    "h_settle h p offer payer nonce w3 = (Inr (Settled tx), w4)" "issue_receipt ctx offer m payer tx w4 = Inr r"
  shows "\<exists>ce w'. settleOnce ctx h p offer m payer nonce key w = (Inr (Settlement_ok r False ce), w')"
proof -
  obtain ce w5 where "settleAndRecord ctx h p offer m payer nonce key w3 = (Inr (Settlement_ok r False ce), w5)"
    using settleAndRecord_ok [OF assms(1,8,9)] by blast
  with assms release_after_ok [OF assms(1)] show ?thesis by (simp add: settleOnce_def)
qed

subsection \<open>Replays\<close>

context receipt_store begin

lemma settleOnce_cached:
  assumes "ctx_cache ctx = Some C" "lookup key w = Some r"
  shows "settleOnce ctx h p offer m payer nonce key w = (Inr (Settlement_ok r True None), snd (cache_get C key w))"
proof -
  obtain w1 where "cache_get C key w = (Inr (Some r), w1)" using get_pair [of key w] assms(2) by metis
  with assms(1) show ?thesis by (simp add: settleOnce_def)
qed

lemma settleOnce_fresh:
  assumes "ctx_cache ctx = Some C" "lookup key w = None"
    and "settleOnce ctx H p offer m payer nonce key w = (Inr (Settlement_ok r replayed ce), w')"
  shows "\<not> replayed \<and> ce = None \<and> lookup key w' = Some r"
proof -
  obtain w1 where "cache_get C key w = (Inr None, w1)" using get_pair [of key w] assms(2) by metis
  with assms(1,3) no_lock have "settleAndRecord ctx H p offer m payer nonce key w1 = (Inr (Settlement_ok r replayed ce), w')"
    by (simp add: settleOnce_def)
  then obtain w2 r' where rec: "record_settlement ctx key r' w2 = (Inr (Settlement_ok r replayed ce), w')"
    by (auto simp: settleAndRecord_def split: prod.splits sum.splits settle_result.splits)
  obtain w3 where "cache_set C key r' w2 = (Inr (), w3)" "lookup key w3 = Some r'"
    using set_pair [of key r' w2] set_lookup [of key key r' w2] by metis
  with rec assms(1) show ?thesis by (auto simp: record_settlement_def)
qed

text \<open>The first request puts its receipt into the cache.\<close>

lemma gate_fresh:
  assumes "ctx_cache ctx = Some C" "fst (h_verify H p offer w) = Inr (Verified payer nonce)"
    and "settleWithHandler ctx Map.empty H p offer m w = (Inr (Gate_settled hs r False ce), w')"
  shows "lookup (settlement_key m nonce) w' = Some r"
proof -
  obtain w0 where v: "h_verify H p offer w = (Inr (Verified payer nonce), w0)"
    using assms(2) by (metis prod.collapse)
  obtain res w1 where s: "settleOnce ctx H p offer m payer nonce (settlement_key m nonce) w0 = (res, w1)"
    by (rule prod.exhaust)
  from assms(3) v s obtain ce' where res: "res = Inr (Settlement_ok r False ce')" "w1 = w'"
    by (cases res; cases "projr res")
      (auto simp: settleWithHandler_def Let_def toOutcome_simps settled_with_def OFFER_MISMATCH_def split: if_splits
        dest: settleOnce_result)
  show ?thesis
  proof (cases "lookup (settlement_key m nonce) w0")
    case None
    with settleOnce_fresh [OF assms(1) None] s res show ?thesis by auto
  next
    case (Some r')
    with settleOnce_cached [OF assms(1) Some] s res show ?thesis by simp
  qed
qed

text \<open>A later request for the same payment gets that receipt, or is refused for another offer.\<close>

lemma gate_replay:
  assumes "ctx_cache ctx = Some C" "h_verify H p offer w = (Inr (Verified payer nonce), w0)" "lookup (settlement_key m nonce) w0 = Some r"
  shows "settleWithHandler ctx Map.empty H p offer m w =
    (Inr (if matches (receipt r) offer m then settled_with r True None else OFFER_MISMATCH),
     snd (cache_get C (settlement_key m nonce) w0))"
  by (simp add: settleWithHandler_def assms(2) settleOnce_cached [OF assms(1,3)] toOutcome_simps)

end

subsection \<open>Samples\<close>

definition sample_signer :: receipt_signer where
  "sample_signer = \<lparr>signer_keyId = ''k1'', signer_algorithm = ED25519, signer_sign = (\<lambda>m. Inr [1, 2, 3])\<rparr>"

definition sample_ctx :: "'w settlement_cache \<Rightarrow> 'w settlement_context" where
  "sample_ctx cache = \<lparr>ctx_signer = sample_signer, ctx_cache = Some cache, ctx_onCacheError = None,
     ctx_zmsg = (\<lambda>_. []), ctx_is_datetime = (\<lambda>_. True), ctx_uuid = (\<lambda>_. ''id-1''), ctx_now = (\<lambda>_. ''t'')\<rparr>"

definition x402_offer :: payment_offer where
  "x402_offer = \<lparr>offer_resource = ''/a'', offer_amount = ''5'', offer_asset = ''USDC'', offer_payTo = ''GB'',
     offer_network = Testnet, offer_models = [X402], offer_mppSessionSupported = None, offer_facilitatorUrl = None\<rparr>"

lemma mockHex_not_Nil: "0 < len \<Longrightarrow> mockHex s len \<noteq> []"
  using length_mockHex [of s len] by (metis length_0_conv less_irrefl)

lemma sample_issue:
  assumes "payer \<noteq> []" "tx \<noteq> []"
  shows "\<exists>r. issue_receipt (sample_ctx cache) x402_offer X402 payer tx w = Inr r"
proof -
  obtain m where m: "canonicalBytes (body_json (body_of_input ''id-1'' ''t'' (receipt_input x402_offer X402 payer tx))) = Inr m"
    using body_bytes_Inr by blast
  have "body_issues (\<lambda>_. []) (\<lambda>_. True) (body_of_input ''id-1'' ''t'' (receipt_input x402_offer X402 payer tx)) = []"
    using assms unfolding body_issues_Nil
    by (simp add: well_formed_def body_of_input_def receipt_input_def x402_offer_def or_default_def AMOUNT_RE_def is_digit_def)
  with m show ?thesis
    by (simp add: issue_receipt_def sample_ctx_def buildReceipt_def signReceipt_def sample_signer_def Let_def)
qed

definition sample_world :: "mem_cache \<times> unit" where
  "sample_world = (\<lparr>cache_entries = Map.empty, cache_clock = 0\<rparr>, ())"

text \<open>A first request on a gate with the in-memory cache and the mock facilitator.\<close>

lemma sample_settles:
  obtains r w' where "settleWithHandler (sample_ctx (createInMemorySettlementCache 30000)) Map.empty createMockFacilitator
      (X402Payment ''sig'') x402_offer X402 sample_world = (Inr (settled_with r False None), w')"
    and "matches (receipt r) x402_offer X402"
    and "memory_lookup (settlement_key X402 (mockHex ''sig'' 32)) w' = Some r"
    and "\<exists>payer tx. issue_receipt (sample_ctx (createInMemorySettlementCache 30000)) x402_offer X402 payer tx sample_world = Inr r"
proof -
  let ?c = "createInMemorySettlementCache 30000 :: (mem_cache \<times> unit) settlement_cache"
  let ?tx = "mockHex (mockHex ''sig'' 32 @ '':'' @ ''/a'') 64"
  let ?k = "settlement_key X402 (mockHex ''sig'' 32)"
  have ne: "mockAccount ''sig'' \<noteq> []" "?tx \<noteq> []" by (simp_all add: mockAccount_def mockHex_not_Nil)
  obtain r where r: "issue_receipt (sample_ctx ?c) x402_offer X402 (mockAccount ''sig'') ?tx sample_world = Inr r"
    using sample_issue [OF ne, of ?c sample_world] by (rule exE)
  define w' where "w' = (memory_set 30000 ?k r (fst sample_world), ())"
  have m: "matches (receipt r) x402_offer X402" using issue_receipt_matches [OF r] by simp
  have c: "ctx_cache (sample_ctx ?c) = Some ?c" by (simp add: sample_ctx_def)
  have v: "h_verify createMockFacilitator (X402Payment ''sig'') x402_offer sample_world =
      (Inr (Verified (mockAccount ''sig'') (mockHex ''sig'' 32)), sample_world)"
    by (simp add: createMockFacilitator_def mock_verify_def)
  have g: "cache_get ?c ?k sample_world = (Inr None, sample_world)" "cache_acquire ?c = None"
    "cache_set ?c ?k r sample_world = (Inr (), w')"
    by (simp_all add: createInMemorySettlementCache_def memory_get_def w'_def sample_world_def)
  have "h_settle createMockFacilitator (X402Payment ''sig'') x402_offer (mockAccount ''sig'') (mockHex ''sig'' 32) sample_world =
      (Inr (Settled ?tx), sample_world)"
    by (simp add: createMockFacilitator_def mock_settle_def x402_offer_def)
  then have "settleAndRecord (sample_ctx ?c) createMockFacilitator (X402Payment ''sig'') x402_offer X402
      (mockAccount ''sig'') (mockHex ''sig'' 32) ?k sample_world = (Inr (Settlement_ok r False None), w')"
    by (simp only: settleAndRecord_def r record_settlement_def c g prod.case sum.case settle_result.case option.case)
  then have "settleWithHandler (sample_ctx ?c) Map.empty createMockFacilitator (X402Payment ''sig'') x402_offer X402 sample_world =
      (Inr (settled_with r False None), w')"
    using m by (simp add: settleWithHandler_def v settleOnce_def c g toOutcome_simps)
  moreover have "memory_lookup ?k w' = Some r" by (simp add: w'_def memory_lookup_def memory_set_def)
  ultimately show thesis using m r that by blast
qed

definition sample_config :: paywall_config where
  "sample_config = \<lparr>pw_amount = ''5'', pw_asset = ''USDC'', pw_payTo = ''GB'', pw_network = Testnet, pw_models = None,
     pw_resource = Some ''/a'', pw_facilitatorUrl = None\<rparr>"

definition sample_request :: tollway_request where
  "sample_request = \<lparr>rq_method = ''GET'', rq_url = ''/b'', rq_headers = [(''payment-signature'', Header_single ''sig'')]\<rparr>"

definition sample_deps :: "'w handler \<Rightarrow> 'w paywall_deps" where
  "sample_deps h = \<lparr>dep_facilitator = h, dep_mppChargeHandler = None, dep_router = Some route\<rparr>"

lemma sample_offer_of_config: "offer_of_config sample_config sample_request = x402_offer"
  by (simp add: offer_of_config_def sample_config_def sample_request_def or_default_def x402_offer_def)

lemma sample_gate: "gate ctx inFlight (sample_deps h) sample_config sample_request w =
    settleWithHandler ctx inFlight h (X402Payment ''sig'') x402_offer X402 w"
proof -
  have "readHeader (rq_headers sample_request) PAYMENT_SIGNATURE_HEADER = Some ''sig''" by code_simp
  moreover have "gate_model (dep_router (sample_deps h)) x402_offer = Inr (Some X402)"
    by (simp add: gate_model_def sample_deps_def route_def x402_offer_def preferenceOrder_def)
  ultimately show ?thesis by (simp add: gate_def sample_offer_of_config Let_def) (simp add: sample_deps_def)
qed

text \<open>A cache whose writes and releases always fail.\<close>

definition broken_cache :: "nat settlement_cache" where
  "broken_cache = \<lparr>cache_get = (\<lambda>_ w. (Inr None, w)), cache_set = (\<lambda>_ _ w. (Inl (PlatformError ''Error'' ''down''), w)),
     cache_acquire = Some (\<lambda>_ _ w. (Inr True, w)), cache_release = Some (\<lambda>_ w. (Inl (PlatformError ''Error'' ''down''), Suc w))\<rparr>"

subsection \<open>Properties\<close>

text \<open>A settled outcome, whatever the injected parts do.\<close>

lemma gate_settled:
  assumes "gate ctx inFlight deps config request w = (Inr (Gate_settled hs r replayed ce), w')"
  shows "\<exists>m\<in>{X402, Mpp_charge}. matches (receipt r) (offer_of_config config request) m \<and>
     gate_model (dep_router deps) (offer_of_config config request) = Inr (Some m) \<and>
     hs = [(PAYMENT_RESPONSE_HEADER, encodeHeader (signed_json r))]"
proof -
  let ?o = "offer_of_config config request"
  from assms(1) obtain m h p where "settleWithHandler ctx inFlight h p ?o m w = (Inr (Gate_settled hs r replayed ce), w')"
    "m \<in> {X402, Mpp_charge}" "gate_model (dep_router deps) ?o = Inr (Some m)"
    by (auto simp: gate_def Let_def split: option.splits list.splits sum.splits settlement_model.splits)
  with settleWithHandler_settled [OF this(1)] show ?thesis by blast
qed

text \<open>C2. The gate never answers a request with someone else's receipt. Whatever the handler, the cache, the
  signer and the router do, and whatever settlements are in progress, a settled outcome carries a
  receipt whose model, network, resource, amount, asset and payee are those of the offer being served,
  and the response header encodes that receipt.\<close>

theorem settled_receipt_matches_offer:
  assumes "gate ctx inFlight deps config request w = (Inr (Gate_settled hs r replayed ce), w')"
  shows "\<exists>m\<in>{X402, Mpp_charge}. matches (receipt r) (offer_of_config config request) m \<and>
     gate_model (dep_router deps) (offer_of_config config request) = Inr (Some m) \<and>
     hs = [(PAYMENT_RESPONSE_HEADER, encodeHeader (signed_json r))]"
  by (rule gate_settled [OF assms])

text \<open>C22. A retry of a settled payment is answered from the in-memory cache. After a request was settled by any
  handler, a later request whose payment the handler verifies with the same nonce, while no settlement is in progress and
  the receipt that the first request stored has neither been replaced nor expired, gets the original receipt marked
  as replayed when its offer is the one the receipt was issued for, and the rejection 409 otherwise. Nothing is
  settled again: the answer and the world are the same whatever \<open>settle\<close> the handler has by then.\<close>

theorem retry_returns_original_receipt:
  fixes ctx :: "(mem_cache \<times> 'h) settlement_context"
  assumes "0 < ttl" and "ctx_cache ctx = Some (createInMemorySettlementCache ttl)"
    and "settleWithHandler ctx Map.empty h p offer m w = (Inr (Gate_settled hs r False ce), w')"
    and "fst (h_verify h p offer w) = Inr (Verified payer nonce)"
    and "h_verify h q offer' w1 = (Inr (Verified payer' nonce), w2)"
    and "cache_entries (fst w2) (settlement_key m nonce) = cache_entries (fst w') (settlement_key m nonce)"
    and "memory_lookup (settlement_key m nonce) w2 \<noteq> None"
  shows "settleWithHandler ctx Map.empty (h\<lparr>h_settle := settle\<rparr>) q offer' m w1 =
    (Inr (if matches (receipt r) offer' m then settled_with r True None else OFFER_MISMATCH),
     snd (cache_get (createInMemorySettlementCache ttl) (settlement_key m nonce) w2))"
proof -
  note laws = memory_cache_laws [OF assms(1)]
  have "memory_lookup (settlement_key m nonce) w' = Some r"
    by (rule receipt_store.gate_fresh [OF laws assms(2,4,3)])
  with assms(6,7) have "memory_lookup (settlement_key m nonce) w2 = Some r"
    by (auto simp: memory_lookup_def split: option.splits if_splits)
  from receipt_store.gate_replay [OF laws assms(2) _ this, of "h\<lparr>h_settle := settle\<rparr>"] assms(5) show ?thesis by simp
qed

theorem retry_returns_original_receipt_witness:
  "\<exists>r w'. settleWithHandler (sample_ctx (createInMemorySettlementCache 30000)) Map.empty createMockFacilitator
        (X402Payment ''sig'') x402_offer X402 sample_world = (Inr (settled_with r False None), w') \<and>
     fst (settleWithHandler (sample_ctx (createInMemorySettlementCache 30000)) Map.empty
        (createMockFacilitator\<lparr>h_settle := \<lambda>p offer payer nonce w. (Inl (PlatformError ''Error'' ''down''), w)\<rparr>)
        (X402Payment ''sig'') (x402_offer\<lparr>offer_amount := ''6''\<rparr>) X402 w') = Inr OFFER_MISMATCH"
proof -
  obtain r w' where first: "settleWithHandler (sample_ctx (createInMemorySettlementCache 30000)) Map.empty createMockFacilitator
      (X402Payment ''sig'') x402_offer X402 sample_world = (Inr (settled_with r False None), w')"
    and m: "matches (receipt r) x402_offer X402"
    and l: "memory_lookup (settlement_key X402 (mockHex ''sig'' 32)) w' = Some r"
    by (rule sample_settles)
  have c: "ctx_cache (sample_ctx C) = Some C" for C :: "(mem_cache \<times> unit) settlement_cache" by (simp add: sample_ctx_def)
  have v: "h_verify createMockFacilitator (X402Payment ''sig'') o' w = (Inr (Verified (mockAccount ''sig'') (mockHex ''sig'' 32)), w)"
    for o' and w :: "mem_cache \<times> unit" by (simp add: createMockFacilitator_def mock_verify_def)
  have "\<not> matches (receipt r) (x402_offer\<lparr>offer_amount := ''6''\<rparr>) X402"
    using m by (simp add: matches_def x402_offer_def)
  with retry_returns_original_receipt [OF _ c first [unfolded settled_with_def] _ v refl,
      where offer' = "x402_offer\<lparr>offer_amount := ''6''\<rparr>"
        and settle = "\<lambda>p offer payer nonce w. (Inl (PlatformError ''Error'' ''down''), w)"] first l v
  show ?thesis by auto
qed

text \<open>C28. Once the handler reports a settlement and the receipt is issued, the payer gets it, whatever the
  cache does afterwards: neither a failing write nor a failing release of the lock turns the outcome
  into an error, as long as the error callback returns.\<close>

theorem cache_failure_keeps_receipt:
  assumes "callback_returns ctx" and "ctx_cache ctx = Some cache"
    and "cache_acquire cache = Some acquire" and "cache_release cache = Some release"
    and "h_verify h p offer w0 = (Inr (Verified payer nonce), w)" and "key = settlement_key m nonce"
    and "cache_get cache key w = (Inr None, w1)" and "acquire key SETTLEMENT_LOCK_TTL_MS w1 = (Inr True, w2)"
    and "cache_get cache key w2 = (Inr None, w3)" and "h_settle h p offer payer nonce w3 = (Inr (Settled tx), w4)"
    and "issue_receipt ctx offer m payer tx w4 = Inr r"
  shows "\<exists>ce w'. settleWithHandler ctx Map.empty h p offer m w0 = (Inr (settled_with r False ce), w')"
proof -
  obtain ce w' where "settleOnce ctx h p offer m payer nonce key w = (Inr (Settlement_ok r False ce), w')"
    using settleOnce_ok [OF assms(1-4,7-11)] by blast
  with assms(5,6) issue_receipt_matches [OF assms(11)] show ?thesis
    by (auto simp: settleWithHandler_def toOutcome_simps)
qed

theorem cache_failure_keeps_receipt_witness:
  "\<exists>r ce w'. settleWithHandler (sample_ctx broken_cache) Map.empty createMockFacilitator (X402Payment ''sig'') x402_offer X402 0
     = (Inr (settled_with r False ce), w')"
proof -
  let ?p = "mockAccount ''sig''"
  let ?tx = "mockHex (mockHex ''sig'' 32 @ '':'' @ ''/a'') 64"
  have ne: "?p \<noteq> []" "?tx \<noteq> []" by (simp_all add: mockAccount_def mockHex_not_Nil)
  obtain r where r: "issue_receipt (sample_ctx broken_cache) x402_offer X402 ?p ?tx 0 = Inr r"
    using sample_issue [OF ne, of broken_cache 0] by (rule exE)
  have "callback_returns (sample_ctx broken_cache)" by (simp add: callback_returns_def report_cache_error_def sample_ctx_def)
  then show ?thesis
    using cache_failure_keeps_receipt [of "sample_ctx broken_cache" broken_cache "\<lambda>_ _ w. (Inr True, w)"
        "\<lambda>_ w. (Inl (PlatformError ''Error'' ''down''), Suc w)" createMockFacilitator "X402Payment ''sig''" x402_offer 0 ?p
        "mockHex ''sig'' 32" 0 _ X402 0 0 0 ?tx 0 r] r
    by (auto simp: sample_ctx_def broken_cache_def createMockFacilitator_def mock_verify_def mock_settle_def x402_offer_def)
qed

text \<open>C29. A lock that a request takes is released by that request, whatever happens in between: on every
  path on which \<open>acquire\<close> granted the lock, settled, replayed, rejected or thrown, the release is the last thing the
  attempt does to the world, except that the gate's error callback follows it when the release itself failed.\<close>

theorem taken_lock_is_released:
  assumes "ctx_cache ctx = Some cache" and "cache_acquire cache = Some acquire" and "cache_release cache = Some release"
    and "cache_get cache key w = (Inr None, w1)" and "acquire key SETTLEMENT_LOCK_TTL_MS w1 = (Inr True, w2)"
  shows "\<exists>w'. snd (settleOnce ctx h p offer m payer nonce key w) = snd (release key w') \<or>
    (\<exists>e. fst (release key w') = Inl e \<and>
       snd (settleOnce ctx h p offer m payer nonce key w) = snd (report_cache_error ctx e key (snd (release key w'))))"
  by (rule settleOnce_releases [OF assms])

theorem taken_lock_is_released_witness:
  "0 < snd (settleOnce (sample_ctx broken_cache) createMockFacilitator (X402Payment ''sig'') x402_offer X402 ''p'' ''n'' ''k'' 0)"
proof -
  let ?s = "snd (settleOnce (sample_ctx broken_cache) createMockFacilitator (X402Payment ''sig'') x402_offer X402 ''p'' ''n'' ''k'' 0)"
  let ?release = "\<lambda>_ w. (Inl (PlatformError ''Error'' ''down''), Suc w) :: unit result \<times> nat"
  have "\<exists>w'. ?s = snd (?release ''k'' w') \<or> (\<exists>e. fst (?release ''k'' w') = Inl e \<and>
      ?s = snd (report_cache_error (sample_ctx broken_cache) e ''k'' (snd (?release ''k'' w'))))"
    by (rule taken_lock_is_released [where cache = broken_cache and acquire = "\<lambda>_ _ w. (Inr True, w)" and ?w1.0 = 0 and ?w2.0 = 0])
      (simp_all add: sample_ctx_def broken_cache_def)
  then show ?thesis by (auto simp: report_cache_error_def sample_ctx_def)
qed

text \<open>C21. With a lock, \<open>settle\<close> is asked only for a payment that was looked up twice and not found, the second time with
  the lock taken. For any two handlers the attempt gives the same answer and leaves the same world, unless the first
  lookup found nothing, the lock was granted, the lookup under the lock found nothing, and the two \<open>settle\<close> differ on
  just this payment in the world after that lookup.\<close>

theorem settle_needs_two_misses:
  assumes "ctx_cache ctx = Some cache" and "cache_acquire cache = Some acquire" and "cache_release cache = Some release"
    and "settleOnce ctx h p offer m payer nonce key w \<noteq> settleOnce ctx h' p offer m payer nonce key w"
  shows "\<exists>w1 w2 w3. cache_get cache key w = (Inr None, w1) \<and> acquire key SETTLEMENT_LOCK_TTL_MS w1 = (Inr True, w2) \<and>
    cache_get cache key w2 = (Inr None, w3) \<and> h_settle h p offer payer nonce w3 \<noteq> h_settle h' p offer payer nonce w3"
proof -
  obtain x w1 where x: "cache_get cache key w = (x, w1)" by (rule prod.exhaust)
  obtain b w2 where b: "acquire key SETTLEMENT_LOCK_TTL_MS w1 = (b, w2)" by (rule prod.exhaust)
  obtain y w3 where y: "cache_get cache key w2 = (y, w3)" by (rule prod.exhaust)
  show ?thesis
  proof (cases "x = Inr None \<and> b = Inr True \<and> y = Inr None")
    case True
    have "h_settle h p offer payer nonce w3 \<noteq> h_settle h' p offer payer nonce w3"
    proof
      assume "h_settle h p offer payer nonce w3 = h_settle h' p offer payer nonce w3"
      then have "settleAndRecord ctx h p offer m payer nonce key w3 = settleAndRecord ctx h' p offer m payer nonce key w3"
        by (simp add: settleAndRecord_def)
      with assms True x b y show False by (simp add: settleOnce_def)
    qed
    with True x b y show ?thesis by blast
  next
    case False
    with assms x b y have False
      by (cases x; cases b; cases y) (auto simp: settleOnce_def split: option.splits bool.splits)
    then show ?thesis ..
  qed
qed

theorem settle_needs_two_misses_witness:
  "\<exists>w3. cache_get broken_cache ''k'' 0 = (Inr None, w3) \<and>
     h_settle createMockFacilitator (X402Payment ''sig'') x402_offer ''p'' ''n'' w3 \<noteq> (Inr (Not_settled ''no funds''), w3)"
proof -
  let ?h = "createMockFacilitator\<lparr>h_settle := \<lambda>p offer payer nonce w. (Inr (Not_settled ''no funds''), w)\<rparr> :: nat handler"
  let ?once = "\<lambda>h. settleOnce (sample_ctx broken_cache) h (X402Payment ''sig'') x402_offer X402 ''p'' ''n'' ''k'' 0"
  let ?tx = "mockHex (''n:'' @ ''/a'') 64"
  have "?tx \<noteq> []" by (rule mockHex_not_Nil) simp
  from sample_issue [OF _ this, of "''p''" broken_cache 0]
  obtain r where "issue_receipt (sample_ctx broken_cache) x402_offer X402 ''p'' ?tx 0 = Inr r" by auto
  then have "?once createMockFacilitator \<noteq> ?once ?h"
    by (simp add: settleOnce_def settleAndRecord_def sample_ctx_def broken_cache_def createMockFacilitator_def mock_settle_def
        x402_offer_def record_settlement_def release_after_def releaseOrThrow_def report_cache_error_def split: sum.splits)
  from settle_needs_two_misses [OF _ _ _ this, of broken_cache "\<lambda>_ _ w. (Inr True, w)" "\<lambda>_ w. (Inl (PlatformError ''Error'' ''down''), Suc w)"]
  show ?thesis by (auto simp: sample_ctx_def broken_cache_def)
qed

theorem settled_receipt_matches_offer_witness:
  "\<exists>r w'. gate (sample_ctx (createInMemorySettlementCache 30000)) Map.empty (sample_deps createMockFacilitator)
      sample_config sample_request sample_world = (Inr (settled_with r False None), w') \<and>
     body_amount (receipt r) = ''5''"
proof -
  obtain r w' where "settleWithHandler (sample_ctx (createInMemorySettlementCache 30000)) Map.empty createMockFacilitator
      (X402Payment ''sig'') x402_offer X402 sample_world = (Inr (settled_with r False None), w')"
    by (rule sample_settles)
  then have g: "gate (sample_ctx (createInMemorySettlementCache 30000)) Map.empty (sample_deps createMockFacilitator)
      sample_config sample_request sample_world = (Inr (settled_with r False None), w')" by (simp only: sample_gate)
  from settled_receipt_matches_offer [OF g [unfolded settled_with_def]] have "body_amount (receipt r) = ''5''"
    by (auto simp: matches_def sample_offer_of_config x402_offer_def)
  with g show ?thesis by blast
qed

text \<open>A handler that counts its settlements.\<close>

definition counting_handler :: "nat handler" where
  "counting_handler = \<lparr>h_verify = (\<lambda>p offer w. (Inr (Verified ''GA'' ''n1''), w)),
     h_settle = (\<lambda>p offer payer nonce w. (Inr (Settled ''tx1''), Suc w))\<rparr>"

text \<open>The gate does not validate the configured price before it settles: with the price 1.50 a payment is
  settled (the handler counts one settlement) and the request still ends in an \<open>invalid-receipt\<close> error
  without a receipt.\<close>

theorem malformed_price_settles_then_throws:
  "case gate ((sample_ctx broken_cache)\<lparr>ctx_cache := None\<rparr>) Map.empty (sample_deps counting_handler)
      (sample_config\<lparr>pw_amount := ''1.50''\<rparr>) sample_request 0 of
     (Inl e, settlements) \<Rightarrow> error_code e = Some Invalid_receipt \<and> settlements = 1
   | _ \<Rightarrow> False"
  by code_simp

end
