(* ===== verification/GateSteps.thy ===== *)
theory GateSteps
  imports GateProofs
begin

text \<open>
  The gate as the event loop runs it. \<open>attempt_resume\<close> runs one segment of \<open>settleOnce\<close>, from one
  \<open>await\<close> to the next; a \<open>process\<close> is one gate with its map of settlements in progress, its attempts and
  its requests, and \<open>process_step\<close> lets any of them take its next segment, lets requests arrive, and
  lets the rest of the world change at any time. Run without interruption, the segments of an attempt
  are \<open>settleOnce\<close>.

  The invariant \<open>process_ok\<close> says that an attempt that has not finished is the one registered for its
  key; with it, one gate never runs two settlements of one payment at a time, whatever the cache does.
  Two gates that share a cache without locks do.
\<close>

subsection \<open>Segments of an attempt\<close>

record 'w attempt =
  at_handler :: "'w handler"
  at_payment :: payment_payload
  at_offer :: payment_offer
  at_model :: settlement_model
  at_payer :: string
  at_nonce :: string
  at_key :: string

text \<open>What an attempt awaits; the flag tells whether it holds the lock.\<close>

datatype attempt_pc =
    At_called
  | At_get "signed_receipt option result"
  | At_acquire "bool result"
  | At_recheck "signed_receipt option result"
  | At_settle bool "settle_result result"
  | At_sign bool "signed_receipt result"
  | At_set bool signed_receipt "unit result"
  | At_failed_release js_error "unit result"
  | At_release settlement_result "unit result"
  | At_done "settlement_result result"

definition at_release :: "'w settlement_context \<Rightarrow> string \<Rightarrow> 'w \<Rightarrow> unit result \<times> 'w" where
  "at_release ctx key w =
     (case Option.bind (ctx_cache ctx) cache_release of None \<Rightarrow> (Inr (), w) | Some release \<Rightarrow> release key w)"

text \<open>A result of \<open>settleAndRecord\<close>: an attempt with the lock goes on to release it.\<close>

definition conclude ::
  "'w settlement_context \<Rightarrow> string \<Rightarrow> bool \<Rightarrow> settlement_result result \<Rightarrow> 'w \<Rightarrow> attempt_pc \<times> 'w" where
  "conclude ctx key locked res w =
     (if locked then
        (case (res, at_release ctx key w) of
           (Inl e, (x, w')) \<Rightarrow> (At_failed_release e x, w')
         | (Inr r, (x, w')) \<Rightarrow> (At_release r x, w'))
      else (At_done res, w))"

definition call_settle :: "'w attempt \<Rightarrow> bool \<Rightarrow> 'w \<Rightarrow> attempt_pc \<times> 'w" where
  "call_settle a locked w =
     map_prod (At_settle locked) id (h_settle (at_handler a) (at_payment a) (at_offer a) (at_payer a) (at_nonce a) w)"

definition attempt_resume :: "'w settlement_context \<Rightarrow> 'w attempt \<Rightarrow> attempt_pc \<Rightarrow> 'w \<Rightarrow> attempt_pc \<times> 'w" where
  "attempt_resume ctx a pc w =
     (case pc of
        At_called \<Rightarrow>
          (case ctx_cache ctx of
             None \<Rightarrow> (At_get (Inr None), w)
           | Some cache \<Rightarrow> map_prod At_get id (cache_get cache (at_key a) w))
      | At_get (Inl e) \<Rightarrow> (At_done (Inl e), w)
      | At_get (Inr (Some cached)) \<Rightarrow> (At_done (Inr (Settlement_ok cached True None)), w)
      | At_get (Inr None) \<Rightarrow>
          (case (Option.bind (ctx_cache ctx) cache_acquire, Option.bind (ctx_cache ctx) cache_release) of
             (Some acquire, Some release) \<Rightarrow> map_prod At_acquire id (acquire (at_key a) SETTLEMENT_LOCK_TTL_MS w)
           | _ \<Rightarrow> call_settle a False w)
      | At_acquire (Inl e) \<Rightarrow> (At_done (Inl e), w)
      | At_acquire (Inr False) \<Rightarrow> (At_done (Inr SETTLEMENT_IN_PROGRESS), w)
      | At_acquire (Inr True) \<Rightarrow>
          (case ctx_cache ctx of
             None \<Rightarrow> (At_recheck (Inr None), w)
           | Some cache \<Rightarrow> map_prod At_recheck id (cache_get cache (at_key a) w))
      | At_recheck (Inl e) \<Rightarrow> conclude ctx (at_key a) True (Inl e) w
      | At_recheck (Inr (Some settledElsewhere)) \<Rightarrow>
          conclude ctx (at_key a) True (Inr (Settlement_ok settledElsewhere True None)) w
      | At_recheck (Inr None) \<Rightarrow> call_settle a True w
      | At_settle locked (Inl e) \<Rightarrow> conclude ctx (at_key a) locked (Inl e) w
      | At_settle locked (Inr (Not_settled reason)) \<Rightarrow>
          conclude ctx (at_key a) locked (Inr (Settlement_not_ok 502 reason)) w
      | At_settle locked (Inr (Settled txHash)) \<Rightarrow>
          (At_sign locked (issue_receipt ctx (at_offer a) (at_model a) (at_payer a) txHash w), w)
      | At_sign locked (Inl e) \<Rightarrow> conclude ctx (at_key a) locked (Inl e) w
      | At_sign locked (Inr r) \<Rightarrow>
          (case ctx_cache ctx of
             None \<Rightarrow> conclude ctx (at_key a) locked (Inr (Settlement_ok r False None)) w
           | Some cache \<Rightarrow> map_prod (At_set locked r) id (cache_set cache (at_key a) r w))
      | At_set locked r (Inr _) \<Rightarrow> conclude ctx (at_key a) locked (Inr (Settlement_ok r False None)) w
      | At_set locked r (Inl cacheError) \<Rightarrow>
          (case report_cache_error ctx cacheError (at_key a) w of
             (Inl e, w1) \<Rightarrow> conclude ctx (at_key a) locked (Inl e) w1
           | (Inr _, w1) \<Rightarrow> conclude ctx (at_key a) locked (Inr (Settlement_ok r False (Some cacheError))) w1)
      | At_failed_release original (Inr _) \<Rightarrow> (At_done (Inl original), w)
      | At_failed_release original (Inl releaseFailure) \<Rightarrow>
          (At_done (Inl (AggregateError [original, releaseFailure]
             ''settlement failed and the settlement lock could not be released'')), w)
      | At_release r x \<Rightarrow> map_prod At_done id (release_after ctx (\<lambda>_ w. (x, w)) (at_key a) r w)
      | At_done res \<Rightarrow> (At_done res, w))"

fun attempt_segments :: "nat \<Rightarrow> 'w settlement_context \<Rightarrow> 'w attempt \<Rightarrow> attempt_pc \<times> 'w \<Rightarrow> attempt_pc \<times> 'w" where
  "attempt_segments 0 ctx a (pc, w) = (pc, w)"
| "attempt_segments (Suc n) ctx a (pc, w) = attempt_segments n ctx a (attempt_resume ctx a pc w)"

lemma attempt_segments_done: "attempt_segments n ctx a (At_done res, w) = (At_done res, w)"
  by (induction n) (simp_all add: attempt_resume_def)


subsection \<open>Without interruption\<close>

definition finish ::
  "'w settlement_context \<Rightarrow> string \<Rightarrow> bool \<Rightarrow> settlement_result result \<Rightarrow> 'w \<Rightarrow> settlement_result result \<times> 'w" where
  "finish ctx key locked res w =
     (if locked then
        (case res of
           Inl e \<Rightarrow> map_prod Inl id (releaseOrThrow (at_release ctx) key e w)
         | Inr r \<Rightarrow> release_after ctx (at_release ctx) key r w)
      else (res, w))"

lemma conclude_run:
  "attempt_segments (Suc n) ctx a (conclude ctx (at_key a) locked res w) =
     map_prod At_done id (finish ctx (at_key a) locked res w)"
proof (cases locked)
  case True
  obtain x w1 where x: "at_release ctx (at_key a) w = (x, w1)" by (rule prod.exhaust)
  show ?thesis
  proof (cases res)
    case (Inl e)
    then show ?thesis using True x
      by (cases x) (simp_all add: conclude_def finish_def releaseOrThrow_def attempt_resume_def attempt_segments_done)
  next
    case (Inr r)
    obtain res2 w2 where y: "release_after ctx (\<lambda>_ w. (x, w)) (at_key a) r w1 = (res2, w2)" by (rule prod.exhaust)
    have "release_after ctx (at_release ctx) (at_key a) r w = (res2, w2)"
      using y by (simp add: release_after_def x)
    with y True Inr x show ?thesis
      by (simp add: conclude_def finish_def attempt_resume_def attempt_segments_done)
  qed
next
  case False
  then show ?thesis by (simp add: conclude_def finish_def attempt_segments_done del: attempt_segments.simps)
qed

definition at_settled :: "'w settlement_context \<Rightarrow> 'w attempt \<Rightarrow> 'w \<Rightarrow> settlement_result result \<times> 'w" where
  "at_settled ctx a w = settleAndRecord ctx (at_handler a) (at_payment a) (at_offer a) (at_model a) (at_payer a)
     (at_nonce a) (at_key a) w"

lemma conclude_more:
  "attempt_segments (Suc (Suc n)) ctx a (conclude ctx (at_key a) locked res w) =
     map_prod At_done id (finish ctx (at_key a) locked res w)"
  "attempt_segments (Suc (Suc (Suc n))) ctx a (conclude ctx (at_key a) locked res w) =
     map_prod At_done id (finish ctx (at_key a) locked res w)"
  by (rule conclude_run)+

lemma settle_run:
  "attempt_segments 4 ctx a (call_settle a locked w) =
     (case at_settled ctx a w of (res, w') \<Rightarrow> map_prod At_done id (finish ctx (at_key a) locked res w'))"
proof -
  note segs = attempt_segments.simps(2) [of _ ctx a]
  obtain x w1 where s: "h_settle (at_handler a) (at_payment a) (at_offer a) (at_payer a) (at_nonce a) w = (x, w1)"
    by (rule prod.exhaust)
  have four: "4 = Suc (Suc (Suc (Suc 0)))" by simp
  consider e where "x = Inl e" | reason where "x = Inr (Not_settled reason)" | tx where "x = Inr (Settled tx)"
    by (cases x) (auto, metis settle_result.exhaust)
  then show ?thesis
  proof cases
    case 1
    then show ?thesis unfolding four
      by (simp add: call_settle_def s segs attempt_resume_def conclude_more at_settled_def settleAndRecord_def del: attempt_segments.simps)
  next
    case 2
    then show ?thesis unfolding four
      by (simp add: call_settle_def s segs attempt_resume_def conclude_more at_settled_def settleAndRecord_def del: attempt_segments.simps)
  next
    case 3
    define i where "i = issue_receipt ctx (at_offer a) (at_model a) (at_payer a) tx w1"
    show ?thesis
    proof (cases i)
      case (Inl e)
      with 3 show ?thesis unfolding four
        by (simp add: call_settle_def s segs attempt_resume_def conclude_more at_settled_def settleAndRecord_def i_def
            del: attempt_segments.simps)
    next
      case (Inr r)
      show ?thesis
      proof (cases "ctx_cache ctx")
        case None
        with 3 Inr show ?thesis unfolding four
          by (simp add: call_settle_def s segs attempt_resume_def conclude_more at_settled_def settleAndRecord_def i_def
              record_settlement_def del: attempt_segments.simps)
      next
        case (Some cache)
        obtain y w2 where y: "cache_set cache (at_key a) r w1 = (y, w2)" by (rule prod.exhaust)
        obtain z w3 where z: "report_cache_error ctx (projl y) (at_key a) w2 = (z, w3)" by (rule prod.exhaust)
        show ?thesis using 3 Inr Some y z unfolding four
          by (cases y; cases z)
            (simp_all add: call_settle_def s segs attempt_resume_def conclude_run at_settled_def settleAndRecord_def i_def
              record_settlement_def del: attempt_segments.simps)
      qed
    qed
  qed
qed


lemma attempt_segments_more:
  "attempt_segments n ctx a c = (At_done res, w) \<Longrightarrow> attempt_segments (n + k) ctx a c = (At_done res, w)"
proof (induction n arbitrary: c)
  case 0
  then show ?case by (cases c) (simp add: attempt_segments_done)
next
  case (Suc n)
  then show ?case by (cases c) simp
qed

lemma run_done:
  assumes "attempt_segments n ctx a c = map_prod At_done id p" "n \<le> m"
  shows "attempt_segments m ctx a c = map_prod At_done id p"
proof -
  from attempt_segments_more [of n ctx a c "fst p" "snd p" "m - n"] assms show ?thesis
    by (cases p) simp
qed

lemma locked_run:
  assumes cache: "ctx_cache ctx = Some cache" and acq: "cache_acquire cache = Some acquire"
    and relc: "cache_release cache = Some release" and g: "cache_get cache (at_key a) w = (Inr None, w1)"
  shows "attempt_segments 6 ctx a (map_prod At_acquire id (acquire (at_key a) SETTLEMENT_LOCK_TTL_MS w1)) =
     map_prod At_done id (settleOnce ctx (at_handler a) (at_payment a) (at_offer a) (at_model a) (at_payer a)
       (at_nonce a) (at_key a) w)"
proof -
  note step = attempt_segments.simps(2) [of _ ctx a]
  have rel: "at_release ctx = release" by (rule ext, rule ext) (simp add: at_release_def cache relc)
  have fin: "attempt_segments k ctx a (At_done r, v) = map_prod At_done id (r, v)" for k r v
    by (simp add: attempt_segments_done)
  obtain y w2 where q: "acquire (at_key a) SETTLEMENT_LOCK_TTL_MS w1 = (y, w2)" by (rule prod.exhaust)
  obtain z w3 where h: "cache_get cache (at_key a) w2 = (z, w3)" by (rule prod.exhaust)
  note defs = step [of 5, simplified] step [of 4, simplified] cache acq relc g q h rel attempt_resume_def
    settleOnce_def finish_def
  show ?thesis
  proof (cases y)
    case (Inl e)
    then show ?thesis by (simp add: defs fin)
  next
    case (Inr held)
    show ?thesis
    proof (cases held)
      case False
      with Inr show ?thesis by (simp add: defs fin)
    next
      case True
      have concl: "attempt_segments 4 ctx a (conclude ctx (at_key a) True res v) =
          map_prod At_done id (finish ctx (at_key a) True res v)" for res v
        by (rule run_done [OF conclude_run [of 0]]) simp
      show ?thesis
      proof (cases z)
        case zl: (Inl e)
        with Inr True show ?thesis by (simp add: defs concl)
      next
        case zr: (Inr found)
        show ?thesis
        proof (cases found)
          case (Some r)
          with Inr True zr show ?thesis by (simp add: defs concl)
        next
          case None
          obtain res w4 where s: "at_settled ctx a w3 = (res, w4)" by (rule prod.exhaust)
          from settle_run [of ctx a True w3] s Inr True zr None show ?thesis
            by (simp add: defs) (simp add: at_settled_def rel cong: sum.case_cong)
        qed
      qed
    qed
  qed
qed

lemma attempt_uninterrupted:
  "attempt_segments 8 ctx a (At_called, w) = map_prod At_done id
     (settleOnce ctx (at_handler a) (at_payment a) (at_offer a) (at_model a) (at_payer a) (at_nonce a) (at_key a) w)"
proof -
  note step = attempt_segments.simps(2) [of _ ctx a]
  note steps = step [of 7, simplified] step [of 6, simplified] step [of 5, simplified] step [of 4, simplified]
  have unlocked: "attempt_segments 4 ctx a (call_settle a False v) = map_prod At_done id (at_settled ctx a v)" for v
    using settle_run [of ctx a False v] by (simp add: finish_def split: prod.splits)
  have fin: "attempt_segments k ctx a (At_done r, v) = map_prod At_done id (r, v)" for k r v
    by (simp add: attempt_segments_done)
  show ?thesis
  proof (cases "ctx_cache ctx")
    case None
    then show ?thesis
      by (simp add: steps attempt_resume_def settleOnce_def run_done [OF unlocked] at_settled_def)
  next
    case (Some cache)
    obtain x w1 where g: "cache_get cache (at_key a) w = (x, w1)" by (rule prod.exhaust)
    note defs = steps Some g attempt_resume_def settleOnce_def
    show ?thesis
    proof (cases x)
      case (Inl e)
      then show ?thesis by (simp add: defs fin)
    next
      case (Inr found)
      show ?thesis
      proof (cases found)
        case (Some r)
        with Inr show ?thesis by (simp add: defs fin)
      next
        case none: None
        show ?thesis
        proof (cases "cache_acquire cache")
          case None
          with Inr none show ?thesis by (simp add: defs run_done [OF unlocked] at_settled_def)
        next
          case acq: (Some acquire)
          show ?thesis
          proof (cases "cache_release cache")
            case None
            with Inr none acq show ?thesis by (simp add: defs run_done [OF unlocked] at_settled_def)
          next
            case relc: (Some release)
            have "attempt_segments 6 ctx a (map_prod At_acquire id (acquire (at_key a) SETTLEMENT_LOCK_TTL_MS w1)) =
                map_prod At_done id (settleOnce ctx (at_handler a) (at_payment a) (at_offer a) (at_model a) (at_payer a)
                  (at_nonce a) (at_key a) w)"
              by (rule locked_run [OF Some acq relc]) (use g Inr none in simp)
            with Inr none acq relc show ?thesis by (simp add: defs)
          qed
        qed
      qed
    qed
  qed
qed

subsection \<open>Requests and gates\<close>

text \<open>What a request that presents a payment awaits: the verification, a settlement it joined, or the
  settlement it started; settlements are named by their position in the gate's list of attempts.\<close>

record 'w request =
  in_handler :: "'w handler"
  in_payment :: payment_payload
  in_offer :: payment_offer
  in_model :: settlement_model

datatype request_pc =
    Rq_verify "verify_result result"
  | Rq_join nat
  | Rq_owner nat
  | Rq_done "gate_outcome result"

record 'w process =
  pr_inFlight :: "(string, nat) js_map"
  pr_attempts :: "('w attempt \<times> attempt_pc) list"
  pr_requests :: "('w request \<times> request_pc) list"

definition idle_process :: "'w process" where
  "idle_process = \<lparr>pr_inFlight = Map.empty, pr_attempts = [], pr_requests = []\<rparr>"

text \<open>The result of an attempt, for a request that awaits it.\<close>

definition awaited :: "'w process \<Rightarrow> nat \<Rightarrow> settlement_result result option" where
  "awaited p n = (if n < length (pr_attempts p) then (case snd (pr_attempts p ! n) of At_done r \<Rightarrow> Some r | _ \<Rightarrow> None) else None)"

definition outcome_of :: "'w request \<Rightarrow> bool \<Rightarrow> settlement_result result \<Rightarrow> gate_outcome result" where
  "outcome_of rq waited res =
     (case res of Inl e \<Rightarrow> Inl e | Inr r \<Rightarrow> toOutcome r (in_offer rq) (in_model rq) waited)"

definition set_request :: "nat \<Rightarrow> request_pc \<Rightarrow> 'w process \<Rightarrow> 'w process" where
  "set_request i pc p = p\<lparr>pr_requests := (pr_requests p)[i := (fst (pr_requests p ! i), pc)]\<rparr>"

text \<open>\<open>settleOnce\<close> is called, and registered, in the segment that found no settlement in progress.\<close>

definition start_attempt ::
  "'w settlement_context \<Rightarrow> nat \<Rightarrow> 'w request \<Rightarrow> string \<Rightarrow> string \<Rightarrow> 'w process \<Rightarrow> 'w \<Rightarrow> 'w process \<times> 'w" where
  "start_attempt ctx i rq payer nonce p w =
     (let key = settlement_key (in_model rq) nonce;
          a = \<lparr>at_handler = in_handler rq, at_payment = in_payment rq, at_offer = in_offer rq, at_model = in_model rq,
                at_payer = payer, at_nonce = nonce, at_key = key\<rparr>;
          n = length (pr_attempts p)
      in case attempt_resume ctx a At_called w of
           (pc, w1) \<Rightarrow>
             (set_request i (Rq_owner n) (p\<lparr>pr_attempts := pr_attempts p @ [(a, pc)],
                pr_inFlight := (pr_inFlight p)(key \<mapsto> n)\<rparr>), w1))"

definition request_resume ::
  "'w settlement_context \<Rightarrow> nat \<Rightarrow> 'w process \<Rightarrow> 'w \<Rightarrow> ('w process \<times> 'w) option" where
  "request_resume ctx i p w =
     (let rq = fst (pr_requests p ! i)
      in case snd (pr_requests p ! i) of
           Rq_verify (Inl e) \<Rightarrow> Some (set_request i (Rq_done (Inl e)) p, w)
         | Rq_verify (Inr (Not_verified reason)) \<Rightarrow> Some (set_request i (Rq_done (Inr (Rejected 402 reason))) p, w)
         | Rq_verify (Inr (Verified payer nonce)) \<Rightarrow>
             (case pr_inFlight p (settlement_key (in_model rq) nonce) of
                Some n \<Rightarrow> Some (set_request i (Rq_join n) p, w)
              | None \<Rightarrow> Some (start_attempt ctx i rq payer nonce p w))
         | Rq_join n \<Rightarrow> map_option (\<lambda>res. (set_request i (Rq_done (outcome_of rq True res)) p, w)) (awaited p n)
         | Rq_owner n \<Rightarrow>
             map_option (\<lambda>res. (set_request i (Rq_done (outcome_of rq False res))
               (p\<lparr>pr_inFlight := (pr_inFlight p)(at_key (fst (pr_attempts p ! n)) := None)\<rparr>), w)) (awaited p n)
         | Rq_done _ \<Rightarrow> None)"

datatype 'w turn = Arrive "'w request" | Request nat | Attempt nat

definition take_turn :: "'w settlement_context \<Rightarrow> 'w turn \<Rightarrow> 'w process \<times> 'w \<Rightarrow> ('w process \<times> 'w) option" where
  "take_turn ctx t c =
     (case c of (p, w) \<Rightarrow>
        case t of
          Arrive rq \<Rightarrow>
            (case h_verify (in_handler rq) (in_payment rq) (in_offer rq) w of
               (x, w1) \<Rightarrow> Some (p\<lparr>pr_requests := pr_requests p @ [(rq, Rq_verify x)]\<rparr>, w1))
        | Request i \<Rightarrow> if i < length (pr_requests p) then request_resume ctx i p w else None
        | Attempt n \<Rightarrow>
            if n < length (pr_attempts p)
            then (case pr_attempts p ! n of (a, pc) \<Rightarrow>
                    case attempt_resume ctx a pc w of
                      (pc', w1) \<Rightarrow> Some (p\<lparr>pr_attempts := (pr_attempts p)[n := (a, pc')]\<rparr>, w1))
            else None)"

text \<open>Gates built from the same dependencies share the world, cache included, and nothing else. The rest of
  the world moves at any time.\<close>

inductive gates_step ::
  "'w settlement_context \<Rightarrow> 'w process list \<times> 'w \<Rightarrow> 'w process list \<times> 'w \<Rightarrow> bool" for ctx where
  turn: "g < length ps \<Longrightarrow> take_turn ctx t (ps ! g, w) = Some (p', w') \<Longrightarrow> gates_step ctx (ps, w) (ps[g := p'], w')"
| elsewhere: "gates_step ctx (ps, w) (ps, w')"

fun run_turns ::
  "'w settlement_context \<Rightarrow> (nat \<times> 'w turn) list \<Rightarrow> 'w process list \<times> 'w \<Rightarrow> ('w process list \<times> 'w) option" where
  "run_turns ctx [] c = Some c"
| "run_turns ctx ((g, t) # turns) (ps, w) =
     (if g < length ps
      then (case take_turn ctx t (ps ! g, w) of
              None \<Rightarrow> None
            | Some (p', w') \<Rightarrow> run_turns ctx turns (ps[g := p'], w'))
      else None)"

lemma run_turns_steps: "run_turns ctx turns c = Some c' \<Longrightarrow> (gates_step ctx)\<^sup>*\<^sup>* c c'"
proof (induction ctx turns c rule: run_turns.induct)
  case (2 ctx g t turns ps w)
  then show ?case
    by (fastforce split: if_splits option.splits intro: gates_step.turn converse_rtranclp_into_rtranclp)
qed simp

subsection \<open>One settlement per payment\<close>

definition attempts_ok :: "'w process \<Rightarrow> bool" where
  "attempts_ok p \<longleftrightarrow> (\<forall>n<length (pr_attempts p). awaited p n = None \<longrightarrow>
     pr_inFlight p (at_key (fst (pr_attempts p ! n))) = Some n)"

definition inFlight_ok :: "'w process \<Rightarrow> bool" where
  "inFlight_ok p \<longleftrightarrow> (\<forall>k n. pr_inFlight p k = Some n \<longrightarrow>
     n < length (pr_attempts p) \<and> at_key (fst (pr_attempts p ! n)) = k)"

definition owner :: "'w process \<Rightarrow> nat \<Rightarrow> nat \<Rightarrow> bool" where
  "owner p i n \<longleftrightarrow> i < length (pr_requests p) \<and> snd (pr_requests p ! i) = Rq_owner n"

definition live :: "'w process \<Rightarrow> nat \<Rightarrow> bool" where
  "live p n \<longleftrightarrow> n < length (pr_attempts p) \<and> pr_inFlight p (at_key (fst (pr_attempts p ! n))) = Some n"

definition owners_ok :: "'w process \<Rightarrow> bool" where
  "owners_ok p \<longleftrightarrow> (\<forall>i n. owner p i n \<longrightarrow> live p n \<and> (\<forall>j. owner p j n \<longrightarrow> j = i))"

definition process_ok :: "'w process \<Rightarrow> bool" where
  "process_ok p \<longleftrightarrow> attempts_ok p \<and> inFlight_ok p \<and> owners_ok p"

lemma process_ok_idle: "process_ok idle_process"
  by (simp add: process_ok_def attempts_ok_def inFlight_ok_def owners_ok_def owner_def idle_process_def)

lemma awaited_set_request [simp]: "awaited (set_request i pc p) n = awaited p n"
  by (simp add: awaited_def set_request_def)

lemma set_request_fields [simp]:
  "pr_attempts (set_request i pc p) = pr_attempts p" "pr_inFlight (set_request i pc p) = pr_inFlight p"
  "length (pr_requests (set_request i pc p)) = length (pr_requests p)"
  by (simp_all add: set_request_def)

lemma request_at_set_request:
  "j < length (pr_requests p) \<Longrightarrow>
     pr_requests (set_request i pc p) ! j = (if j = i then (fst (pr_requests p ! i), pc) else pr_requests p ! j)"
  by (simp add: set_request_def nth_list_update)

text \<open>A request that turns to anything but an owner.\<close>

lemma process_okI: "\<lbrakk>attempts_ok p; inFlight_ok p; owners_ok p\<rbrakk> \<Longrightarrow> process_ok p"
  by (simp add: process_ok_def)

lemma process_okD:
  assumes "process_ok p"
  shows "attempts_ok p" "inFlight_ok p" "owners_ok p"
  using assms by (simp_all add: process_ok_def)

lemma owners_ok_transfer:
  assumes "owners_ok p" and "\<And>i n. owner q i n \<Longrightarrow> owner p i n" and "\<And>i n. owner q i n \<Longrightarrow> live p n \<Longrightarrow> live q n"
  shows "owners_ok q"
  unfolding owners_ok_def
proof (intro allI impI)
  fix i n assume o: "owner q i n"
  with assms(1) [unfolded owners_ok_def] assms(2) [OF o] have l: "live p n" and u: "\<forall>j. owner p j n \<longrightarrow> j = i" by simp_all
  from assms(3) [OF o l] u assms(2) show "live q n \<and> (\<forall>j. owner q j n \<longrightarrow> j = i)" by simp
qed

lemma live_set_request [simp]: "live (set_request i pc p) n = live p n"
  by (simp add: live_def)

lemma owner_set_request:
  "owner (set_request i pc p) j n \<longleftrightarrow> (if j = i then i < length (pr_requests p) \<and> pc = Rq_owner n else owner p j n)"
  by (auto simp: owner_def request_at_set_request)

lemma attempts_ok_set_request [simp]: "attempts_ok (set_request i pc p) = attempts_ok p"
  by (simp add: attempts_ok_def)

lemma inFlight_ok_set_request [simp]: "inFlight_ok (set_request i pc p) = inFlight_ok p"
  by (simp add: inFlight_ok_def)

lemma process_ok_set_request:
  assumes ok: "process_ok p" and pc: "\<And>n. pc \<noteq> Rq_owner n"
  shows "process_ok (set_request i pc p)"
proof (rule process_okI)
  show "owners_ok (set_request i pc p)"
    by (rule owners_ok_transfer [OF process_okD(3) [OF ok]]) (simp_all add: owner_set_request pc split: if_splits)
qed (use process_okD [OF ok] in simp_all)

lemma process_ok_arrive:
  assumes "process_ok p"
  shows "process_ok (p\<lparr>pr_requests := pr_requests p @ [(rq, Rq_verify x)]\<rparr>)" (is "process_ok ?q")
proof (rule process_okI)
  show "owners_ok ?q"
    by (rule owners_ok_transfer [OF process_okD(3) [OF assms]])
      (auto simp: owner_def live_def nth_append less_Suc_eq split: if_splits)
qed (use process_okD [OF assms] in \<open>simp_all add: attempts_ok_def inFlight_ok_def awaited_def\<close>)

lemma process_ok_attempt:
  assumes ok: "process_ok p" and at: "pr_attempts p ! n = (a, pc)" and n: "n < length (pr_attempts p)"
    and done_stays: "\<And>r. pc = At_done r \<Longrightarrow> pc' = At_done r"
  shows "process_ok (p\<lparr>pr_attempts := (pr_attempts p)[n := (a, pc')]\<rparr>)" (is "process_ok ?q")
proof (rule process_okI)
  have key: "fst ((pr_attempts p)[n := (a, pc')] ! m) = fst (pr_attempts p ! m)" if "m < length (pr_attempts p)" for m
    using that at by (cases "m = n") simp_all
  have aw: "awaited ?q m = None \<Longrightarrow> awaited p m = None" for m
    using at n done_stays by (cases "m = n") (auto simp: awaited_def split: attempt_pc.splits if_splits)
  show "owners_ok ?q"
    by (rule owners_ok_transfer [OF process_okD(3) [OF ok]]) (auto simp: owner_def live_def key)
  show "attempts_ok ?q" using process_okD(1) [OF ok] aw by (auto simp: attempts_ok_def key)
  show "inFlight_ok ?q" using process_okD(2) [OF ok] by (auto simp: inFlight_ok_def key)
qed

definition registered :: "'w attempt \<Rightarrow> attempt_pc \<Rightarrow> 'w process \<Rightarrow> 'w process" where
  "registered a pc p = p\<lparr>pr_attempts := pr_attempts p @ [(a, pc)],
     pr_inFlight := (pr_inFlight p)(at_key a \<mapsto> length (pr_attempts p))\<rparr>"

lemma start_attempt_registers:
  "\<exists>a pc. at_key a = settlement_key (in_model rq) nonce \<and>
     fst (start_attempt ctx i rq payer nonce p w) = set_request i (Rq_owner (length (pr_attempts p))) (registered a pc p)"
proof -
  let ?a = "\<lparr>at_handler = in_handler rq, at_payment = in_payment rq, at_offer = in_offer rq, at_model = in_model rq,
    at_payer = payer, at_nonce = nonce, at_key = settlement_key (in_model rq) nonce\<rparr>"
  obtain pc w1 where "attempt_resume ctx ?a At_called w = (pc, w1)" by (rule prod.exhaust)
  then have "fst (start_attempt ctx i rq payer nonce p w) =
      set_request i (Rq_owner (length (pr_attempts p))) (registered ?a pc p)"
    by (simp add: start_attempt_def registered_def Let_def)
  moreover have "at_key ?a = settlement_key (in_model rq) nonce" by simp
  ultimately show ?thesis by blast
qed

lemma process_ok_registered:
  assumes ok: "process_ok p" and fresh: "pr_inFlight p (at_key a) = None"
  shows "process_ok (set_request i (Rq_owner (length (pr_attempts p))) (registered a pc p))"
proof (rule process_okI)
  let ?N = "length (pr_attempts p)" and ?q = "registered a pc p"
  have fields: "pr_requests ?q = pr_requests p" "length (pr_attempts ?q) = Suc ?N"
    "fst (pr_attempts ?q ! ?N) = a" "pr_inFlight ?q = (pr_inFlight p)(at_key a \<mapsto> ?N)"
    by (simp_all add: registered_def)
  have old_at: "pr_attempts ?q ! n = pr_attempts p ! n" "awaited ?q n = awaited p n" if "n < ?N" for n
    using that by (simp_all add: awaited_def registered_def nth_append)
  note facts = fields old_at
  have apart: "at_key (fst (pr_attempts p ! n)) \<noteq> at_key a" if "pr_inFlight p (at_key (fst (pr_attempts p ! n))) = Some n" for n
    using fresh that by auto
  have "attempts_ok ?q" unfolding attempts_ok_def
  proof (intro allI impI)
    fix n assume n: "n < length (pr_attempts ?q)" "awaited ?q n = None"
    show "pr_inFlight ?q (at_key (fst (pr_attempts ?q ! n))) = Some n"
    proof (cases "n = ?N")
      case True
      then show ?thesis by (simp add: facts)
    next
      case False
      with n have "n < ?N" by (simp add: facts)
      moreover from this n process_okD(1) [OF ok] have "pr_inFlight p (at_key (fst (pr_attempts p ! n))) = Some n"
        by (simp add: attempts_ok_def facts)
      ultimately show ?thesis using apart [of n] by (simp add: facts)
    qed
  qed
  then show "attempts_ok (set_request i (Rq_owner ?N) ?q)" by simp
  have "inFlight_ok ?q" using process_okD(2) [OF ok] by (auto simp: inFlight_ok_def facts less_Suc_eq)
  then show "inFlight_ok (set_request i (Rq_owner ?N) ?q)" by simp
  have live_q: "live ?q ?N" "live p n \<Longrightarrow> live ?q n" for n
    using apart [of n] by (auto simp: live_def facts)
  have owner_q: "owner (set_request i (Rq_owner ?N) ?q) j n \<Longrightarrow> j = i \<and> n = ?N \<or> owner p j n" for j n
    unfolding owner_set_request by (auto simp: owner_def facts split: if_splits)
  have old: "owner p j n \<Longrightarrow> live p n \<and> (\<forall>j'. owner p j' n \<longrightarrow> j' = j)" for j n
    using process_okD(3) [OF ok] by (simp add: owners_ok_def)
  have new: "owner p j n \<Longrightarrow> n \<noteq> ?N" for j n using old [of j n] by (auto simp: live_def)
  show "owners_ok (set_request i (Rq_owner ?N) ?q)"
    unfolding owners_ok_def live_set_request using owner_q live_q old new by metis
qed

lemma process_ok_finish:
  assumes ok: "process_ok p" and i: "i < length (pr_requests p)" and own: "snd (pr_requests p ! i) = Rq_owner n"
    and res: "awaited p n = Some res"
  shows "process_ok (set_request i (Rq_done x) (p\<lparr>pr_inFlight := (pr_inFlight p)(at_key (fst (pr_attempts p ! n)) := None)\<rparr>))"
    (is "process_ok (set_request i (Rq_done x) ?q)")
proof (rule process_okI)
  let ?k = "at_key (fst (pr_attempts p ! n))"
  have old: "owner p j m \<Longrightarrow> live p m \<and> (\<forall>j'. owner p j' m \<longrightarrow> j' = j)" for j m
    using process_okD(3) [OF ok] by (simp add: owners_ok_def)
  have mine: "owner p i n" using i own by (simp add: owner_def)
  have aw: "awaited ?q m = awaited p m" for m by (simp add: awaited_def)
  have n: "pr_inFlight p ?k = Some n" using old [OF mine] by (simp add: live_def)
  have "pr_inFlight p (at_key (fst (pr_attempts p ! m))) = Some m \<and> m \<noteq> n"
    if "m < length (pr_attempts p)" "awaited p m = None" for m
    using process_okD(1) [OF ok] that res by (auto simp: attempts_ok_def)
  then have "attempts_ok ?q" unfolding attempts_ok_def aw using n by fastforce
  then show "attempts_ok (set_request i (Rq_done x) ?q)" by simp
  have "inFlight_ok ?q" using process_okD(2) [OF ok] by (auto simp: inFlight_ok_def)
  then show "inFlight_ok (set_request i (Rq_done x) ?q)" by simp
  have owner_q: "owner (set_request i (Rq_done x) ?q) j m \<Longrightarrow> j \<noteq> i \<and> owner p j m" for j m
    unfolding owner_set_request by (auto simp: owner_def split: if_splits)
  have live_q: "live p m \<Longrightarrow> m \<noteq> n \<Longrightarrow> live ?q m" for m using n by (auto simp: live_def)
  show "owners_ok (set_request i (Rq_done x) ?q)"
  proof (rule owners_ok_transfer [OF process_okD(3) [OF ok]])
    fix j m assume o: "owner (set_request i (Rq_done x) ?q) j m"
    from owner_q [OF o] show "owner p j m" by simp
    assume l: "live p m"
    have "m \<noteq> n" using owner_q [OF o] old [of j m] mine by blast
    from live_q [OF l this] show "live (set_request i (Rq_done x) ?q) m" by simp
  qed
qed

lemma process_ok_resume:
  assumes ok: "process_ok p" and i: "i < length (pr_requests p)" and step: "request_resume ctx i p w = Some (p', w')"
  shows "process_ok p'"
proof (cases "snd (pr_requests p ! i)")
  case (Rq_verify x)
  show ?thesis
  proof (cases x)
    case (Inl e)
    with step Rq_verify ok show ?thesis by (auto simp: request_resume_def Let_def intro: process_ok_set_request)
  next
    case (Inr v)
    show ?thesis
    proof (cases v)
      case (Verified payer nonce)
      show ?thesis
      proof (cases "pr_inFlight p (settlement_key (in_model (fst (pr_requests p ! i))) nonce)")
        case None
        have p': "p' = fst (start_attempt ctx i (fst (pr_requests p ! i)) payer nonce p w)"
          using step Rq_verify Inr Verified None by (simp add: request_resume_def Let_def)
        from start_attempt_registers [of "fst (pr_requests p ! i)" nonce ctx i payer p w] process_ok_registered [OF ok] None
        show ?thesis unfolding p' by auto
      next
        case (Some n)
        with step Rq_verify Inr Verified ok show ?thesis
          by (auto simp: request_resume_def Let_def intro: process_ok_set_request)
      qed
    next
      case (Not_verified reason)
      with step Rq_verify Inr ok show ?thesis by (auto simp: request_resume_def Let_def intro: process_ok_set_request)
    qed
  qed
next
  case (Rq_join n)
  with step ok show ?thesis by (auto simp: request_resume_def Let_def intro: process_ok_set_request)
next
  case (Rq_owner n)
  with step process_ok_finish [OF ok i Rq_owner] show ?thesis by (auto simp: request_resume_def Let_def)
next
  case (Rq_done x)
  with step show ?thesis by (simp add: request_resume_def Let_def)
qed

lemma process_ok_turn:
  assumes ok: "process_ok p" and "take_turn ctx t (p, w) = Some (p', w')"
  shows "process_ok p'"
proof (cases t)
  case (Arrive rq)
  with assms show ?thesis by (auto simp: take_turn_def intro: process_ok_arrive split: prod.splits)
next
  case (Request i)
  with assms show ?thesis by (auto simp: take_turn_def intro: process_ok_resume split: if_splits)
next
  case (Attempt n)
  obtain a pc where a: "pr_attempts p ! n = (a, pc)" by (rule prod.exhaust)
  obtain pc' w1 where r: "attempt_resume ctx a pc w = (pc', w1)" by (rule prod.exhaust)
  have "pc' = At_done r'" if "pc = At_done r'" for r' using r that by (simp add: attempt_resume_def)
  with process_ok_attempt [OF ok a, of pc'] assms(2) Attempt a r show ?thesis
    by (auto simp: take_turn_def split: if_splits)
qed

lemma gates_ok:
  assumes "(gates_step ctx)\<^sup>*\<^sup>* (ps, w) (ps', w')" and "\<forall>p\<in>set ps. process_ok p"
  shows "\<forall>p\<in>set ps'. process_ok p"
  using assms
proof (induction rule: rtranclp_induct2)
  case (step ps1 w1 ps2 w2)
  from step.hyps(2) step.IH [OF step.prems] show ?case
    by cases (auto dest!: subsetD [OF set_update_subset_insert] intro: process_ok_turn)
qed simp

subsection \<open>Properties\<close>

text \<open>C5. One gate never settles one payment twice at a time. However the requests of any number of gates
  interleave, and whatever the handler, the cache and the rest of the world do in between, two
  unfinished settlement attempts of one gate have different payment keys, and an unfinished attempt is
  the one later requests for its key will join.\<close>

theorem one_attempt_per_payment:
  assumes "(gates_step ctx)\<^sup>*\<^sup>* (replicate n idle_process, w) (ps, w')" and "p \<in> set ps"
    and "i < length (pr_attempts p)" and "awaited p i = None"
  shows "pr_inFlight p (at_key (fst (pr_attempts p ! i))) = Some i \<and>
     (\<forall>j<length (pr_attempts p). awaited p j = None \<longrightarrow>
        at_key (fst (pr_attempts p ! j)) = at_key (fst (pr_attempts p ! i)) \<longrightarrow> j = i)"
proof -
  have "process_ok p"
    by (rule bspec [OF gates_ok [OF assms(1)] assms(2)]) (simp add: process_ok_idle)
  then have "attempts_ok p" by (rule process_okD)
  then have reg: "pr_inFlight p (at_key (fst (pr_attempts p ! j))) = Some j"
    if "j < length (pr_attempts p)" "awaited p j = None" for j
    using that by (simp add: attempts_ok_def)
  have "j = i" if "j < length (pr_attempts p)" "awaited p j = None"
      "at_key (fst (pr_attempts p ! j)) = at_key (fst (pr_attempts p ! i))" for j
    using reg [OF that(1,2), unfolded that(3)] reg [OF assms(3,4)] by simp
  with reg [OF assms(3,4)] show ?thesis by blast
qed

text \<open>Two requests with one payment, on one gate and on two.\<close>

definition twin_request :: "nat request" where
  "twin_request = \<lparr>in_handler = counting_handler, in_payment = X402Payment ''sig'', in_offer = x402_offer, in_model = X402\<rparr>"

definition cacheless_ctx :: "nat settlement_context" where
  "cacheless_ctx = (sample_ctx broken_cache)\<lparr>ctx_cache := None\<rparr>"

theorem one_attempt_per_payment_witness:
  "\<exists>ps w. (gates_step cacheless_ctx)\<^sup>*\<^sup>* (replicate 1 idle_process, 0) (ps, w) \<and>
     map snd (pr_requests (ps ! 0)) = [Rq_owner 0, Rq_join 0] \<and>
     pr_inFlight (ps ! 0) (at_key (fst (pr_attempts (ps ! 0) ! 0))) = Some 0"
proof -
  let ?turns = "[(0, Arrive twin_request), (0, Arrive twin_request), (0, Request 0), (0, Request 1)]"
  have run: "case run_turns cacheless_ctx ?turns ([idle_process], 0) of None \<Rightarrow> False
      | Some (ps, w) \<Rightarrow> length ps = 1 \<and> length (pr_attempts (ps ! 0)) = 1 \<and> awaited (ps ! 0) 0 = None \<and>
          map snd (pr_requests (ps ! 0)) = [Rq_owner 0, Rq_join 0]"
    by code_simp
  then obtain ps w where r: "run_turns cacheless_ctx ?turns ([idle_process], 0) = Some (ps, w)" "length ps = 1"
      "length (pr_attempts (ps ! 0)) = 1" "awaited (ps ! 0) 0 = None"
      "map snd (pr_requests (ps ! 0)) = [Rq_owner 0, Rq_join 0]"
    by (cases "run_turns cacheless_ctx ?turns ([idle_process], 0)") (auto simp del: run_turns.simps)
  have steps: "(gates_step cacheless_ctx)\<^sup>*\<^sup>* (replicate 1 idle_process, 0) (ps, w)"
    using run_turns_steps [OF r(1)] by simp
  have "ps ! 0 \<in> set ps" using r(2) by simp
  from one_attempt_per_payment [OF steps this _ r(4)] r(3)
  have "pr_inFlight (ps ! 0) (at_key (fst (pr_attempts (ps ! 0) ! 0))) = Some 0" by simp
  with steps r(5) show ?thesis by (intro exI conjI)
qed

text \<open>The same over the in-memory cache, with a world that counts the settlements.\<close>

definition counted_handler :: "(mem_cache \<times> nat) handler" where
  "counted_handler = \<lparr>h_verify = (\<lambda>p offer w. (Inr (Verified ''GA'' ''n1''), w)),
     h_settle = (\<lambda>p offer payer nonce (c, n). (Inr (Settled ''tx1''), (c, Suc n)))\<rparr>"

definition counted_request :: "(mem_cache \<times> nat) request" where
  "counted_request = \<lparr>in_handler = counted_handler, in_payment = X402Payment ''sig'', in_offer = x402_offer, in_model = X402\<rparr>"

text \<open>What the gate's map of settlements in progress does not cover: two gates of one process that share
  the in-memory cache settle one payment twice when the second looks the payment up before the first
  has stored its receipt. The two requests run each on its own gate, and the handler counts two
  settlements of one key.\<close>

theorem two_gates_settle_twice:
  "case run_turns (sample_ctx (createInMemorySettlementCache 30000))
      [(0, Arrive counted_request), (1, Arrive counted_request), (0, Request 0), (1, Request 0), (0, Attempt 0), (1, Attempt 0)]
      ([idle_process, idle_process], (\<lparr>cache_entries = Map.empty, cache_clock = 0\<rparr>, 0)) of
     None \<Rightarrow> False
   | Some (ps, c, settlements) \<Rightarrow> settlements = 2 \<and>
       map (\<lambda>p. map (at_key \<circ> fst) (pr_attempts p)) ps = [[''x402:n1''], [''x402:n1'']]"
  by code_simp

text \<open>C21. Interleaving is the only difference: the segments of an attempt, run one after the other in an
  undisturbed world, are the body of \<open>settleOnce\<close>, with its lookups, its lock, its settlement and its
  release in that order, and eight of them always suffice.\<close>

theorem attempt_segments_are_settleOnce:
  "attempt_segments 8 ctx a (At_called, w) = map_prod At_done id
     (settleOnce ctx (at_handler a) (at_payment a) (at_offer a) (at_model a) (at_payer a) (at_nonce a) (at_key a) w)"
  by (rule attempt_uninterrupted)

end
