(* ===== verification/Client.thy ===== *)
theory Client
  imports PolicyHistory Router Headers
begin

text \<open>
  The agent's client, \<open>packages/client/src/index.ts\<close>. \<open>pay\<close> decides the model, asks the policy, settles,
  verifies the receipt, records the payment and emits events. The policy engine, router, settler,
  verifier and event handlers are injected: they run in a world of any type and may throw any value.
  Calls run without interruption; \<open>PolicyHistory\<close> shows what interleaved calls do to a policy engine.

  The locale \<open>budget_policy\<close> is what a payer relies on from a policy engine with a total budget; the
  interpretation shows that the engine of \<open>Policy\<close> provides it for every policy and every clock.
\<close>

subsection \<open>Errors\<close>

text \<open>Errors the client throws: its own two classes, or an error of an injected part.\<close>

datatype pay_error =
    PolicyBlockedError (blocked_by: string) (blocked_because: string)
  | ReceiptVerificationError (failed_because: string)
  | Other_error js_error

fun pay_error_code :: "pay_error \<Rightarrow> tollway_error_code option" where
  "pay_error_code (PolicyBlockedError _ _) = Some Policy_blocked"
| "pay_error_code (ReceiptVerificationError _) = Some Receipt_verification_failed"
| "pay_error_code (Other_error e) = error_code e"

fun pay_error_message :: "pay_error \<Rightarrow> string" where
  "pay_error_message (PolicyBlockedError rule detail) = ''policy blocked payment: '' @ rule @ '' ('' @ detail @ '')''"
| "pay_error_message (ReceiptVerificationError reason) = ''receipt failed verification: '' @ reason"
| "pay_error_message (Other_error e) = error_message e"

text \<open>A thrown value need not be an error: \<open>None\<close> stands for \<open>undefined\<close>.\<close>

datatype thrown = Thrown_error pay_error | Thrown_string string | Thrown_value "json option"

definition normalizeError :: "thrown \<Rightarrow> pay_error" where
  "normalizeError v =
     (case v of
        Thrown_error e \<Rightarrow> e
      | Thrown_string s \<Rightarrow> Other_error (PlatformError ''Error'' s)
      | Thrown_value None \<Rightarrow> Other_error (PlatformError ''Error'' [])
      | Thrown_value (Some j) \<Rightarrow> Other_error (PlatformError ''Error'' (json_stringify j)))"

definition rejects :: "'a result \<Rightarrow> thrown + 'a" where
  "rejects r = map_sum (Thrown_error \<circ> Other_error) id r"

subsection \<open>The injected parts\<close>

datatype client_event =
    Payment_event string settlement_model signed_receipt
  | Skip_event string string
  | Error_event string pay_error
  | Budget_warning_event string
  | Channel_opened_event string
  | Channel_closed_event string

type_synonym 'w event_handler = "client_event \<Rightarrow> 'w \<Rightarrow> (thrown + unit) \<times> 'w"

record settle_request =
  settle_resource :: string
  settle_offer :: payment_offer
  settle_model :: settlement_model

type_synonym 'w settler = "settle_request \<Rightarrow> 'w \<Rightarrow> (thrown + signed_receipt) \<times> 'w"

record 'w policy_engine =
  policy_check :: "payment_intent \<Rightarrow> 'w \<Rightarrow> (thrown + policy_decision) \<times> 'w"
  policy_record :: "payment_intent \<Rightarrow> 'w \<Rightarrow> (thrown + unit) \<times> 'w"

type_synonym 'w model_router = "route_input \<Rightarrow> 'w \<Rightarrow> (thrown + route_decision) \<times> 'w"

text \<open>The verifier comes with the receipt schema that \<open>verifyReceipt\<close> applies first.\<close>

record verifier =
  verifier_schema :: "signed_receipt \<Rightarrow> issue list + signed_receipt"
  verifier_verify :: receipt_verifier

record 'w client_options =
  opt_network :: stellar_network
  opt_settler :: "'w settler"
  opt_policy :: "'w policy_engine option"
  opt_router :: "'w model_router option"
  opt_verifier :: "verifier option"
  opt_facilitatorUrl :: "string option"

record pay_request =
  pay_resource :: string
  pay_offer :: payment_offer
  pay_model :: "settlement_model option"

type_synonym pay_result = "signed_receipt \<times> settlement_model"

subsection \<open>pay\<close>

fun emit :: "'w event_handler list \<Rightarrow> client_event \<Rightarrow> 'w \<Rightarrow> 'w" where
  "emit [] event w = w"
| "emit (handler # handlers) event w = emit handlers event (snd (handler event w))"

definition client_on :: "'w event_handler \<Rightarrow> 'w event_handler list \<Rightarrow> 'w event_handler list" where
  "client_on handler handlers = handlers @ [handler]"

definition decideModel :: "'w model_router option \<Rightarrow> pay_request \<Rightarrow> 'w \<Rightarrow> (thrown + settlement_model) \<times> 'w" where
  "decideModel router request w =
     (case pay_model request of
        Some model \<Rightarrow> (Inr model, w)
      | None \<Rightarrow>
          (case router of
             None \<Rightarrow> (Inr X402, w)
           | Some route_to \<Rightarrow>
               map_prod (map_sum id decided_model) id
                 (route_to \<lparr>route_counterparty = offer_payTo (pay_offer request), route_resource = pay_resource request,
                    route_offer = Some (pay_offer request), route_traffic = None, route_override = None,
                    route_allowedModels = None\<rparr> w)))"

definition pay_intent :: "pay_request \<Rightarrow> settlement_model \<Rightarrow> payment_intent" where
  "pay_intent request model =
     \<lparr>intent_payee = offer_payTo (pay_offer request), intent_resource = pay_resource request,
      intent_amount = offer_amount (pay_offer request), intent_asset = offer_asset (pay_offer request),
      intent_model = model\<rparr>"

definition ask_policy ::
  "'w client_options \<Rightarrow> 'w event_handler list \<Rightarrow> pay_request \<Rightarrow> payment_intent \<Rightarrow> 'w \<Rightarrow> (thrown + unit) \<times> 'w" where
  "ask_policy opts handlers request intent w =
     (case opt_policy opts of
        None \<Rightarrow> (Inr (), w)
      | Some engine \<Rightarrow>
          (case policy_check engine intent w of
             (Inl v, w1) \<Rightarrow> (Inl v, w1)
           | (Inr Allowed, w1) \<Rightarrow> (Inr (), w1)
           | (Inr (Blocked rule detail), w1) \<Rightarrow>
               (Inl (Thrown_error (PolicyBlockedError rule detail)),
                emit handlers (Skip_event (pay_resource request) (rule @ '': '' @ detail)) w1)))"

definition check_receipt :: "'w client_options \<Rightarrow> signed_receipt \<Rightarrow> thrown + unit" where
  "check_receipt opts r =
     (case opt_verifier opts of
        None \<Rightarrow> Inr ()
      | Some v \<Rightarrow>
          (case rejects (verifyReceipt (verifier_schema v) r (verifier_verify v)) of
             Inl e \<Rightarrow> Inl e
           | Inr Valid \<Rightarrow> Inr ()
           | Inr (Invalid reason) \<Rightarrow> Inl (Thrown_error (ReceiptVerificationError reason))))"

definition record_intent :: "'w client_options \<Rightarrow> payment_intent \<Rightarrow> 'w \<Rightarrow> (thrown + unit) \<times> 'w" where
  "record_intent opts intent w =
     (case opt_policy opts of None \<Rightarrow> (Inr (), w) | Some engine \<Rightarrow> policy_record engine intent w)"

text \<open>The body of the \<open>try\<close> block.\<close>

definition try_pay ::
  "'w client_options \<Rightarrow> 'w event_handler list \<Rightarrow> pay_request \<Rightarrow> 'w \<Rightarrow> (thrown + pay_result) \<times> 'w" where
  "try_pay opts handlers request w =
     (case decideModel (opt_router opts) request w of
        (Inl v, w1) \<Rightarrow> (Inl v, w1)
      | (Inr model, w1) \<Rightarrow>
          (case ask_policy opts handlers request (pay_intent request model) w1 of
             (Inl v, w2) \<Rightarrow> (Inl v, w2)
           | (Inr _, w2) \<Rightarrow>
               (case opt_settler opts \<lparr>settle_resource = pay_resource request, settle_offer = pay_offer request,
                       settle_model = model\<rparr> w2 of
                  (Inl v, w3) \<Rightarrow> (Inl v, w3)
                | (Inr r, w3) \<Rightarrow>
                    (case check_receipt opts r of
                       Inl v \<Rightarrow> (Inl v, w3)
                     | Inr _ \<Rightarrow>
                         (case record_intent opts (pay_intent request model) w3 of
                            (Inl v, w4) \<Rightarrow> (Inl v, w4)
                          | (Inr _, w4) \<Rightarrow>
                              (Inr (r, model), emit handlers (Payment_event (pay_resource request) model r) w4))))))"

definition pay ::
  "'w client_options \<Rightarrow> 'w event_handler list \<Rightarrow> pay_request \<Rightarrow> 'w \<Rightarrow> (pay_error + pay_result) \<times> 'w" where
  "pay opts handlers request w =
     (case try_pay opts handlers request w of
        (Inr r, w1) \<Rightarrow> (Inr r, w1)
      | (Inl rawError, w1) \<Rightarrow>
          (let error = normalizeError rawError
           in (Inl error, emit handlers (Error_event (pay_resource request) error) w1)))"

end
