(* ===== verification/ClientProofs.thy ===== *)
theory ClientProofs
  imports Client
begin

text \<open>
  What the client promises. A payment that returns passed the policy, the settler, the verifier and the
  record, in this order; everything else ends in an error event and the same error thrown. Over an
  engine of \<open>Policy\<close>, payments made one after the other stay within the total budget.
\<close>

subsection \<open>Frames\<close>

definition leaves :: "(string \<Rightarrow> 'w \<Rightarrow> nat) \<Rightarrow> ('i \<Rightarrow> 'w \<Rightarrow> 'r \<times> 'w) \<Rightarrow> bool" where
  "leaves view f \<longleftrightarrow> (\<forall>a x w. view a (snd (f x w)) = view a w)"

lemma leavesD: "leaves view f \<Longrightarrow> f x w = (r, w') \<Longrightarrow> view a w' = view a w"
  unfolding leaves_def by (metis snd_conv)

lemma emit_leaves: "\<forall>h\<in>set hs. leaves view h \<Longrightarrow> view a (emit hs ev w) = view a w"
  by (induction hs arbitrary: w) (auto simp: leaves_def)

lemma decideModel_leaves:
  assumes "\<And>r. router = Some r \<Longrightarrow> leaves view r"
  shows "view a (snd (decideModel router request w)) = view a w"
  using assms unfolding decideModel_def leaves_def by (auto split: option.splits)

subsection \<open>The policy a payer relies on\<close>

locale budget_policy =
  fixes P :: "'w policy_engine" and booked :: "string \<Rightarrow> 'w \<Rightarrow> nat" and limit :: "string option"
  assumes check_frame: "booked a (snd (policy_check P i w)) = booked a w"
    and check_allows: "fst (policy_check P i w) = Inr Allowed \<Longrightarrow>
      fits limit (booked (intent_asset i) w + BigInt (intent_amount i))"
    and record_books: "booked a (snd (policy_record P i w)) = booked a w +
      (if isl (fst (policy_record P i w)) \<or> a \<noteq> intent_asset i then 0 else BigInt (intent_amount i))"
begin

lemma ask_policy_books:
  assumes "opt_policy opts = Some P" and hs: "\<forall>h\<in>set hs. leaves booked h"
    and "ask_policy opts hs request i w = (x, w')"
  shows "booked a w' = booked a w"
    and "x = Inr () \<Longrightarrow> fits limit (booked (intent_asset i) w + BigInt (intent_amount i))"
proof -
  obtain d w1 where c: "policy_check P i w = (d, w1)" by (rule prod.exhaust)
  show "booked a w' = booked a w"
    using assms c check_frame [of a i w]
    by (auto simp: ask_policy_def emit_leaves [OF hs] split: sum.splits policy_decision.splits)
  assume "x = Inr ()"
  with assms c have "d = Inr Allowed" by (auto simp: ask_policy_def split: sum.splits policy_decision.splits)
  with check_allows [of i w] c show "fits limit (booked (intent_asset i) w + BigInt (intent_amount i))" by simp
qed

lemma record_intent_books:
  assumes "opt_policy opts = Some P" and "record_intent opts i w = (x, w')"
  shows "booked a w' = booked a w + (if isl x \<or> a \<noteq> intent_asset i then 0 else BigInt (intent_amount i))"
  using assms record_books [of a i w] by (auto simp: record_intent_def)

text \<open>A payment books its amount exactly when it returns, and then the total fits.\<close>

lemma try_pay_books:
  assumes pol: "opt_policy opts = Some P" and set: "leaves booked (opt_settler opts)"
    and rt: "\<And>r. opt_router opts = Some r \<Longrightarrow> leaves booked r" and hs: "\<forall>h\<in>set hs. leaves booked h"
    and run: "try_pay opts hs request w = (x, w')"
  shows "booked a w' = booked a w +
      (if isl x \<or> a \<noteq> offer_asset (pay_offer request) then 0 else BigInt (offer_amount (pay_offer request)))"
    and "\<not> isl x \<Longrightarrow> fits limit (booked (offer_asset (pay_offer request)) w')"
proof -
  obtain m w1 where d: "decideModel (opt_router opts) request w = (m, w1)" by (rule prod.exhaust)
  have b1: "booked a w1 = booked a w" for a
    using decideModel_leaves [OF rt, of "opt_router opts" a request w] d by simp
  have "(\<forall>a. booked a w' = booked a w + (if isl x \<or> a \<noteq> offer_asset (pay_offer request) then 0 else BigInt (offer_amount (pay_offer request)))) \<and>
    (\<not> isl x \<longrightarrow> fits limit (booked (offer_asset (pay_offer request)) w'))"
  proof (cases m)
    case (Inl v)
    with run d b1 show ?thesis by (auto simp: try_pay_def)
  next
    case (Inr model)
    let ?i = "pay_intent request model"
    have i: "intent_asset ?i = offer_asset (pay_offer request)" "intent_amount ?i = offer_amount (pay_offer request)"
      by (simp_all add: pay_intent_def)
    obtain y w2 where p: "ask_policy opts hs request ?i w1 = (y, w2)" by (rule prod.exhaust)
    note asked = ask_policy_books [OF pol hs p]
    show ?thesis
    proof (cases y)
      case (Inl v)
      with run d Inr p b1 asked(1) show ?thesis by (auto simp: try_pay_def)
    next
      case y: (Inr u)
      let ?q = "\<lparr>settle_resource = pay_resource request, settle_offer = pay_offer request, settle_model = model\<rparr>"
      obtain r w3 where s: "opt_settler opts ?q w2 = (r, w3)" by (rule prod.exhaust)
      have b3: "booked a w3 = booked a w2" for a by (rule leavesD [OF set s])
      show ?thesis
      proof (cases "isl r \<or> isl (check_receipt opts (projr r))")
        case True
        with run d Inr p y s b1 b3 asked(1) show ?thesis by (auto simp: try_pay_def isl_def split: sum.splits)
      next
        case False
        obtain z w4 where rec: "record_intent opts ?i w3 = (z, w4)" by (rule prod.exhaust)
        note b4 = record_intent_books [OF pol rec]
        have lim: "fits limit (booked (intent_asset ?i) w1 + BigInt (intent_amount ?i))" using asked(2) y by simp
        from False run d Inr p y s rec have "(\<exists>v. z = Inl v \<and> x = Inl v \<and> w' = w4) \<or>
            (\<exists>v. z = Inr v \<and> \<not> isl x \<and> w' = emit hs (Payment_event (pay_resource request) model (projr r)) w4)"
          by (auto simp: try_pay_def isl_def split: sum.splits)
        then show ?thesis
        proof (elim disjE exE conjE)
          fix v assume "z = Inl v" "x = Inl v" "w' = w4"
          then show ?thesis using b4 b3 asked(1) b1 by simp
        next
          fix v assume "z = Inr v" "\<not> isl x" "w' = emit hs (Payment_event (pay_resource request) model (projr r)) w4"
          then show ?thesis using b4 b3 asked(1) b1 lim by (simp add: emit_leaves [OF hs] i)
        qed
      qed
    qed
  qed
  then show "booked a w' = booked a w + (if isl x \<or> a \<noteq> offer_asset (pay_offer request) then 0 else BigInt (offer_amount (pay_offer request)))"
    and "\<not> isl x \<Longrightarrow> fits limit (booked (offer_asset (pay_offer request)) w')" by blast+
qed

lemma pay_books:
  assumes pol: "opt_policy opts = Some P" and set: "leaves booked (opt_settler opts)"
    and rt: "\<And>r. opt_router opts = Some r \<Longrightarrow> leaves booked r" and hs: "\<forall>h\<in>set hs. leaves booked h"
    and run: "pay opts hs request w = (x, w')"
  shows "booked a w' = booked a w +
      (if isl x \<or> a \<noteq> offer_asset (pay_offer request) then 0 else BigInt (offer_amount (pay_offer request)))"
    and "\<not> isl x \<Longrightarrow> fits limit (booked (offer_asset (pay_offer request)) w')"
proof -
  obtain y w1 where t: "try_pay opts hs request w = (y, w1)" by (rule prod.exhaust)
  note b = try_pay_books [OF pol set rt hs t]
  show "booked a w' = booked a w +
      (if isl x \<or> a \<noteq> offer_asset (pay_offer request) then 0 else BigInt (offer_amount (pay_offer request)))"
    using run t b(1) by (auto simp: pay_def Let_def emit_leaves [OF hs] split: sum.splits)
  assume "\<not> isl x"
  with run t b(2) show "fits limit (booked (offer_asset (pay_offer request)) w')"
    by (auto simp: pay_def Let_def split: sum.splits)
qed

end

subsection \<open>The engine provides it\<close>

text \<open>An engine with its clock, beside a world of the other parts; \<open>tick n\<close> is the clock's n-th reading.\<close>

type_synonym 'h engine_world = "(engine \<times> nat) \<times> 'h"

definition engine_policy :: "policy \<Rightarrow> (nat \<Rightarrow> int) \<Rightarrow> 'h engine_world policy_engine" where
  "engine_policy pol tick =
     \<lparr>policy_check = (\<lambda>i ((st, n), h).
        case check pol (tick n) (tick (n + 1)) (tick (n + 2)) i st of (d, st') \<Rightarrow> (rejects d, ((st', n + 3), h))),
      policy_record = (\<lambda>i ((st, n), h).
        case record_payment (tick n) (tick (n + 1)) (tick (n + 2)) i st of (d, st') \<Rightarrow> (rejects d, ((st', n + 3), h)))\<rparr>"

definition booked_total :: "string \<Rightarrow> 'h engine_world \<Rightarrow> nat" where
  "booked_total a w = get_or 0 (totalSpend (fst (fst w))) a"

lemma reset_total: "resetDailyIfNeeded t st = Inr st1 \<Longrightarrow> totalSpend st1 = totalSpend st"
  by (auto simp: resetDailyIfNeeded_def split: sum.splits if_splits)

lemma rate_total: "check_rate pol t st = (d, st1) \<Longrightarrow> totalSpend st1 = totalSpend st \<and> d \<noteq> Some Allowed"
  by (auto simp: check_rate_def Let_def split: option.splits if_splits)

lemma anomaly_total: "check_anomaly pol t i n st = (d, st1) \<Longrightarrow> totalSpend st1 = totalSpend st"
  by (auto simp: check_anomaly_def Let_def split: option.splits sum.splits if_splits)

lemma check_total_frame: "check pol t0 t1 t2 i st = (d, st') \<Longrightarrow> totalSpend st' = totalSpend st"
  unfolding check_def
  by (auto dest!: reset_total rate_total anomaly_total split: sum.splits option.splits prod.splits)

lemma rules_block:
  "check_model pol i n \<noteq> Inr (Some Allowed)" "check_daily pol i n st \<noteq> Inr (Some Allowed)"
  "check_total pol i n st \<noteq> Inr (Some Allowed)" "check_service pol i n st \<noteq> Inr (Some Allowed)"
  by (auto simp: check_model_def check_daily_def check_total_def check_service_def Let_def split: option.splits sum.splits)

lemma or_else_None: "or_else r k = Inr None \<longleftrightarrow> r = Inr None \<and> k = Inr None"
  by (auto simp: or_else_def split: sum.splits option.splits)

lemma or_else_blocks: "r \<noteq> Inr (Some d) \<Longrightarrow> k \<noteq> Inr (Some d) \<Longrightarrow> or_else r k \<noteq> Inr (Some d)"
  by (auto simp: or_else_def split: sum.splits option.splits)

lemma static_rules_block: "static_rules pol i n st \<noteq> Inr (Some Allowed)"
  unfolding static_rules_def by (intro or_else_blocks rules_block)

lemma check_total_fits:
  "check_total pol i n st = Inr None \<Longrightarrow>
     fits (Option.bind (budgets pol) cfg_total) (get_or 0 (totalSpend st) (intent_asset i) + n)"
  by (auto simp: check_total_def fits_def parseAmount_def Let_def split: option.splits sum.splits if_splits)

lemma check_allowed_fits:
  assumes "check pol t0 t1 t2 i st = (Inr Allowed, st')"
  shows "fits (Option.bind (budgets pol) cfg_total) (get_or 0 (totalSpend st) (intent_asset i) + BigInt (intent_amount i))"
proof -
  from assms obtain st1 where "resetDailyIfNeeded t0 st = Inr st1" "AMOUNT_RE (intent_amount i)"
    and "static_rules pol i (BigInt (intent_amount i)) st1 = Inr None"
    using static_rules_block unfolding check_def parseAmount_def
    by (fastforce split: sum.splits if_splits option.splits)
  with check_total_fits [of pol i "BigInt (intent_amount i)" st1] reset_total [of t0 st st1] show ?thesis
    by (simp add: static_rules_def or_else_None)
qed

lemma record_total:
  assumes "record_payment t0 t1 t2 i st = (d, st')"
  shows "get_or 0 (totalSpend st') a = get_or 0 (totalSpend st) a +
    (if isl d \<or> a \<noteq> intent_asset i then 0 else BigInt (intent_amount i))"
  using assms unfolding record_payment_def applyRecord_def
  by (auto simp: bump_def parseAmount_def dest!: reset_total split: sum.splits prod.splits if_splits)

interpretation engine_policy: budget_policy "engine_policy pol tick" booked_total "Option.bind (budgets pol) cfg_total"
  for pol tick
proof
  fix a i and w :: "'a engine_world"
  obtain st n h where w: "w = ((st, n), h)" by (metis prod.exhaust)
  obtain d st' where c: "check pol (tick n) (tick (n + 1)) (tick (n + 2)) i st = (d, st')" by (rule prod.exhaust)
  obtain e st2 where r: "record_payment (tick n) (tick (n + 1)) (tick (n + 2)) i st = (e, st2)" by (rule prod.exhaust)
  show "booked_total a (snd (policy_check (engine_policy pol tick) i w)) = booked_total a w"
    using check_total_frame [OF c] c by (simp add: w engine_policy_def booked_total_def)
  show "booked_total a (snd (policy_record (engine_policy pol tick) i w)) = booked_total a w +
      (if isl (fst (policy_record (engine_policy pol tick) i w)) \<or> a \<noteq> intent_asset i then 0 else BigInt (intent_amount i))"
    using record_total [OF r, of a] r by (cases e) (simp_all add: w engine_policy_def booked_total_def rejects_def)
  assume "fst (policy_check (engine_policy pol tick) i w) = Inr Allowed"
  then have "d = Inr Allowed" using c by (cases d) (simp_all add: w engine_policy_def rejects_def)
  with check_allowed_fits c show "fits (Option.bind (budgets pol) cfg_total) (booked_total (intent_asset i) w + BigInt (intent_amount i))"
    by (simp add: w booked_total_def)
qed

subsection \<open>Sessions\<close>

text \<open>Payments one after the other, with the results each caller gets.\<close>

fun pay_all ::
  "'w client_options \<Rightarrow> 'w event_handler list \<Rightarrow> pay_request list \<Rightarrow> 'w \<Rightarrow> (pay_error + pay_result) list \<times> 'w" where
  "pay_all opts hs [] w = ([], w)"
| "pay_all opts hs (request # requests) w =
     (case pay opts hs request w of (x, w1) \<Rightarrow> map_prod (Cons x) id (pay_all opts hs requests w1))"

text \<open>The total of one asset over the payments that returned.\<close>

definition paid :: "string \<Rightarrow> pay_request list \<Rightarrow> (pay_error + pay_result) list \<Rightarrow> nat" where
  "paid a requests results =
     sum_list (map (\<lambda>(q, x). if isl x \<or> a \<noteq> offer_asset (pay_offer q) then 0 else BigInt (offer_amount (pay_offer q)))
       (zip requests results))"

text \<open>A part that works on the rest of the world.\<close>

definition on_rest :: "('i \<Rightarrow> 'h \<Rightarrow> 'r \<times> 'h) \<Rightarrow> 'i \<Rightarrow> 'p \<times> 'h \<Rightarrow> 'r \<times> ('p \<times> 'h)" where
  "on_rest f x w = (case f x (snd w) of (r, h) \<Rightarrow> (r, (fst w, h)))"

lemma on_rest_leaves [simp]: "leaves booked_total (on_rest f)"
  by (simp add: leaves_def on_rest_def booked_total_def split: prod.splits)

definition engine_client ::
  "policy \<Rightarrow> (nat \<Rightarrow> int) \<Rightarrow> 'h settler \<Rightarrow> 'h model_router option \<Rightarrow> verifier option \<Rightarrow> 'h engine_world client_options" where
  "engine_client pol tick settler router verifier =
     \<lparr>opt_network = Testnet, opt_settler = on_rest settler, opt_policy = Some (engine_policy pol tick),
      opt_router = map_option on_rest router, opt_verifier = verifier, opt_facilitatorUrl = None\<rparr>"

lemma engine_client_pay:
  fixes w :: "'h engine_world"
  assumes "pay (engine_client pol tick settler router verifier) (map on_rest hs) request w = (x, w')"
  shows "booked_total a w' = booked_total a w +
      (if isl x \<or> a \<noteq> offer_asset (pay_offer request) then 0 else BigInt (offer_amount (pay_offer request)))"
    and "\<not> isl x \<Longrightarrow> fits (Option.bind (budgets pol) cfg_total) (booked_total (offer_asset (pay_offer request)) w')"
proof -
  have "opt_policy (engine_client pol tick settler router verifier) = Some (engine_policy pol tick)"
    "leaves booked_total (opt_settler (engine_client pol tick settler router verifier))"
    "\<And>r. opt_router (engine_client pol tick settler router verifier) = Some r \<Longrightarrow> leaves booked_total r"
    "\<forall>h\<in>set (map on_rest hs). leaves booked_total (h :: 'h engine_world event_handler)"
    by (auto simp: engine_client_def)
  note books = engine_policy.pay_books [OF this assms]
  show "booked_total a w' = booked_total a w +
      (if isl x \<or> a \<noteq> offer_asset (pay_offer request) then 0 else BigInt (offer_amount (pay_offer request)))"
    by (rule books(1))
  show "\<not> isl x \<Longrightarrow> fits (Option.bind (budgets pol) cfg_total) (booked_total (offer_asset (pay_offer request)) w')"
    by (rule books(2))
qed

lemma engine_client_session:
  fixes w :: "'h engine_world"
  assumes "fits (Option.bind (budgets pol) cfg_total) (booked_total a w)"
  shows "case pay_all (engine_client pol tick settler router verifier) (map on_rest hs) requests w of (xs, w') \<Rightarrow>
    booked_total a w' = booked_total a w + paid a requests xs \<and>
    fits (Option.bind (budgets pol) cfg_total) (booked_total a w')"
  using assms
proof (induction requests arbitrary: w)
  case Nil
  then show ?case by (simp add: paid_def)
next
  case (Cons q qs)
  let ?pay = "pay (engine_client pol tick settler router verifier) (map on_rest hs)"
  let ?all = "pay_all (engine_client pol tick settler router verifier) (map on_rest hs)"
  obtain x w1 where p: "?pay q w = (x, w1)" by (rule prod.exhaust)
  obtain xs w2 where ps: "?all qs w1 = (xs, w2)" by (rule prod.exhaust)
  have fit: "fits (Option.bind (budgets pol) cfg_total) (booked_total a w1)"
  proof (cases "isl x \<or> a \<noteq> offer_asset (pay_offer q)")
    case True
    with engine_client_pay(1) [OF p, of a] Cons.prems show ?thesis by simp
  next
    case False
    with engine_client_pay(2) [OF p] show ?thesis by simp
  qed
  have "booked_total a w2 = booked_total a w1 + paid a qs xs \<and>
      fits (Option.bind (budgets pol) cfg_total) (booked_total a w2)"
    using Cons.IH [OF fit] unfolding ps prod.case .
  note ih = conjunct1 [OF this] conjunct2 [OF this]
  have "booked_total a w2 = booked_total a w + paid a (q # qs) (x # xs)"
    using ih(1) engine_client_pay(1) [OF p, of a] by (simp add: paid_def)
  with ih(2) show ?case by (simp only: pay_all.simps p ps prod.case map_prod_simp id_apply simp_thms)
qed

subsection \<open>Properties\<close>

text \<open>C7. Payments made one after the other stay within the total budget. Whatever the settler, the router,
  the verifier, the event handlers and the clock do, the payments of a client that returned a receipt
  sum up, per asset, to at most the policy's total budget.\<close>

theorem client_stays_within_total_budget:
  fixes w :: "'h engine_world"
  assumes "booked_total a w = 0"
  shows "fits (Option.bind (budgets pol) cfg_total)
    (paid a requests (fst (pay_all (engine_client pol tick settler router verifier) (map on_rest hs) requests w)))"
proof -
  have "fits (Option.bind (budgets pol) cfg_total) (booked_total a w)" by (simp add: assms fits_def)
  from engine_client_session [OF this, where tick = tick and settler = settler and router = router
      and verifier = verifier and hs = hs and requests = requests]
  show ?thesis by (auto simp: assms split: prod.splits)
qed

text \<open>A settler that counts what it settles, and requests for 60 units under a budget of 100.\<close>

definition counting_settler :: "nat settler" where
  "counting_settler q n = (Inr (sample_signed ''AQ''), n + BigInt (offer_amount (settle_offer q)))"

definition sample_pay :: "string \<Rightarrow> pay_request" where
  "sample_pay amt = \<lparr>pay_resource = ''/quotes'', pay_offer = sample_offer\<lparr>offer_amount := amt\<rparr>, pay_model = None\<rparr>"

definition fresh_world :: "nat engine_world" where
  "fresh_world = ((fresh_engine, 0), 0)"

theorem client_stays_within_total_budget_witness:
  "paid ''USDC'' [sample_pay ''60'', sample_pay ''60'']
     (fst (pay_all (engine_client budget_100 (\<lambda>_. 0) counting_settler None None) (map on_rest [])
        [sample_pay ''60'', sample_pay ''60''] fresh_world)) \<le> 100"
  using client_stays_within_total_budget [of "''USDC''" fresh_world budget_100 "[sample_pay ''60'', sample_pay ''60'']"
      "\<lambda>_. 0" counting_settler None None "[]"]
  by (simp add: fits_def budget_100_def booked_total_def fresh_world_def fresh_engine_def get_or_def)

text \<open>C35. A payment the policy blocks is never settled: for every settler, verifier and list of event handlers
  the caller gets a \<open>policy-blocked\<close> error with the rule and detail, and all that happens after the
  policy's answer is the skip event followed by the error event.\<close>

theorem blocked_payment_never_settles:
  assumes "decideModel (opt_router opts) request w = (Inr m, w1)" and "opt_policy opts = Some engine"
    and "policy_check engine (pay_intent request m) w1 = (Inr (Blocked rule detail), w2)"
  shows "pay (opts\<lparr>opt_settler := s, opt_verifier := v\<rparr>) hs request w =
    (Inl (PolicyBlockedError rule detail),
     emit hs (Error_event (pay_resource request) (PolicyBlockedError rule detail))
       (emit hs (Skip_event (pay_resource request) (rule @ '': '' @ detail)) w2))"
  using assms by (simp add: pay_def try_pay_def ask_policy_def normalizeError_def Let_def)

theorem blocked_payment_never_settles_witness:
  "\<exists>rule detail w2. pay (engine_client budget_100 (\<lambda>_. 0) counting_settler None None) [] (sample_pay ''101'') fresh_world =
     (Inl (PolicyBlockedError rule detail), w2) \<and> snd w2 = 0"
proof -
  let ?opts = "engine_client budget_100 (\<lambda>_. 0) counting_settler None None"
  have c: "case policy_check (engine_policy budget_100 (\<lambda>_. 0)) (pay_intent (sample_pay ''101'') X402) fresh_world of
      (Inr (Blocked _ _), w2) \<Rightarrow> snd w2 = 0 | _ \<Rightarrow> False" by code_simp
  then obtain rule detail w2 where c: "policy_check (engine_policy budget_100 (\<lambda>_. 0)) (pay_intent (sample_pay ''101'') X402) fresh_world =
      (Inr (Blocked rule detail), w2)" "snd w2 = 0"
    by (auto split: prod.splits sum.splits policy_decision.splits)
  have "decideModel (opt_router ?opts) (sample_pay ''101'') fresh_world = (Inr X402, fresh_world)"
    by (simp add: decideModel_def sample_pay_def engine_client_def)
  from blocked_payment_never_settles [OF this _ c(1), where s = "opt_settler ?opts" and v = "opt_verifier ?opts" and hs = "[]"] c(2)
  show ?thesis by (simp add: engine_client_def)
qed

text \<open>A payment returns a receipt exactly when every stage passed, in this order: the model was decided,
  the policy allowed the payment, the settler returned this very receipt, the verifier accepted it, and
  the policy recorded the payment; the last thing that happens is the payment event.\<close>

theorem pay_returns_iff_every_stage_passed:
  "pay opts hs request w = (Inr (r, m), w') \<longleftrightarrow>
    (\<exists>w1 w2 w3 w4. decideModel (opt_router opts) request w = (Inr m, w1) \<and>
       ask_policy opts hs request (pay_intent request m) w1 = (Inr (), w2) \<and>
       opt_settler opts \<lparr>settle_resource = pay_resource request, settle_offer = pay_offer request, settle_model = m\<rparr> w2 =
         (Inr r, w3) \<and>
       check_receipt opts r = Inr () \<and>
       record_intent opts (pay_intent request m) w3 = (Inr (), w4) \<and>
       w' = emit hs (Payment_event (pay_resource request) m r) w4)"
  unfolding pay_def try_pay_def Let_def by (auto split: prod.splits sum.splits)

text \<open>Event handlers cannot disturb a payment: handlers that throw or return whatever they like, as long as
  they do not change the world the payment runs in, change neither the result nor the world.\<close>

theorem handlers_do_not_disturb_payment:
  assumes "\<forall>h\<in>set hs. \<forall>ev w. snd (h ev w) = w"
  shows "pay opts hs request w = pay opts [] request w"
proof -
  have hs: "emit hs = (\<lambda>ev w. w)" using assms by (induction hs) (auto intro!: ext)
  have none: "emit [] = (\<lambda>ev w. w)" by (intro ext) simp
  show ?thesis unfolding pay_def try_pay_def ask_policy_def hs none ..
qed

theorem handlers_do_not_disturb_payment_witness:
  "pay (engine_client budget_100 (\<lambda>_. 0) counting_settler None None) [\<lambda>ev w. (Inl (Thrown_string ''boom''), w)]
      (sample_pay ''60'') fresh_world =
   pay (engine_client budget_100 (\<lambda>_. 0) counting_settler None None) [] (sample_pay ''60'') fresh_world"
  by (rule handlers_do_not_disturb_payment) simp

text \<open>A payment whose receipt fails verification has been settled but is never recorded: under a total
  budget of 100 a client whose verifier rejects every receipt settles 60 three times, 180 in all, and
  the engine's total is still empty.\<close>

theorem unverified_settlements_escape_budget:
  "case pay_all (engine_client budget_100 (\<lambda>_. 0) counting_settler None
        (Some \<lparr>verifier_schema = (\<lambda>r. Inl []), verifier_verify = (\<lambda>_ _ _ _. Inr False)\<rparr>)) []
        [sample_pay ''60'', sample_pay ''60'', sample_pay ''60''] fresh_world of
     (results, w) \<Rightarrow> list_all (\<lambda>x. case x of Inl (ReceiptVerificationError _) \<Rightarrow> True | _ \<Rightarrow> False) results \<and>
       snd w = 180 \<and> booked_total ''USDC'' w = 0"
  by code_simp

end
