(* ===== verification/Observability.thy ===== *)
theory Observability
  imports Client JsNumber Dates
begin

text \<open>
  The observability hub, \<open>packages/observability/src/index.ts\<close>: metrics (\<open>record\<close>, \<open>summarize\<close>,
  \<open>export\<close>) and event delivery (\<open>on\<close>, \<open>addWebhook\<close>, \<open>emit\<close> with retries and request timeouts).

  What the outside does is an argument: the outcome of every attempt of a handler (\<open>None\<close> when it never
  settles), the answer of every request with the time it takes, and the callback, which may throw.
  Latencies are integers, delays and factors rationals multiplied as doubles; \<open>sleep\<close> resolves.
\<close>

subsection \<open>Types\<close>

datatype webhook_event = Receipt_created | Channel_opened | Channel_closed | Budget_warning | Anomaly_detected

fun webhook_event_str :: "webhook_event \<Rightarrow> string" where
  "webhook_event_str Receipt_created = ''receipt.created''"
| "webhook_event_str Channel_opened = ''channel.opened''"
| "webhook_event_str Channel_closed = ''channel.closed''"
| "webhook_event_str Budget_warning = ''budget.warning''"
| "webhook_event_str Anomaly_detected = ''anomaly.detected''"

record tollway_event =
  event_type :: webhook_event
  event_at :: string
  event_data :: json

datatype payment_outcome = Outcome_settled | Outcome_failed | Outcome_skipped

fun outcome_str :: "payment_outcome \<Rightarrow> string" where
  "outcome_str Outcome_settled = ''settled''"
| "outcome_str Outcome_failed = ''failed''"
| "outcome_str Outcome_skipped = ''skipped''"

record payment_metric =
  metric_payer :: string
  metric_payee :: string
  metric_model :: settlement_model
  metric_amount :: string
  metric_asset :: string
  metric_latencyMs :: int
  metric_outcome :: payment_outcome
  metric_at :: string

record metrics_query =
  query_payer :: "string option"
  query_payee :: "string option"
  query_model :: "settlement_model option"
  query_from :: "string option"
  query_to :: "string option"

record spend_summary =
  summary_totalAmount :: string
  summary_count :: nat
  summary_byModel :: "(string, string) js_map"
  summary_byPayer :: "(string, string) js_map"
  summary_byPayee :: "(string, string) js_map"

record webhook_subscription =
  sub_url :: string
  sub_events :: "webhook_event list option"
  sub_headers :: "(string \<times> string) list option"

record retry_policy =
  retry_maxAttempts :: int
  retry_initialDelayMs :: rat
  retry_backoffFactor :: rat

datatype delivery_target = Handler_target nat | Webhook_target string

record delivery_failure =
  failure_target :: delivery_target
  failure_event :: tollway_event
  failure_error :: pay_error
  failure_attempts :: int

record delivery_report =
  report_event :: tollway_event
  report_handlersDispatched :: nat
  report_webhooksDispatched :: nat
  report_failures :: "delivery_failure list"

definition DEFAULT_RETRY :: retry_policy where
  "DEFAULT_RETRY = \<lparr>retry_maxAttempts = 3, retry_initialDelayMs = 100, retry_backoffFactor = 2\<rparr>"

definition DEFAULT_REQUEST_TIMEOUT_MS :: int where
  "DEFAULT_REQUEST_TIMEOUT_MS = 5000"

subsection \<open>Metrics\<close>

definition metric_matches :: "metrics_query \<Rightarrow> payment_metric \<Rightarrow> bool" where
  "metric_matches query m =
     (if query_payer query \<noteq> None \<and> metric_payer m \<noteq> the (query_payer query) then False
      else if query_payee query \<noteq> None \<and> metric_payee m \<noteq> the (query_payee query) then False
      else if query_model query \<noteq> None \<and> metric_model m \<noteq> the (query_model query) then False
      else if query_from query \<noteq> None \<and> metric_at m < the (query_from query) then False
      else if query_to query \<noteq> None \<and> metric_at m > the (query_to query) then False
      else True)"

definition filterMetrics :: "payment_metric list \<Rightarrow> metrics_query option \<Rightarrow> payment_metric list" where
  "filterMetrics metrics query =
     (case query of None \<Rightarrow> metrics | Some q \<Rightarrow> filter (metric_matches q) metrics)"

text \<open>
  A rollup object. Reading a key that the object does not have finds the member of \<open>Object.prototype\<close> of
  that name, if there is one: \<open>inherited k\<close> is the text it converts to when a number is added to it.
  Assigning a primitive to \<open>__proto__\<close> has no effect.
\<close>

datatype bucket = Big int | Text string

type_synonym rollup = "(string, bucket) js_map"

definition bucket_plus :: "bucket option \<Rightarrow> int \<Rightarrow> bucket" where
  "bucket_plus old amount =
     (case old of
        None \<Rightarrow> Big (0 + amount)
      | Some (Big n) \<Rightarrow> Big (n + amount)
      | Some (Text s) \<Rightarrow> Text (s @ int_toString amount))"

definition add_to :: "(string, string) js_map \<Rightarrow> string \<Rightarrow> int \<Rightarrow> rollup \<Rightarrow> rollup" where
  "add_to inherited key amount obj =
     (let old = (case obj key of Some b \<Rightarrow> Some b | None \<Rightarrow> map_option Text (inherited key))
      in if key = ''__proto__'' then obj else obj(key \<mapsto> bucket_plus old amount))"

definition stringifyBigintMap :: "rollup \<Rightarrow> (string, string) js_map" where
  "stringifyBigintMap obj key = map_option (\<lambda>b. case b of Big n \<Rightarrow> int_toString n | Text s \<Rightarrow> s) (obj key)"

record rollups =
  roll_total :: int
  roll_model :: rollup
  roll_payer :: rollup
  roll_payee :: rollup

definition roll_up :: "(string, string) js_map \<Rightarrow> rollups \<Rightarrow> payment_metric \<Rightarrow> rollups" where
  "roll_up inherited acc m =
     (case StringToBigInt (metric_amount m) of
        None \<Rightarrow> acc
      | Some amount \<Rightarrow>
          \<lparr>roll_total = roll_total acc + amount,
           roll_model = add_to inherited (model_str (metric_model m)) amount (roll_model acc),
           roll_payer = add_to inherited (metric_payer m) amount (roll_payer acc),
           roll_payee = add_to inherited (metric_payee m) amount (roll_payee acc)\<rparr>)"

definition no_rollups :: rollups where
  "no_rollups = \<lparr>roll_total = 0, roll_model = Map.empty, roll_payer = Map.empty, roll_payee = Map.empty\<rparr>"

definition summarize :: "(string, string) js_map \<Rightarrow> payment_metric list \<Rightarrow> metrics_query option \<Rightarrow> spend_summary" where
  "summarize inherited metrics query =
     (let matched = filterMetrics metrics query; r = foldl (roll_up inherited) no_rollups matched
      in \<lparr>summary_totalAmount = int_toString (roll_total r), summary_count = length matched,
          summary_byModel = stringifyBigintMap (roll_model r), summary_byPayer = stringifyBigintMap (roll_payer r),
          summary_byPayee = stringifyBigintMap (roll_payee r)\<rparr>)"

subsection \<open>Export\<close>

definition double_quotes :: "string \<Rightarrow> string" where
  "double_quotes v = concat (map (\<lambda>c. if c = CHR 0x22 then [CHR 0x22, CHR 0x22] else [c]) v)"

definition csvEscape :: "string \<Rightarrow> string" where
  "csvEscape v = [CHR 0x22] @ double_quotes v @ [CHR 0x22]"

definition CSV_COLUMNS :: "string list" where
  "CSV_COLUMNS = [''payer'', ''payee'', ''model'', ''amount'', ''asset'', ''latencyMs'', ''outcome'', ''at'']"

definition csv_line :: "payment_metric \<Rightarrow> string" where
  "csv_line m = join_with '',''
     [csvEscape (metric_payer m), csvEscape (metric_payee m), csvEscape (model_str (metric_model m)),
      csvEscape (metric_amount m), csvEscape (metric_asset m), int_toString (metric_latencyMs m),
      csvEscape (outcome_str (metric_outcome m)), csvEscape (metric_at m)]"

definition toCsv :: "payment_metric list \<Rightarrow> string" where
  "toCsv metrics = join_with [CHR 0x0D, CHR 0x0A] (join_with '','' CSV_COLUMNS # map csv_line metrics)"

definition metric_json :: "payment_metric \<Rightarrow> json" where
  "metric_json m = JObj
     [(''payer'', Some (JStr (metric_payer m))), (''payee'', Some (JStr (metric_payee m))),
      (''model'', Some (JStr (model_str (metric_model m)))), (''amount'', Some (JStr (metric_amount m))),
      (''asset'', Some (JStr (metric_asset m))), (''latencyMs'', Some (JInt (metric_latencyMs m))),
      (''outcome'', Some (JStr (outcome_str (metric_outcome m)))), (''at'', Some (JStr (metric_at m)))]"

definition export_metrics :: "string \<Rightarrow> payment_metric list \<Rightarrow> metrics_query option \<Rightarrow> string result" where
  "export_metrics format metrics query =
     (let matched = filterMetrics metrics query
      in if format = ''json'' then Inr (json_stringify (JArr (map metric_json matched)))
         else if format = ''csv'' then Inr (toCsv matched)
         else Inl (PlatformError ''Error'' (''unsupported export format: '' @ format)))"

subsection \<open>Retries\<close>

definition delivery_error :: "thrown \<Rightarrow> pay_error" where
  "delivery_error v =
     (case v of
        Thrown_error e \<Rightarrow> e
      | Thrown_string s \<Rightarrow> Other_error (PlatformError ''Error'' s)
      | Thrown_value None \<Rightarrow> Other_error (PlatformError ''Error'' [])
      | Thrown_value (Some j) \<Rightarrow> Other_error (PlatformError ''Error'' (json_stringify j)))"

datatype 'a retry_result = Delivered 'a (delivered_attempts: int) | Gave_up pay_error int

definition double_product :: "rat \<Rightarrow> rat \<Rightarrow> rat" where
  "double_product x y = (if 0 \<le> x * y then to_double (x * y) else - to_double (- (x * y)))"

text \<open>
  The loop of \<open>withRetry\<close>: \<open>attempt i\<close> is the outcome of the i-th attempt, \<open>slept\<close> the delays so far. The
  answer is \<open>None\<close> when an attempt never settles.
\<close>

function retry_loop ::
  "(int \<Rightarrow> (thrown + 'a) option) \<Rightarrow> int \<Rightarrow> rat \<Rightarrow> int \<Rightarrow> rat \<Rightarrow> pay_error option \<Rightarrow> rat list \<Rightarrow>
   ('a retry_result \<times> rat list) option" where
  "retry_loop attempt maxAttempts factor i delay lastError slept =
     (if i \<le> maxAttempts then
        (case attempt i of
           None \<Rightarrow> None
         | Some (Inr v) \<Rightarrow> Some (Delivered v i, slept)
         | Some (Inl cause) \<Rightarrow>
             (let e = delivery_error cause
              in if i \<ge> maxAttempts then Some (Gave_up e maxAttempts, slept)
                 else retry_loop attempt maxAttempts factor (i + 1)
                   (of_int (Math_round (double_product delay factor))) (Some e)
                   (if delay > 0 then slept @ [delay] else slept)))
      else Some (Gave_up (or_default lastError
        (Other_error (PlatformError ''Error'' ''delivery failed without a captured cause''))) maxAttempts, slept))"
  by pat_completeness auto
termination
  by (relation "measure (\<lambda>(attempt, maxAttempts, factor, i, delay, lastError, slept). nat (maxAttempts + 1 - i))") auto

declare retry_loop.simps [simp del]

definition withRetry ::
  "(int \<Rightarrow> (thrown + 'a) option) \<Rightarrow> retry_policy \<Rightarrow> ('a retry_result \<times> rat list) option" where
  "withRetry attempt policy =
     retry_loop attempt (max 1 (retry_maxAttempts policy)) (retry_backoffFactor policy) 1
       (retry_initialDelayMs policy) None []"

subsection \<open>Webhooks\<close>

definition subscriptionMatches :: "webhook_subscription \<Rightarrow> webhook_event \<Rightarrow> bool" where
  "subscriptionMatches sub event =
     (case sub_events sub of None \<Rightarrow> True | Some [] \<Rightarrow> True | Some events \<Rightarrow> event \<in> set events)"

text \<open>\<open>{ ...base, ...over }\<close> on objects as association lists.\<close>

fun spread :: "(string \<times> 'v) list \<Rightarrow> (string \<times> 'v) list \<Rightarrow> (string \<times> 'v) list" where
  "spread base [] = base"
| "spread base ((k, v) # over) =
     spread (if k \<in> set (map fst base) then map (\<lambda>(k', v'). if k' = k then (k, v) else (k', v')) base else base @ [(k, v)]) over"

record webhook_request =
  post_url :: string
  post_headers :: "(string \<times> string) list"
  post_body :: string

definition event_json :: "tollway_event \<Rightarrow> json" where
  "event_json event = JObj
     [(''type'', Some (JStr (webhook_event_str (event_type event)))), (''at'', Some (JStr (event_at event))),
      (''data'', Some (event_data event))]"

definition webhook_request_of :: "webhook_subscription \<Rightarrow> tollway_event \<Rightarrow> webhook_request" where
  "webhook_request_of sub event =
     \<lparr>post_url = sub_url sub,
      post_headers = spread [(''Content-Type'', ''application/json'')] (or_default (sub_headers sub) []),
      post_body = json_stringify (event_json event)\<rparr>"

text \<open>What \<open>fetch\<close> does with a request, and after how many milliseconds. It keeps to its contract: once its signal is
  aborted it rejects. An injected one that ignores the signal and answers late is not covered.\<close>

datatype fetch_answer = Responds int string int | Fails thrown int | Stalls

definition deliverWebhook ::
  "(webhook_request \<Rightarrow> fetch_answer) \<Rightarrow> webhook_subscription \<Rightarrow> tollway_event \<Rightarrow> int \<Rightarrow> (thrown + unit) option" where
  "deliverWebhook fetcher sub event timeoutMs =
     (let timed_out = Some (Inl (Thrown_error (Other_error (PlatformError ''Error''
            (''webhook '' @ sub_url sub @ '' timed out after '' @ int_toString timeoutMs @ ''ms'')))))
      in case fetcher (webhook_request_of sub event) of
           Stalls \<Rightarrow> if timeoutMs > 0 then timed_out else None
         | Fails cause ms \<Rightarrow> if timeoutMs > 0 \<and> timeoutMs \<le> ms then timed_out else Some (Inl cause)
         | Responds status statusText ms \<Rightarrow>
             if timeoutMs > 0 \<and> timeoutMs \<le> ms then timed_out
             else if 200 \<le> status \<and> status \<le> 299 then Some (Inr ())
             else Some (Inl (Thrown_error (Other_error (PlatformError ''Error''
               (js_trim (''webhook '' @ sub_url sub @ '' responded with '' @ int_toString status @ '' '' @ statusText)))))))"

subsection \<open>The hub\<close>

text \<open>A handler is its outcome for an event and an attempt. It does not call back into the hub: one that registers
  another handler for its own event while it is being delivered would be counted in the report.\<close>

type_synonym webhook_handler = "tollway_event \<Rightarrow> int \<Rightarrow> (thrown + unit) option"

record hub =
  hub_handlers :: "(webhook_event, webhook_handler list) js_map"
  hub_subscriptions :: "webhook_subscription list"
  hub_metrics :: "payment_metric list"

text \<open>The \<open>fetch\<close> of a target's k-th attempt; \<open>None\<close> when the platform has none.\<close>

record hub_options =
  hub_webhooks :: "webhook_subscription list option"
  hub_maxAttempts :: "int option"
  hub_initialDelayMs :: "rat option"
  hub_backoffFactor :: "rat option"
  hub_fetch :: "(nat \<Rightarrow> int \<Rightarrow> webhook_request \<Rightarrow> fetch_answer) option"
  hub_requestTimeoutMs :: "int option"
  hub_onDeliveryFailure :: "(delivery_failure \<Rightarrow> thrown + unit) option"

definition hub_retry :: "hub_options \<Rightarrow> retry_policy" where
  "hub_retry opts =
     \<lparr>retry_maxAttempts = or_default (hub_maxAttempts opts) (retry_maxAttempts DEFAULT_RETRY),
      retry_initialDelayMs = or_default (hub_initialDelayMs opts) (retry_initialDelayMs DEFAULT_RETRY),
      retry_backoffFactor = or_default (hub_backoffFactor opts) (retry_backoffFactor DEFAULT_RETRY)\<rparr>"

definition hub_timeout :: "hub_options \<Rightarrow> int" where
  "hub_timeout opts = or_default (hub_requestTimeoutMs opts) DEFAULT_REQUEST_TIMEOUT_MS"

definition createObservabilityHub :: "hub_options \<Rightarrow> hub" where
  "createObservabilityHub opts =
     \<lparr>hub_handlers = Map.empty, hub_subscriptions = or_default (hub_webhooks opts) [], hub_metrics = []\<rparr>"

definition record_metric :: "payment_metric \<Rightarrow> hub \<Rightarrow> hub" where
  "record_metric m h = h\<lparr>hub_metrics := hub_metrics h @ [m]\<rparr>"

definition on_event :: "webhook_event \<Rightarrow> webhook_handler \<Rightarrow> hub \<Rightarrow> hub" where
  "on_event event handler h =
     (case hub_handlers h event of
        Some existing \<Rightarrow> h\<lparr>hub_handlers := (hub_handlers h)(event \<mapsto> existing @ [handler])\<rparr>
      | None \<Rightarrow> h\<lparr>hub_handlers := (hub_handlers h)(event \<mapsto> [handler])\<rparr>)"

definition addWebhook :: "webhook_subscription \<Rightarrow> hub \<Rightarrow> hub" where
  "addWebhook sub h = h\<lparr>hub_subscriptions := hub_subscriptions h @ [sub]\<rparr>"

text \<open>The failures of a list of targets with their results, and what the callback makes of them.\<close>

fun failures_of :: "tollway_event \<Rightarrow> (delivery_target \<times> 'a retry_result) list \<Rightarrow> delivery_failure list" where
  "failures_of event [] = []"
| "failures_of event ((target, Delivered _ _) # rest) = failures_of event rest"
| "failures_of event ((target, Gave_up e attempts) # rest) =
     \<lparr>failure_target = target, failure_event = event, failure_error = e, failure_attempts = attempts\<rparr> #
       failures_of event rest"

fun report_all :: "(delivery_failure \<Rightarrow> thrown + unit) option \<Rightarrow> delivery_failure list \<Rightarrow> thrown + unit" where
  "report_all None failures = Inr ()"
| "report_all (Some callback) [] = Inr ()"
| "report_all (Some callback) (f # fs) = (case callback f of Inl v \<Rightarrow> Inl v | Inr _ \<Rightarrow> report_all (Some callback) fs)"

definition handler_results ::
  "hub_options \<Rightarrow> tollway_event \<Rightarrow> webhook_handler list \<Rightarrow> (delivery_target \<times> unit retry_result) list option" where
  "handler_results opts event handlers =
     those (map (\<lambda>(index, handler). map_option (\<lambda>(r, _). (Handler_target index, r)) (withRetry (handler event) (hub_retry opts)))
       (enumerate 0 handlers))"

definition webhook_results ::
  "hub_options \<Rightarrow> (nat \<Rightarrow> int \<Rightarrow> webhook_request \<Rightarrow> fetch_answer) \<Rightarrow> tollway_event \<Rightarrow> webhook_subscription list \<Rightarrow>
   (delivery_target \<times> unit retry_result) list option" where
  "webhook_results opts fetcher event subs =
     those (map (\<lambda>(index, sub). map_option (\<lambda>(r, _). (Webhook_target (sub_url sub), r))
       (withRetry (\<lambda>k. deliverWebhook (fetcher index k) sub event (hub_timeout opts)) (hub_retry opts)))
       (enumerate 0 subs))"

definition no_fetch_failure :: "tollway_event \<Rightarrow> webhook_subscription \<Rightarrow> delivery_failure" where
  "no_fetch_failure event sub =
     \<lparr>failure_target = Webhook_target (sub_url sub), failure_event = event,
      failure_error = Other_error (PlatformError ''Error''
        ''no fetch implementation is available; pass options.fetch or run on Node 18+''),
      failure_attempts = 0\<rparr>"

text \<open>\<open>None\<close> when the promise never settles, \<open>Inl\<close> when it rejects.\<close>

definition hub_emit :: "hub_options \<Rightarrow> hub \<Rightarrow> tollway_event \<Rightarrow> (thrown + delivery_report) option" where
  "hub_emit opts h event =
     (let matchingHandlers = or_default (hub_handlers h (event_type event)) []
      in case handler_results opts event matchingHandlers of
           None \<Rightarrow> None
         | Some handlerResults \<Rightarrow>
             (let failures = failures_of event handlerResults
              in case report_all (hub_onDeliveryFailure opts) failures of
                   Inl v \<Rightarrow> Some (Inl v)
                 | Inr _ \<Rightarrow>
                     (let matchingSubs = filter (\<lambda>sub. subscriptionMatches sub (event_type event)) (hub_subscriptions h);
                          finish = (\<lambda>dispatched more.
                            case report_all (hub_onDeliveryFailure opts) more of
                              Inl v \<Rightarrow> Some (Inl v)
                            | Inr _ \<Rightarrow> Some (Inr \<lparr>report_event = event,
                                report_handlersDispatched = length matchingHandlers,
                                report_webhooksDispatched = dispatched, report_failures = failures @ more\<rparr>))
                      in case hub_fetch opts of
                           None \<Rightarrow> finish 0 (map (no_fetch_failure event) matchingSubs)
                         | Some fetcher \<Rightarrow>
                             (case webhook_results opts fetcher event matchingSubs of
                                None \<Rightarrow> None
                              | Some webhookResults \<Rightarrow>
                                  finish (length matchingSubs) (failures_of event webhookResults)))))"

end
