(* ===== verification/ObservabilityProofs.thy ===== *)
theory ObservabilityProofs
  imports Observability
begin

text \<open>
  What the hub promises: time windows over timestamps in one format, rollups that are the sums they
  stand for, an export that RFC 4180 reads back, retries that end, and an \<open>emit\<close> that tries every
  matching target and reports exactly the ones that failed.
\<close>

subsection \<open>Time windows\<close>

lemma window_of_timestamps:
  assumes "four_digit_year (t div msPerDay)" "four_digit_year (u div msPerDay)"
    and "toISOString t = Inr s" "toISOString u = Inr r"
  shows "s < r \<longleftrightarrow> t < u"
  using toISOString_less [OF assms(1,2)] assms(3,4) by auto

subsection \<open>Rollups\<close>

definition amount_of :: "payment_metric \<Rightarrow> int" where
  "amount_of m = (case StringToBigInt (metric_amount m) of None \<Rightarrow> 0 | Some a \<Rightarrow> a)"

definition integral_amount :: "payment_metric \<Rightarrow> bool" where
  "integral_amount m \<longleftrightarrow> StringToBigInt (metric_amount m) \<noteq> None"

lemma roll_total_foldl: "roll_total (foldl (roll_up inherited) acc ms) = roll_total acc + sum_list (map amount_of ms)"
  by (induction ms arbitrary: acc) (auto simp: roll_up_def amount_of_def split: option.splits)

text \<open>The bucket of one key after the loop: \<open>get\<close> selects a rollup, \<open>key\<close> the metric's key in it.\<close>

definition rollup_for :: "(rollups \<Rightarrow> rollup) \<Rightarrow> (payment_metric \<Rightarrow> string) \<Rightarrow> bool" where
  "rollup_for get key \<longleftrightarrow> get no_rollups = Map.empty \<and>
     (\<forall>inherited acc m a. StringToBigInt (metric_amount m) = Some a \<longrightarrow>
        get (roll_up inherited acc m) = add_to inherited (key m) a (get acc))"

lemma rollup_for_keys:
  "rollup_for roll_payer metric_payer" "rollup_for roll_payee metric_payee"
  "rollup_for roll_model (model_str \<circ> metric_model)"
  by (simp_all add: rollup_for_def roll_up_def no_rollups_def)

definition key_sum :: "(payment_metric \<Rightarrow> string) \<Rightarrow> string \<Rightarrow> payment_metric list \<Rightarrow> int" where
  "key_sum key k ms = sum_list (map amount_of (filter (\<lambda>m. key m = k) ms))"

lemma add_to_other: "k \<noteq> k' \<Longrightarrow> add_to inherited k' a obj k = obj k"
  by (simp add: add_to_def Let_def)

lemma add_to_same:
  "inherited k = None \<Longrightarrow> k \<noteq> ''__proto__'' \<Longrightarrow> add_to inherited k a obj k = Some (bucket_plus (obj k) a)"
  by (simp add: add_to_def Let_def split: option.splits)

lemma roll_up_skips: "StringToBigInt (metric_amount m) = None \<Longrightarrow> roll_up inherited acc m = acc"
  by (simp add: roll_up_def)

lemma bucket_foldl:
  assumes for_key: "rollup_for get key" and k: "inherited k = None" "k \<noteq> ''__proto__''"
    and acc: "get acc k = (if b then Some (Big s) else None)" "\<not> b \<Longrightarrow> s = 0"
  shows "get (foldl (roll_up inherited) acc ms) k =
    (if b \<or> (\<exists>m\<in>set ms. key m = k \<and> integral_amount m) then Some (Big (s + key_sum key k ms)) else None)"
  using acc
proof (induction ms arbitrary: acc b s)
  case Nil
  then show ?case by (simp add: key_sum_def)
next
  case (Cons m ms)
  show ?case
  proof (cases "StringToBigInt (metric_amount m)")
    case None
    with Cons.IH [OF Cons.prems] show ?thesis
      by (simp add: roll_up_skips key_sum_def integral_amount_def amount_of_def)
  next
    case (Some a)
    have step: "get (roll_up inherited acc m) = add_to inherited (key m) a (get acc)"
      using for_key Some by (simp add: rollup_for_def)
    show ?thesis
    proof (cases "key m = k")
      case True
      with step k Cons.prems have "get (roll_up inherited acc m) k = (if True then Some (Big (s + a)) else None)"
        by (simp add: add_to_same bucket_plus_def split: if_splits)
      from Cons.IH [OF this] True Some show ?thesis
        by (simp add: key_sum_def integral_amount_def amount_of_def add.assoc)
    next
      case False
      with step Cons.prems(1) have "get (roll_up inherited acc m) k = (if b then Some (Big s) else None)"
        by (simp add: add_to_other)
      from Cons.IH [OF this Cons.prems(2)] False show ?thesis by (simp add: key_sum_def)
    qed
  qed
qed

definition summary_entry :: "(payment_metric \<Rightarrow> string) \<Rightarrow> string \<Rightarrow> payment_metric list \<Rightarrow> string option" where
  "summary_entry key k ms =
     (if \<exists>m\<in>set ms. key m = k \<and> integral_amount m then Some (int_toString (key_sum key k ms)) else None)"

lemma bucket_text:
  assumes "rollup_for get key" "inherited k = None" "k \<noteq> ''__proto__''"
  shows "stringifyBigintMap (get (foldl (roll_up inherited) no_rollups ms)) k = summary_entry key k ms"
proof -
  have "get (foldl (roll_up inherited) no_rollups ms) k =
      (if False \<or> (\<exists>m\<in>set ms. key m = k \<and> integral_amount m) then Some (Big (0 + key_sum key k ms)) else None)"
    by (rule bucket_foldl) (use assms in \<open>simp_all add: rollup_for_def\<close>)
  then show ?thesis by (simp add: stringifyBigintMap_def summary_entry_def)
qed

subsection \<open>Reading CSV\<close>

text \<open>RFC 4180 as an automaton over characters: finished rows, finished fields, the current field.\<close>

datatype csv_mode = Csv_start | Csv_plain | Csv_quoted | Csv_quote_seen | Csv_cr | Csv_bad

type_synonym csv_state = "string list list \<times> string list \<times> string \<times> csv_mode"

fun csv_step :: "csv_state \<Rightarrow> char \<Rightarrow> csv_state" where
  "csv_step (rows, flds, cur, mode) c =
     (case mode of
        Csv_quoted \<Rightarrow>
          if c = CHR 0x22 then (rows, flds, cur, Csv_quote_seen) else (rows, flds, cur @ [c], Csv_quoted)
      | Csv_cr \<Rightarrow>
          if c = CHR 0x0A then (rows @ [flds @ [cur]], [], [], Csv_start) else (rows, flds, cur, Csv_bad)
      | Csv_bad \<Rightarrow> (rows, flds, cur, Csv_bad)
      | _ \<Rightarrow>
          if c = CHR '','' then (rows, flds @ [cur], [], Csv_start)
          else if c = CHR 0x0D then (rows, flds, cur, Csv_cr)
          else if mode = Csv_quote_seen then
            (if c = CHR 0x22 then (rows, flds, cur @ [c], Csv_quoted) else (rows, flds, cur, Csv_bad))
          else if c = CHR 0x22 then (if mode = Csv_start then (rows, flds, cur, Csv_quoted) else (rows, flds, cur, Csv_bad))
          else (rows, flds, cur @ [c], Csv_plain))"

definition csv_parse :: "string \<Rightarrow> string list list option" where
  "csv_parse s =
     (case foldl csv_step ([], [], [], Csv_start) s of
        (rows, flds, cur, mode) \<Rightarrow>
          if mode \<in> {Csv_start, Csv_plain, Csv_quote_seen} then Some (rows @ [flds @ [cur]]) else None)"

definition csv_reads :: "string \<Rightarrow> string \<Rightarrow> bool" where
  "csv_reads s v \<longleftrightarrow> (\<forall>rows flds. \<exists>mode\<in>{Csv_start, Csv_plain, Csv_quote_seen}.
     foldl csv_step (rows, flds, [], Csv_start) s = (rows, flds, v, mode))"

lemma quoted_body:
  "foldl csv_step (rows, flds, cur, Csv_quoted) (double_quotes v) = (rows, flds, cur @ v, Csv_quoted)"
  by (induction v arbitrary: cur) (simp_all add: double_quotes_def)

lemma csv_reads_escaped: "csv_reads (csvEscape v) v"
  by (simp add: csv_reads_def csvEscape_def quoted_body)

definition plain_field :: "string \<Rightarrow> bool" where
  "plain_field s \<longleftrightarrow> list_all (\<lambda>c. c \<notin> {CHR 0x22, CHR '','', CHR 0x0D}) s"

lemma plain_run: "plain_field s \<Longrightarrow> mode \<in> {Csv_start, Csv_plain} \<Longrightarrow>
  \<exists>m\<in>{Csv_start, Csv_plain}. foldl csv_step (rows, flds, cur, mode) s = (rows, flds, cur @ s, m)"
proof (induction s arbitrary: cur mode)
  case (Cons c s)
  then have "csv_step (rows, flds, cur, mode) c = (rows, flds, cur @ [c], Csv_plain)"
    by (auto simp: plain_field_def)
  with Cons.IH [of Csv_plain "cur @ [c]"] Cons.prems show ?case by (simp add: plain_field_def)
qed simp

lemma csv_reads_plain: "plain_field s \<Longrightarrow> csv_reads s s"
  unfolding csv_reads_def using plain_run [of s Csv_start _ _ "[]"] by fastforce

lemma csv_reads_row:
  assumes "list_all2 csv_reads ss vs" "ss \<noteq> []"
  shows "\<exists>mode\<in>{Csv_start, Csv_plain, Csv_quote_seen}.
    foldl csv_step (rows, flds, [], Csv_start) (join_with '','' ss) = (rows, flds @ butlast vs, last vs, mode)"
  using assms
proof (induction ss arbitrary: vs flds rule: induct_list012)
  case (2 s)
  then obtain v where "vs = [v]" "csv_reads s v" by (auto simp: list_all2_Cons1)
  then show ?case by (simp add: csv_reads_def)
next
  case (3 s s' ss)
  then obtain v v' vs' where vs: "vs = v # v' # vs'" "csv_reads s v" "list_all2 csv_reads (s' # ss) (v' # vs')"
    by (auto simp: list_all2_Cons1)
  from vs(2) obtain mode where "mode \<in> {Csv_start, Csv_plain, Csv_quote_seen}"
    "foldl csv_step (rows, flds, [], Csv_start) s = (rows, flds, v, mode)" unfolding csv_reads_def by blast
  then have "foldl csv_step (rows, flds, [], Csv_start) (s @ '','') = (rows, flds @ [v], [], Csv_start)" by auto
  with 3(2) [OF vs(3), of "flds @ [v]"] vs(1) show ?case by simp
qed simp

definition csv_row_reads :: "string \<Rightarrow> string list \<Rightarrow> bool" where
  "csv_row_reads line row \<longleftrightarrow> (\<exists>ss. line = join_with '','' ss \<and> ss \<noteq> [] \<and> list_all2 csv_reads ss row)"

lemma csv_row_run:
  assumes "csv_row_reads line row"
  shows "\<exists>mode\<in>{Csv_start, Csv_plain, Csv_quote_seen}.
      foldl csv_step (rows, [], [], Csv_start) line = (rows, butlast row, last row, mode)"
    and "butlast row @ [last row] = row"
proof -
  from assms obtain ss where ss: "line = join_with '','' ss" "ss \<noteq> []" "list_all2 csv_reads ss row"
    unfolding csv_row_reads_def by blast
  from csv_reads_row [OF ss(3,2), of rows "[]"]
  show "\<exists>mode\<in>{Csv_start, Csv_plain, Csv_quote_seen}.
      foldl csv_step (rows, [], [], Csv_start) line = (rows, butlast row, last row, mode)" by (simp add: ss(1))
  from ss(2,3) have "row \<noteq> []" by auto
  then show "butlast row @ [last row] = row" by simp
qed

lemma csv_reads_rows:
  assumes "list_all2 csv_row_reads lines rows" "lines \<noteq> []"
  shows "\<exists>mode\<in>{Csv_start, Csv_plain, Csv_quote_seen}.
    foldl csv_step (done_rows, [], [], Csv_start) (join_with [CHR 0x0D, CHR 0x0A] lines) =
      (done_rows @ butlast rows, butlast (last rows), last (last rows), mode)"
  using assms
proof (induction lines arbitrary: rows done_rows rule: induct_list012)
  case (2 l)
  then obtain r where "rows = [r]" "csv_row_reads l r" by (auto simp: list_all2_Cons1)
  with csv_row_run(1) [of l r done_rows] show ?case by simp
next
  case (3 l l' ls)
  then obtain r r' rs where rows: "rows = r # r' # rs" and r: "csv_row_reads l r"
    and rest: "list_all2 csv_row_reads (l' # ls) (r' # rs)"
    by (auto simp: list_all2_Cons1)
  from csv_row_run(1) [OF r, of done_rows] obtain mode where "mode \<in> {Csv_start, Csv_plain, Csv_quote_seen}"
    "foldl csv_step (done_rows, [], [], Csv_start) l = (done_rows, butlast r, last r, mode)" by blast
  then have "foldl csv_step (done_rows, [], [], Csv_start) (l @ [CHR 0x0D, CHR 0x0A]) = (done_rows @ [r], [], [], Csv_start)"
    using csv_row_run(2) [OF r] by auto
  with 3(2) [OF rest, of "done_rows @ [r]"] rows show ?case by simp
qed simp

definition metric_row :: "payment_metric \<Rightarrow> string list" where
  "metric_row m = [metric_payer m, metric_payee m, model_str (metric_model m), metric_amount m, metric_asset m,
     int_toString (metric_latencyMs m), outcome_str (metric_outcome m), metric_at m]"

lemma plain_int: "plain_field (int_toString i)"
  using int_toString_chars [of i] by (auto simp: plain_field_def list_all_iff number_char_def is_digit_def)

lemma csv_line_reads: "csv_row_reads (csv_line m) (metric_row m)"
  unfolding csv_line_def metric_row_def csv_row_reads_def
  by (intro exI conjI, rule refl) (simp_all add: csv_reads_escaped csv_reads_plain [OF plain_int])

lemma csv_columns_read: "csv_row_reads (join_with '','' CSV_COLUMNS) CSV_COLUMNS"
proof -
  have "list_all2 csv_reads CSV_COLUMNS CSV_COLUMNS"
    unfolding CSV_COLUMNS_def by (auto simp: plain_field_def intro!: csv_reads_plain)
  then show ?thesis unfolding csv_row_reads_def by (intro exI [of _ CSV_COLUMNS] conjI) (simp_all add: CSV_COLUMNS_def)
qed

subsection \<open>Retries\<close>

definition failed_attempt :: "(int \<Rightarrow> (thrown + 'a) option) \<Rightarrow> int \<Rightarrow> bool" where
  "failed_attempt attempt j \<longleftrightarrow> (case attempt j of Some (Inl _) \<Rightarrow> True | _ \<Rightarrow> False)"

definition retry_outcome :: "(int \<Rightarrow> (thrown + 'a) option) \<Rightarrow> int \<Rightarrow> int \<Rightarrow> 'a retry_result \<Rightarrow> bool" where
  "retry_outcome attempt i N r \<longleftrightarrow>
     (case r of
        Delivered v k \<Rightarrow> i \<le> k \<and> k \<le> N \<and> attempt k = Some (Inr v) \<and> (\<forall>j\<in>{i..<k}. failed_attempt attempt j)
      | Gave_up e n \<Rightarrow> n = N \<and> (\<forall>j\<in>{i..N}. failed_attempt attempt j) \<and>
          (\<exists>c. attempt N = Some (Inl c) \<and> e = delivery_error c))"

lemma retry_outcome_later:
  assumes "retry_outcome attempt (i + 1) N r" "failed_attempt attempt i"
  shows "retry_outcome attempt i N r"
proof -
  have all: "\<forall>j\<in>J. failed_attempt attempt j" if "\<forall>j\<in>{i + 1..}\<inter>J. failed_attempt attempt j" "J \<subseteq> {i..}" for J
  proof
    fix j assume j: "j \<in> J"
    with that(2) have "j = i \<or> i + 1 \<le> j" by auto
    with that(1) j assms(2) show "failed_attempt attempt j" by auto
  qed
  show ?thesis
  proof (cases r)
    case (Delivered v k)
    have "{i..<k} \<subseteq> {i..}" by auto
    from all [OF _ this] assms(1) Delivered show ?thesis by (auto simp: retry_outcome_def)
  next
    case (Gave_up e n)
    have "{i..N} \<subseteq> {i..}" by auto
    from all [OF _ this] assms(1) Gave_up show ?thesis by (auto simp: retry_outcome_def)
  qed
qed

lemma retry_loop_outcome:
  assumes "i \<le> N" "\<And>j. i \<le> j \<Longrightarrow> j \<le> N \<Longrightarrow> attempt j \<noteq> None"
  shows "\<exists>r slept'. retry_loop attempt N factor i delay lastError slept = Some (r, slept') \<and>
    retry_outcome attempt i N r \<and> int (length slept') \<le> int (length slept) + (N - i)"
  using assms
proof (induction attempt N factor i delay lastError slept rule: retry_loop.induct)
  case (1 attempt N factor i delay lastError slept)
  note step = retry_loop.simps [of attempt N factor i delay lastError slept]
  have "attempt i \<noteq> None" by (rule "1.prems"(2)) (use "1.prems"(1) in simp_all)
  then obtain x where x: "attempt i = Some x" by blast
  show ?case
  proof (cases x)
    case (Inr v)
    with x "1.prems"(1) show ?thesis by (auto simp: step retry_outcome_def)
  next
    case (Inl cause)
    have f: "failed_attempt attempt i" using x Inl by (simp add: failed_attempt_def)
    show ?thesis
    proof (cases "i \<ge> N")
      case True
      then have "i = N" using "1.prems"(1) by simp
      with x Inl have "retry_loop attempt N factor i delay lastError slept = Some (Gave_up (delivery_error cause) N, slept)"
        by (simp add: retry_loop.simps [of attempt N factor N])
      with x Inl f \<open>i = N\<close> show ?thesis by (auto simp: retry_outcome_def)
    next
      case False
      define delay' slept' where "delay' = rat_of_int (Math_round (double_product delay factor))"
        and "slept' = (if delay > 0 then slept @ [delay] else slept)"
      have unfold_step: "retry_loop attempt N factor i delay lastError slept =
          retry_loop attempt N factor (i + 1) delay' (Some (delivery_error cause)) slept'"
        using x Inl False by (simp add: step Let_def delay'_def slept'_def)
      have ih: "\<exists>r s. retry_loop attempt N factor (i + 1) delay' (Some (delivery_error cause)) slept' = Some (r, s) \<and>
          retry_outcome attempt (i + 1) N r \<and> int (length s) \<le> int (length slept') + (N - (i + 1))"
        unfolding delay'_def slept'_def
        by (rule "1.IH" [OF "1.prems"(1) x Inl refl False]) (use "1.prems" False in auto)
      have "int (length slept') \<le> int (length slept) + 1" by (simp add: slept'_def)
      with ih retry_outcome_later [OF _ f] show ?thesis unfolding unfold_step by fastforce
    qed
  qed
qed

definition attempts_of :: "retry_policy \<Rightarrow> int" where
  "attempts_of policy = max 1 (retry_maxAttempts policy)"

lemma withRetry_ends:
  assumes "\<And>k. attempt k \<noteq> None"
  shows "\<exists>r slept. withRetry attempt policy = Some (r, slept) \<and> retry_outcome attempt 1 (attempts_of policy) r \<and>
    int (length slept) < attempts_of policy"
proof -
  have "1 \<le> attempts_of policy" by (simp add: attempts_of_def)
  from retry_loop_outcome [OF this assms, where factor = "retry_backoffFactor policy" and delay = "retry_initialDelayMs policy"
      and lastError = None and slept = "[]"]
  show ?thesis by (fastforce simp: withRetry_def attempts_of_def)
qed

text \<open>The result alone, for a target all of whose attempts settle.\<close>

definition retried :: "(int \<Rightarrow> (thrown + 'a) option) \<Rightarrow> retry_policy \<Rightarrow> 'a retry_result" where
  "retried attempt policy = fst (the (withRetry attempt policy))"

lemma withRetry_retried:
  assumes "\<And>k. attempt k \<noteq> None"
  shows "map_option (\<lambda>(r, _). g r) (withRetry attempt policy) = Some (g (retried attempt policy))"
    and "retry_outcome attempt 1 (attempts_of policy) (retried attempt policy)"
  using withRetry_ends [of attempt policy] assms by (auto simp: retried_def)

definition gave_up :: "'a retry_result \<Rightarrow> bool" where
  "gave_up r = (case r of Gave_up _ _ \<Rightarrow> True | Delivered _ _ \<Rightarrow> False)"

lemma gave_up_iff:
  "retry_outcome attempt i N r \<Longrightarrow> gave_up r \<longleftrightarrow> (\<forall>j\<in>{i..N}. failed_attempt attempt j)"
  by (cases r) (auto simp: retry_outcome_def gave_up_def failed_attempt_def split: option.splits sum.splits
      intro: bexI [rotated])

subsection \<open>Delivery\<close>

definition hopeless :: "hub_options \<Rightarrow> (int \<Rightarrow> (thrown + unit) option) \<Rightarrow> bool" where
  "hopeless opts attempt \<longleftrightarrow> (\<forall>k\<in>{1..max 1 (retry_maxAttempts (hub_retry opts))}. failed_attempt attempt k)"

lemma deliverWebhook_settles: "0 < timeoutMs \<Longrightarrow> deliverWebhook fetcher sub event timeoutMs \<noteq> None"
  by (auto simp: deliverWebhook_def Let_def split: fetch_answer.splits)

lemma those_map: "(\<And>x. x \<in> set xs \<Longrightarrow> f x = Some (g x)) \<Longrightarrow> those (map f xs) = Some (map g xs)"
  by (induction xs) auto

lemma failures_targets: "failure_target ` set (failures_of event rs) = {t. \<exists>r. (t, r) \<in> set rs \<and> gave_up r}"
  by (induction event rs rule: failures_of.induct) (auto simp: gave_up_def)

lemma report_all_append:
  "report_all callback (fs @ gs) = (case report_all callback fs of Inl v \<Rightarrow> Inl v | Inr _ \<Rightarrow> report_all callback gs)"
  by (cases callback; induction fs) (simp_all split: sum.splits)

lemma report_all_Inr: "report_all (Some cb) fs = Inr u \<longleftrightarrow> (\<forall>f\<in>set fs. cb f = Inr ())"
  by (induction fs) (auto split: sum.splits)

lemma report_all_Inl: "report_all (Some cb) fs = Inl v \<Longrightarrow> Inl v \<in> cb ` set fs"
  by (induction fs) (force split: sum.splits)+

lemma report_all_cases:
  "if \<exists>cb v. callback = Some cb \<and> Inl v \<in> cb ` set fs
   then \<exists>cb v. callback = Some cb \<and> Inl v \<in> cb ` set fs \<and> report_all callback fs = Inl v
   else report_all callback fs = Inr ()"
proof (cases callback)
  case (Some cb)
  show ?thesis
  proof (cases "report_all (Some cb) fs")
    case (Inl v)
    with report_all_Inl [OF Inl] show ?thesis by (auto simp: Some)
  next
    case (Inr u)
    then have "\<forall>f\<in>set fs. cb f = Inr ()" by (simp add: report_all_Inr)
    with Inr show ?thesis by (force simp: Some)
  qed
qed simp

lemma no_fetch_targets: "failure_target ` set (map (no_fetch_failure event) subs) = {Webhook_target (sub_url (subs ! i)) | i. i < length subs}"
proof -
  have "failure_target ` set (map (no_fetch_failure event) subs) = (\<lambda>sub. Webhook_target (sub_url sub)) ` set subs"
    by (simp add: no_fetch_failure_def image_image)
  also have "\<dots> = {Webhook_target (sub_url (subs ! i)) | i. i < length subs}" by (auto simp: set_conv_nth)
  finally show ?thesis .
qed

lemma handler_results_settled:
  assumes "\<And>h k. h \<in> set hs \<Longrightarrow> h event k \<noteq> None"
  shows "handler_results opts event hs = Some (map (\<lambda>(i, h). (Handler_target i, retried (h event) (hub_retry opts))) (enumerate 0 hs))"
  unfolding handler_results_def
proof (rule those_map, goal_cases)
  case (1 x)
  obtain i h where x: "x = (i, h)" by (rule prod.exhaust)
  with 1 have "h \<in> set hs" by (auto simp: in_set_enumerate_eq)
  with assms have "\<And>k. h event k \<noteq> None" by blast
  from withRetry_retried(1) [OF this, of "Pair (Handler_target i)"] show ?case by (simp add: x)
qed

definition webhook_attempt ::
  "hub_options \<Rightarrow> (nat \<Rightarrow> int \<Rightarrow> webhook_request \<Rightarrow> fetch_answer) \<Rightarrow> tollway_event \<Rightarrow> nat \<Rightarrow> webhook_subscription \<Rightarrow>
   int \<Rightarrow> (thrown + unit) option" where
  "webhook_attempt opts fetcher event i sub k = deliverWebhook (fetcher i k) sub event (hub_timeout opts)"

lemma webhook_results_settled:
  assumes "0 < hub_timeout opts"
  shows "webhook_results opts fetcher event subs = Some (map (\<lambda>(i, sub). (Webhook_target (sub_url sub),
    retried (webhook_attempt opts fetcher event i sub) (hub_retry opts))) (enumerate 0 subs))"
  unfolding webhook_results_def
proof (rule those_map, goal_cases)
  case (1 x)
  obtain i sub where x: "x = (i, sub)" by (rule prod.exhaust)
  have "\<And>k. webhook_attempt opts fetcher event i sub k \<noteq> None"
    using assms by (simp add: webhook_attempt_def deliverWebhook_settles)
  from withRetry_retried(1) [OF this, of "Pair (Webhook_target (sub_url sub))"]
  show ?case by (simp add: x webhook_attempt_def [abs_def])
qed

subsection \<open>Properties\<close>

text \<open>The time bounds of a query select by time: over metrics and bounds written by \<open>toISOString\<close> in the
  years 0 to 9999, the string comparison of \<open>filterMetrics\<close> keeps exactly the metrics whose instant lies
  between the two bounds, both included.\<close>

theorem window_selects_by_time:
  assumes "\<forall>m\<in>set ms. four_digit_year (time m div msPerDay) \<and> toISOString (time m) = Inr (metric_at m)"
    and "four_digit_year (a div msPerDay)" "toISOString a = Inr s"
    and "four_digit_year (b div msPerDay)" "toISOString b = Inr r"
  shows "filterMetrics ms (Some \<lparr>query_payer = None, query_payee = None, query_model = None, query_from = Some s, query_to = Some r\<rparr>) =
    filter (\<lambda>m. a \<le> time m \<and> time m \<le> b) ms"
proof -
  have "metric_at m < s \<longleftrightarrow> time m < a" "r < metric_at m \<longleftrightarrow> b < time m" if "m \<in> set ms" for m
    using that assms window_of_timestamps [of "time m" a "metric_at m" s] window_of_timestamps [of b "time m" r "metric_at m"]
    by simp_all
  then show ?thesis by (auto simp: filterMetrics_def metric_matches_def not_less intro!: filter_cong split: if_splits)
qed

definition sample_metric :: "string \<Rightarrow> string \<Rightarrow> string \<Rightarrow> payment_metric" where
  "sample_metric payer amount instant =
     \<lparr>metric_payer = payer, metric_payee = ''GSERVICE'', metric_model = X402, metric_amount = amount, metric_asset = ''USDC'',
      metric_latencyMs = 12, metric_outcome = Outcome_settled, metric_at = instant\<rparr>"

theorem window_selects_by_time_witness:
  "filterMetrics [sample_metric ''GA'' ''5'' ''1970-01-01T00:00:01.000Z'']
     (Some \<lparr>query_payer = None, query_payee = None, query_model = None, query_from = Some ''1970-01-01T00:00:00.500Z'',
        query_to = Some ''1970-01-01T00:00:01.000Z''\<rparr>) = [sample_metric ''GA'' ''5'' ''1970-01-01T00:00:01.000Z'']"
proof -
  have y: "four_digit_year (1000 div msPerDay)" "four_digit_year (500 div msPerDay)"
    by (rule four_digit_yearI; simp add: msPerDay_def)+
  have i: "toISOString 1000 = Inr ''1970-01-01T00:00:01.000Z''" "toISOString 500 = Inr ''1970-01-01T00:00:00.500Z''"
    by code_simp+
  show ?thesis
    by (subst window_selects_by_time [where time = "\<lambda>_. 1000" and a = 500 and b = 1000])
      (simp_all add: y i sample_metric_def)
qed

text \<open>The order of strings is not the order of time for ISO 8601 timestamps of different precision: a metric
  recorded half a second after a bound without milliseconds is not in the window that starts there.\<close>

theorem mixed_precision_leaves_window:
  "filterMetrics [sample_metric ''GA'' ''5'' ''2026-01-01T00:00:00.500Z'']
     (Some \<lparr>query_payer = None, query_payee = None, query_model = None, query_from = Some ''2026-01-01T00:00:00Z'',
        query_to = None\<rparr>) = []"
  by code_simp

text \<open>C36. A summary is the sums it stands for. The count is the number of matched metrics, the total the sum of
  their integral amounts, and the entry of a payer, payee or model the sum over the matched metrics of
  that key, present exactly when one of them has an integral amount; metrics with other amounts are
  counted and otherwise skipped. The keys in question are those that are no member of every object.\<close>

theorem summary_is_the_sums:
  assumes "inherited k = None" and "k \<noteq> ''__proto__''" and "matched = filterMetrics ms q"
  shows "summary_count (summarize inherited ms q) = length matched \<and>
    summary_totalAmount (summarize inherited ms q) = int_toString (sum_list (map amount_of matched)) \<and>
    summary_byPayer (summarize inherited ms q) k = summary_entry metric_payer k matched \<and>
    summary_byPayee (summarize inherited ms q) k = summary_entry metric_payee k matched \<and>
    summary_byModel (summarize inherited ms q) k = summary_entry (model_str \<circ> metric_model) k matched"
  by (simp add: summarize_def Let_def assms(3) [symmetric] roll_total_foldl
      bucket_text [OF rollup_for_keys(1), where inherited = inherited and k = k, OF assms(1,2)] bucket_text [OF rollup_for_keys(2), where inherited = inherited and k = k, OF assms(1,2)]
      bucket_text [OF rollup_for_keys(3), where inherited = inherited and k = k, OF assms(1,2)])
    (simp add: no_rollups_def)

theorem summary_is_the_sums_witness:
  "summary_byPayer (summarize [''constructor'' \<mapsto> ''function Object() { [native code] }'']
     [sample_metric ''GA'' ''5'' ''t'', sample_metric ''GB'' ''7'' ''t'', sample_metric ''GA'' ''x'' ''t'', sample_metric ''GA'' ''2'' ''t''] None)
     ''GA'' = Some ''7''"
proof -
  have "int_toString (key_sum metric_payer ''GA'' [sample_metric ''GA'' ''5'' ''t'', sample_metric ''GB'' ''7'' ''t'',
      sample_metric ''GA'' ''x'' ''t'', sample_metric ''GA'' ''2'' ''t'']) = ''7''" by code_simp
  moreover have "integral_amount (sample_metric ''GA'' ''5'' ''t'')" by code_simp
  ultimately show ?thesis
    using summary_is_the_sums [where inherited = "[''constructor'' \<mapsto> ''function Object() { [native code] }'']" and k = "''GA''"
        and ms = "[sample_metric ''GA'' ''5'' ''t'', sample_metric ''GB'' ''7'' ''t'', sample_metric ''GA'' ''x'' ''t'',
          sample_metric ''GA'' ''2'' ''t'']" and q = None, OF _ _ refl]
    by (simp add: filterMetrics_def sample_metric_def summary_entry_def)
qed

text \<open>The rollups are plain objects, so a payer whose name is a member of every object gets a text instead of
  a sum: the payments of a payer called constructor are reported as the text of the inherited function
  followed by the amounts.\<close>

theorem inherited_name_spoils_rollup:
  "summary_byPayer (summarize [''constructor'' \<mapsto> ''function Object() { [native code] }'']
     [sample_metric ''constructor'' ''5'' ''t'', sample_metric ''constructor'' ''7'' ''t''] None) ''constructor''
     = Some ''function Object() { [native code] }57''"
  by code_simp

text \<open>C33. The CSV export can be read back: for every list of metrics, whatever quotes, commas and line breaks
  their strings contain, an RFC 4180 reader recovers the header and one row per metric with exactly its
  values.\<close>

theorem csv_export_reads_back:
  "csv_parse (toCsv ms) = Some (CSV_COLUMNS # map metric_row ms)"
proof -
  let ?lines = "join_with '','' CSV_COLUMNS # map csv_line ms" and ?rows = "CSV_COLUMNS # map metric_row ms"
  have "list_all2 csv_row_reads ?lines ?rows"
    using csv_columns_read csv_line_reads by (simp add: list_all2_map1 list_all2_map2 list_all2_same)
  from csv_reads_rows [OF this, of "[]"] obtain mode where "mode \<in> {Csv_start, Csv_plain, Csv_quote_seen}"
    "foldl csv_step ([], [], [], Csv_start) (toCsv ms) = (butlast ?rows, butlast (last ?rows), last (last ?rows), mode)"
    unfolding toCsv_def by auto
  moreover have "last ?rows \<noteq> []" by (induction ms) (auto simp: CSV_COLUMNS_def metric_row_def)
  then have "butlast ?rows @ [butlast (last ?rows) @ [last (last ?rows)]] = ?rows" by (simp del: last.simps butlast.simps)
  ultimately show ?thesis by (auto simp: csv_parse_def simp del: last.simps butlast.simps)
qed

text \<open>C34. Retrying ends. When every attempt settles, \<open>withRetry\<close> returns after at most max(1, maxAttempts)
  attempts and fewer pauses than that: with the first success if there is one, and otherwise, every
  attempt having failed, with the error of the last one.\<close>

theorem retries_end_with_first_success:
  assumes "\<And>k. attempt k \<noteq> None"
  shows "\<exists>r slept. withRetry attempt policy = Some (r, slept) \<and> int (length slept) < max 1 (retry_maxAttempts policy) \<and>
    retry_outcome attempt 1 (max 1 (retry_maxAttempts policy)) r"
proof -
  have "\<exists>r slept. withRetry attempt policy = Some (r, slept) \<and> retry_outcome attempt 1 (attempts_of policy) r \<and>
      int (length slept) < attempts_of policy"
    by (rule withRetry_ends) (rule assms)
  then show ?thesis by (auto simp: attempts_of_def)
qed

theorem retries_end_with_first_success_witness:
  "\<exists>r slept. withRetry (\<lambda>k. if k < 3 then Some (Inl (Thrown_string ''busy'')) else Some (Inr ())) DEFAULT_RETRY = Some (r, slept) \<and>
     length slept < 3"
proof -
  let ?a = "\<lambda>k. if k < 3 then Some (Inl (Thrown_string ''busy'')) else Some (Inr ())"
  have "\<exists>r slept. withRetry ?a DEFAULT_RETRY = Some (r, slept) \<and>
      int (length slept) < max 1 (retry_maxAttempts DEFAULT_RETRY) \<and>
      retry_outcome ?a 1 (max 1 (retry_maxAttempts DEFAULT_RETRY)) r"
    by (rule retries_end_with_first_success) simp
  then obtain r slept where "withRetry ?a DEFAULT_RETRY = Some (r, slept)"
    "int (length slept) < max 1 (retry_maxAttempts DEFAULT_RETRY)" by (elim exE conjE)
  moreover from this(2) have "length slept < 3" by (simp add: DEFAULT_RETRY_def)
  ultimately show ?thesis by blast
qed

text \<open>C12. \<open>emit\<close> ends and tells the truth. With a request timeout and handlers that settle, however many sockets
  stall, it ends. Its failures are exactly the targets all of whose attempts failed, first handlers, then webhooks, and
  all matching webhooks where the platform has no \<open>fetch\<close>. Unless the failure callback throws on one of them, it
  resolves with a report of these failures that counts every matching handler, and every matching webhook if there is
  a \<open>fetch\<close>; if the callback throws on one, it rejects with what the callback threw.\<close>

theorem emit_reports_exactly_the_failures:
  fixes event
  assumes "0 < hub_timeout opts"
    and "hs = or_default (hub_handlers h (event_type event)) []" and "\<forall>g\<in>set hs. \<forall>k. g event k \<noteq> None"
    and "subs = filter (\<lambda>sub. subscriptionMatches sub (event_type event)) (hub_subscriptions h)"
  shows "\<exists>hf wf. failure_target ` set hf = {Handler_target i | i. i < length hs \<and> hopeless opts ((hs ! i) event)} \<and>
    failure_target ` set wf = {Webhook_target (sub_url (subs ! i)) | i. i < length subs \<and>
      (\<forall>fetcher. hub_fetch opts = Some fetcher \<longrightarrow> hopeless opts (webhook_attempt opts fetcher event i (subs ! i)))} \<and>
    (if \<exists>cb v. hub_onDeliveryFailure opts = Some cb \<and> Inl v \<in> cb ` set (hf @ wf)
     then \<exists>cb v. hub_onDeliveryFailure opts = Some cb \<and> Inl v \<in> cb ` set (hf @ wf) \<and> hub_emit opts h event = Some (Inl v)
     else \<exists>rep. hub_emit opts h event = Some (Inr rep) \<and> report_failures rep = hf @ wf \<and>
       report_handlersDispatched rep = length hs \<and> report_webhooksDispatched rep = (if hub_fetch opts = None then 0 else length subs))"
proof -
  have settles: "\<And>g k. g \<in> set hs \<Longrightarrow> g event k \<noteq> None" using assms(3) by blast
  have g: "gave_up (retried attempt (hub_retry opts)) \<longleftrightarrow> hopeless opts attempt" if "\<And>k. attempt k \<noteq> None"
    for attempt :: "int \<Rightarrow> (thrown + unit) option"
    using gave_up_iff [OF withRetry_retried(2) [OF that]] by (simp add: hopeless_def attempts_of_def)
  have w: "\<And>fetcher i sub k. webhook_attempt opts fetcher event i sub k \<noteq> None"
    using assms(1) by (simp add: webhook_attempt_def deliverWebhook_settles)
  let ?hr = "map (\<lambda>(i, g). (Handler_target i, retried (g event) (hub_retry opts))) (enumerate 0 hs)"
  let ?wr = "\<lambda>fetcher. map (\<lambda>(i, sub). (Webhook_target (sub_url sub), retried (webhook_attempt opts fetcher event i sub) (hub_retry opts)))
    (enumerate 0 subs)"
  let ?wf = "case hub_fetch opts of None \<Rightarrow> map (no_fetch_failure event) subs | Some fetcher \<Rightarrow> failures_of event (?wr fetcher)"
  have hr: "handler_results opts event hs = Some ?hr" by (rule handler_results_settled) (rule settles)
  have h: "failure_target ` set (failures_of event ?hr) = {Handler_target i | i. i < length hs \<and> hopeless opts ((hs ! i) event)}"
    using g settles by (force simp: failures_targets in_set_enumerate_eq)
  have "failure_target ` set (failures_of event (?wr fetcher)) =
      {Webhook_target (sub_url (subs ! i)) | i. i < length subs \<and> hopeless opts (webhook_attempt opts fetcher event i (subs ! i))}"
    for fetcher using g [OF w] by (force simp: failures_targets in_set_enumerate_eq)
  then have f: "failure_target ` set ?wf = {Webhook_target (sub_url (subs ! i)) | i. i < length subs \<and>
      (\<forall>fetcher. hub_fetch opts = Some fetcher \<longrightarrow> hopeless opts (webhook_attempt opts fetcher event i (subs ! i)))}"
    using no_fetch_targets [of event subs] by (cases "hub_fetch opts") simp_all
  have emit: "hub_emit opts h event = Some (map_sum id (\<lambda>_. \<lparr>report_event = event, report_handlersDispatched = length hs,
      report_webhooksDispatched = (if hub_fetch opts = None then 0 else length subs), report_failures = failures_of event ?hr @ ?wf\<rparr>)
      (report_all (hub_onDeliveryFailure opts) (failures_of event ?hr @ ?wf)))"
    using hr webhook_results_settled [OF assms(1), of _ event subs]
    by (auto simp: hub_emit_def Let_def assms(2) [symmetric] assms(4) [symmetric] report_all_append split: sum.splits option.splits)
  obtain hf wf where fs: "hf = failures_of event ?hr" "wf = ?wf" by simp
  have "if \<exists>cb v. hub_onDeliveryFailure opts = Some cb \<and> Inl v \<in> cb ` set (hf @ wf)
     then \<exists>cb v. hub_onDeliveryFailure opts = Some cb \<and> Inl v \<in> cb ` set (hf @ wf) \<and> hub_emit opts h event = Some (Inl v)
     else \<exists>rep. hub_emit opts h event = Some (Inr rep) \<and> report_failures rep = hf @ wf \<and>
       report_handlersDispatched rep = length hs \<and> report_webhooksDispatched rep = (if hub_fetch opts = None then 0 else length subs)"
    (is "if ?threw then ?rejects else ?resolves")
  proof (cases ?threw)
    case True
    with report_all_cases [of "hub_onDeliveryFailure opts" "hf @ wf"] obtain cb v where
      "hub_onDeliveryFailure opts = Some cb" "Inl v \<in> cb ` set (hf @ wf)" "report_all (hub_onDeliveryFailure opts) (hf @ wf) = Inl v"
      unfolding if_P [OF True] by blast
    then have ?rejects by (simp only: emit [folded fs]) (intro exI conjI; simp)
    with True show ?thesis by simp
  next
    case False
    with report_all_cases [of "hub_onDeliveryFailure opts" "hf @ wf"] have "report_all (hub_onDeliveryFailure opts) (hf @ wf) = Inr ()"
      by (simp only: if_False)
    with emit [folded fs] have ?resolves by simp
    with False show ?thesis by (simp only: if_False)
  qed
  with h f show ?thesis unfolding fs [symmetric] by blast
qed

text \<open>A stalling webhook, a busy handler, and a second webhook that answers.\<close>

definition sample_event :: tollway_event where
  "sample_event = \<lparr>event_type = Budget_warning, event_at = ''t'', event_data = JNull\<rparr>"

definition sample_hub_options :: "(delivery_failure \<Rightarrow> thrown + unit) option \<Rightarrow> hub_options" where
  "sample_hub_options callback =
     \<lparr>hub_webhooks = Some [\<lparr>sub_url = ''a'', sub_events = None, sub_headers = None\<rparr>,
        \<lparr>sub_url = ''b'', sub_events = None, sub_headers = None\<rparr>],
      hub_maxAttempts = Some 2, hub_initialDelayMs = None, hub_backoffFactor = None,
      hub_fetch = Some (\<lambda>i k q. if post_url q = ''a'' then Stalls else Responds 204 ''No Content'' 3),
      hub_requestTimeoutMs = None, hub_onDeliveryFailure = callback\<rparr>"

definition sample_hub :: hub where
  "sample_hub = on_event Budget_warning (\<lambda>_ _. Some (Inl (Thrown_string ''busy'')))
     (createObservabilityHub (sample_hub_options None))"

theorem emit_reports_exactly_the_failures_witness:
  "\<exists>rep. hub_emit (sample_hub_options None) sample_hub sample_event = Some (Inr rep) \<and>
     report_webhooksDispatched rep = 2 \<and> Handler_target 0 \<in> failure_target ` set (report_failures rep) \<and>
     Webhook_target ''a'' \<in> failure_target ` set (report_failures rep)"
proof -
  let ?o = "sample_hub_options None" and ?h = "(\<lambda>_ _. Some (Inl (Thrown_string ''busy''))) :: webhook_handler"
  let ?s = "[\<lparr>sub_url = ''a'', sub_events = None, sub_headers = None\<rparr>, \<lparr>sub_url = ''b'', sub_events = None, sub_headers = None\<rparr>]"
  obtain fetcher where f: "hub_fetch ?o = Some fetcher" "\<And>i k q. post_url q = ''a'' \<Longrightarrow> fetcher i k q = Stalls"
    by (simp add: sample_hub_options_def)
  have hub: "[?h] = or_default (hub_handlers sample_hub (event_type sample_event)) []"
    "?s = filter (\<lambda>sub. subscriptionMatches sub (event_type sample_event)) (hub_subscriptions sample_hub)"
    by (simp_all add: sample_hub_def on_event_def createObservabilityHub_def sample_hub_options_def sample_event_def or_default_def
        subscriptionMatches_def)
  have t: "0 < hub_timeout ?o" by (simp add: hub_timeout_def sample_hub_options_def or_default_def DEFAULT_REQUEST_TIMEOUT_MS_def)
  have c: "hub_onDeliveryFailure ?o = None" by (simp add: sample_hub_options_def)
  have g: "\<forall>g\<in>set [?h]. \<forall>k. g sample_event k \<noteq> None" by simp
  obtain rep hf wf where rep: "hub_emit ?o sample_hub sample_event = Some (Inr rep)" "report_webhooksDispatched rep = length ?s"
    and failures: "report_failures rep = hf @ wf"
      "failure_target ` set hf = {Handler_target i | i. i < length [?h] \<and> hopeless ?o (([?h] ! i) sample_event)}"
      "failure_target ` set wf = {Webhook_target (sub_url (?s ! i)) | i. i < length ?s \<and>
         (\<forall>fetcher. hub_fetch ?o = Some fetcher \<longrightarrow> hopeless ?o (webhook_attempt ?o fetcher sample_event i (?s ! i)))}"
    using emit_reports_exactly_the_failures [OF t hub(1) g hub(2)] unfolding c f(1) by auto
  have h0: "hopeless ?o (([?h] ! 0) sample_event)" by (simp add: hopeless_def failed_attempt_def)
  have "hopeless ?o (webhook_attempt ?o fetcher sample_event 0 (?s ! 0))"
    using t f(2) by (simp add: hopeless_def failed_attempt_def webhook_attempt_def deliverWebhook_def webhook_request_of_def Let_def)
  then have "Webhook_target (sub_url (?s ! 0)) \<in> failure_target ` set wf"
    unfolding failures(3) f(1) by (intro CollectI exI [of _ 0] conjI) simp_all
  moreover have "Handler_target 0 \<in> failure_target ` set hf"
    using h0 unfolding failures(2) by (intro CollectI exI [of _ 0] conjI) simp_all
  ultimately show ?thesis using rep by (simp add: failures(1) image_Un)
qed

text \<open>The promise of \<open>emit\<close> can reject: when the failure callback throws for a failed handler, the caller gets
  that error instead of a report, and no webhook is tried any more, since the answers of \<open>fetch\<close> make no
  difference.\<close>

theorem throwing_callback_rejects_emit:
  "hub_emit ((sample_hub_options (Some (\<lambda>_. Inl (Thrown_string ''alert failed''))))\<lparr>hub_fetch := f\<rparr>) sample_hub sample_event =
     Some (Inl (Thrown_string ''alert failed''))"
proof -
  have "withRetry (\<lambda>_. Some (Inl (Thrown_string ''busy'')) :: (thrown + unit) option)
      \<lparr>retry_maxAttempts = 2, retry_initialDelayMs = 100, retry_backoffFactor = 2\<rparr> =
      Some (Gave_up (Other_error (PlatformError ''Error'' ''busy'')) 2, [100])"
    by code_simp
  then show ?thesis
    by (simp add: hub_emit_def sample_hub_def on_event_def createObservabilityHub_def sample_hub_options_def sample_event_def
        or_default_def handler_results_def hub_retry_def DEFAULT_RETRY_def Let_def)
qed

end
