(* ===== verification/Dashboard.thy ===== *)
theory Dashboard
  imports Dates Channels "HOL-Library.Signed_Division"
begin

text \<open>
  The tables of the dashboard: amounts, totals, order and flags of \<open>apps/dashboard/src/app/agents/agents-view.tsx\<close>
  and \<open>channels/channels-view.tsx\<close>, with the rows of \<open>data/agent-spend.ts\<close> and \<open>data/open-channels.ts\<close>. The
  markup that shows them is in \<open>Pages\<close>. \<open>BigInt\<close> throws on a text that is no integer, which is
  \<open>None\<close> here, and a throw while rendering shows nothing.

  \<open>/\<close> and \<open>%\<close> on \<open>BigInt\<close> truncate. A drawdown is taken to be small enough for a number without an exponent
  (below \<open>10\<^sup>2\<^sup>1\<close> percent).
\<close>

subsection \<open>Amounts\<close>

definition DEFAULT_ASSET_DECIMALS :: nat where
  "DEFAULT_ASSET_DECIMALS = 7"

fun group_rev :: "string \<Rightarrow> string" where
  "group_rev (a # b # c # d # rest) = a # b # c # CHR '','' # group_rev (d # rest)"
| "group_rev s = s"

text \<open>\<open>toLocaleString\<close> for \<open>en-US\<close>: groups of three digits.\<close>

definition toLocaleString :: "int \<Rightarrow> string" where
  "toLocaleString i = (if i < 0 then ''-'' else []) @ rev (group_rev (rev (nat_toString (nat \<bar>i\<bar>))))"

definition format_units :: "int \<Rightarrow> string" where
  "format_units units =
     (let divisor = 10 ^ DEFAULT_ASSET_DECIMALS; whole = units sdiv divisor; fraction = units smod divisor;
          fractionStr = take 2 (padStart DEFAULT_ASSET_DECIMALS (int_toString fraction))
      in toLocaleString whole @ ''.'' @ fractionStr)"

definition formatAmount :: "string \<Rightarrow> string \<Rightarrow> string" where
  "formatAmount amount asset =
     (case StringToBigInt amount of
        None \<Rightarrow> amount @ '' '' @ asset
      | Some units \<Rightarrow> format_units units @ '' '' @ asset)"

text \<open>\<open>reduce\<close> over \<open>BigInt\<close> values.\<close>

fun sumAmounts :: "('r \<Rightarrow> string) \<Rightarrow> 'r list \<Rightarrow> int option" where
  "sumAmounts pick [] = Some 0"
| "sumAmounts pick (r # rows) =
     Option.bind (StringToBigInt (pick r)) (\<lambda>a. map_option (\<lambda>s. a + s) (sumAmounts pick rows))"

definition headlineAsset :: "('r \<Rightarrow> string) \<Rightarrow> 'r list \<Rightarrow> string" where
  "headlineAsset asset rows = (case rows of [] \<Rightarrow> ''USDC'' | r # _ \<Rightarrow> asset r)"

text \<open>\<open>Array.prototype.sort\<close>: stable, by the sign of a comparison, which two or more elements always
  meet; a comparison that throws ends it.\<close>

fun insert_by :: "('r \<Rightarrow> 'r \<Rightarrow> int) \<Rightarrow> 'r \<Rightarrow> 'r list \<Rightarrow> 'r list" where
  "insert_by compare x [] = [x]"
| "insert_by compare x (y # ys) = (if compare x y \<le> 0 then x # y # ys else y # insert_by compare x ys)"

definition js_sort :: "('r \<Rightarrow> 'r \<Rightarrow> int) \<Rightarrow> 'r list \<Rightarrow> 'r list" where
  "js_sort compare rows = foldr (insert_by compare) rows []"

subsection \<open>Agents\<close>

record agent_row =
  ag_id :: string
  ag_label :: string
  ag_spend :: string
  ag_budget :: string
  ag_asset :: string

datatype sort_direction = Asc | Desc

definition compareSpend :: "int \<Rightarrow> int \<Rightarrow> sort_direction \<Rightarrow> int" where
  "compareSpend left right direction =
     (if left = right then 0
      else let ascending = (if left < right then -1 else 1) in if direction = Asc then ascending else - ascending)"

definition spend_of :: "agent_row \<Rightarrow> int option" where
  "spend_of r = StringToBigInt (ag_spend r)"

definition sort_agents :: "sort_direction \<Rightarrow> agent_row list \<Rightarrow> agent_row list option" where
  "sort_agents direction rows =
     (if 2 \<le> length rows \<and> (\<exists>r\<in>set rows. spend_of r = None) then None
      else Some (js_sort (\<lambda>a b. compareSpend (the (spend_of a)) (the (spend_of b)) direction) rows))"

definition toggle_sort :: "sort_direction \<Rightarrow> sort_direction" where
  "toggle_sort prev = (if prev = Desc then Asc else Desc)"

subsection \<open>Channels\<close>

record channel_row =
  cr_id :: string
  cr_counterparty :: string
  cr_deposit :: string
  cr_committed :: string
  cr_sequence :: int
  cr_status :: channel_status
  cr_asset :: string

text \<open>\<open>Number\<close> of an integer and the double nearest to a rational.\<close>

definition nearest :: "rat \<Rightarrow> rat" where
  "nearest x = (if x < 0 then - to_double (- x) else to_double x)"

definition drawdownRatio :: "channel_row \<Rightarrow> rat option" where
  "drawdownRatio row =
     Option.bind (StringToBigInt (cr_deposit row)) (\<lambda>deposit.
       if deposit = 0 then Some 0
       else map_option (\<lambda>committed. nearest (nearest (of_int ((committed * 10000) sdiv deposit)) / 10000))
              (StringToBigInt (cr_committed row)))"

definition DEFAULT_NEARING_CLOSE_THRESHOLD :: rat where
  "DEFAULT_NEARING_CLOSE_THRESHOLD = to_double (8 / 10)"

definition isNearingClose :: "channel_row \<Rightarrow> rat \<Rightarrow> bool option" where
  "isNearingClose row threshold =
     (if cr_status row \<noteq> Status_open then Some False else map_option (\<lambda>ratio. threshold \<le> ratio) (drawdownRatio row))"

definition compare_ratio :: "rat \<Rightarrow> rat \<Rightarrow> int" where
  "compare_ratio a b = (if b < a then -1 else if a < b then 1 else 0)"

definition sort_channels :: "channel_row list \<Rightarrow> channel_row list option" where
  "sort_channels rows =
     (if 2 \<le> length rows \<and> (\<exists>r\<in>set rows. drawdownRatio r = None) then None
      else Some (js_sort (\<lambda>a b. compare_ratio (the (drawdownRatio a)) (the (drawdownRatio b))) rows))"

text \<open>\<open>toFixed(1)\<close>: the nearest tenth, the larger one of two.\<close>

definition toFixed1 :: "rat \<Rightarrow> string" where
  "toFixed1 x =
     (let n = Math_round (\<bar>x\<bar> * 10) in (if x < 0 then ''-'' else []) @ nat_toString (nat n div 10) @ ''.'' @ nat_toString (nat n mod 10))"

definition formatPercent :: "rat \<Rightarrow> string" where
  "formatPercent ratio = toFixed1 (nearest (ratio * 100)) @ ''%''"

subsection \<open>The rows until the hub is there\<close>

definition STUB_AGENTS :: "agent_row list" where
  "STUB_AGENTS =
     [\<lparr>ag_id = ''agent-research-01'', ag_label = ''research-bot'', ag_spend = ''1842500000'',
       ag_budget = ''5000000000'', ag_asset = ''USDC''\<rparr>,
      \<lparr>ag_id = ''agent-summarizer-02'', ag_label = ''summarizer'', ag_spend = ''734200000'',
       ag_budget = ''2000000000'', ag_asset = ''USDC''\<rparr>,
      \<lparr>ag_id = ''agent-classifier-03'', ag_label = ''classifier'', ag_spend = ''215000000'',
       ag_budget = ''1000000000'', ag_asset = ''USDC''\<rparr>,
      \<lparr>ag_id = ''agent-router-04'', ag_label = ''router'', ag_spend = ''98000000'',
       ag_budget = ''500000000'', ag_asset = ''USDC''\<rparr>]"

definition STUB_CHANNELS :: "channel_row list" where
  "STUB_CHANNELS =
     [\<lparr>cr_id = ''ch-stripe-01'', cr_counterparty = ''GCSTRIPE...XYZ'', cr_deposit = ''5000000000'',
       cr_committed = ''1250000000'', cr_sequence = 42, cr_status = Status_open, cr_asset = ''USDC''\<rparr>,
      \<lparr>cr_id = ''ch-anthropic-02'', cr_counterparty = ''GANTHROPIC...ABC'', cr_deposit = ''10000000000'',
       cr_committed = ''8600000000'', cr_sequence = 187, cr_status = Status_open, cr_asset = ''USDC''\<rparr>,
      \<lparr>cr_id = ''ch-openai-03'', cr_counterparty = ''GOPENAI...QRS'', cr_deposit = ''2000000000'',
       cr_committed = ''1980000000'', cr_sequence = 96, cr_status = Status_closing, cr_asset = ''USDC''\<rparr>,
      \<lparr>cr_id = ''ch-perplexity-04'', cr_counterparty = ''GPERPLEX...JKL'', cr_deposit = ''1000000000'',
       cr_committed = ''0'', cr_sequence = -1, cr_status = Status_recovering, cr_asset = ''USDC''\<rparr>]"

end
