(* ===== verification/DashboardProofs.thy ===== *)
theory DashboardProofs
  imports Dashboard
begin

text \<open>
  The dashboard's tables: amounts are cut off, never rounded up; the agents are in the order of their spend;
  the channels that are marked are those the channel manager would close.
\<close>

subsection \<open>Amounts\<close>

lemma BigInt_append: "BigInt (s @ t) = BigInt s * 10 ^ length t + BigInt t"
proof (induction t rule: rev_induct)
  case (snoc c t)
  have "BigInt (s @ t @ [c]) = 10 * BigInt (s @ t) + digit_val c" by (simp only: append_assoc [symmetric] BigInt_snoc)
  with snoc show ?case by simp
qed simp

lemma BigInt_take:
  assumes "list_all is_digit s" "length s = m + n" shows "BigInt (take m s) = BigInt s div 10 ^ n"
proof -
  have "BigInt s = BigInt (take m s) * 10 ^ n + BigInt (drop m s)"
    using BigInt_append [of "take m s" "drop m s"] assms(2) by simp
  moreover have "BigInt (drop m s) < 10 ^ length (drop m s)"
    using assms(1) by (intro BigInt_bound) (auto simp: list_all_iff dest: in_set_dropD)
  ultimately show ?thesis using assms(2) by simp
qed

lemma group_digits: "list_all is_digit s \<Longrightarrow> filter is_digit (group_rev s) = s"
  by (induction s rule: group_rev.induct) (auto simp: is_digit_def)

lemma group_chars: "list_all is_digit s \<Longrightarrow> list_all (\<lambda>c. is_digit c \<or> c = CHR '','') (group_rev s)"
  by (induction s rule: group_rev.induct) auto

lemma locale_digits:
  "filter is_digit (toLocaleString (int n)) = nat_toString n"
  "list_all (\<lambda>c. is_digit c \<or> c = CHR '','') (toLocaleString (int n))"
  using group_digits [of "rev (nat_toString n)"] group_chars [of "rev (nat_toString n)"] nat_toString_digits [of n]
  by (simp_all add: toLocaleString_def list_all_rev flip: rev_filter)

lemma sdiv_nat: "int a sdiv int b = int (a div b)" "int a smod int b = int (a mod b)"
  by (cases "a = 0"; cases "b = 0"; simp add: signed_divide_int_def signed_modulo_int_def zdiv_int zmod_int)+

lemma format_units_nat:
  "\<exists>f. format_units (int n) = toLocaleString (int (n div 10 ^ 7)) @ ''.'' @ f \<and> length f = 2 \<and> list_all is_digit f \<and>
    BigInt (nat_toString (n div 10 ^ 7) @ f) = n div 10 ^ 5"
proof -
  define p where "p = padStart 7 (nat_toString (n mod 10 ^ 7))"
  have p: "length p = 7" "list_all is_digit p" "BigInt p = n mod 10 ^ 7"
    unfolding p_def by (rule padStart_digits; simp)+
  have q: "int n sdiv 10 ^ 7 = int (n div 10 ^ 7)" "int n smod 10 ^ 7 = int (n mod 10 ^ 7)"
    using sdiv_nat [of n "10 ^ 7"] by simp_all
  have "format_units (int n) = toLocaleString (int (n div 10 ^ 7)) @ ''.'' @ take 2 p"
    by (simp only: format_units_def Let_def DEFAULT_ASSET_DECIMALS_def q) (simp add: p_def int_toString_def)
  moreover have "length (take 2 p) = 2" "list_all is_digit (take 2 p)"
    using p by (auto simp: list_all_iff dest: in_set_takeD)
  moreover have "BigInt (nat_toString (n div 10 ^ 7) @ take 2 p) = n div 10 ^ 5"
  proof -
    have "BigInt (take 2 p) = n mod 10 ^ 7 div 10 ^ 5" using BigInt_take [OF p(2), of 2 5] p by simp
    then have "BigInt (nat_toString (n div 10 ^ 7) @ take 2 p) = n div 10 ^ 7 * 10 ^ 2 + n mod 10 ^ 7 div 10 ^ 5"
      using p(1) by (simp add: BigInt_append)
    moreover have "n div 10 ^ 7 * 10 ^ 2 + n mod 10 ^ 7 div 10 ^ 5 = n div 10 ^ 5"
      using div_mult2_eq [of n "10 ^ 5" "10 ^ 2"] mod_mult2_eq [of n "10 ^ 5" "10 ^ 2"] by simp
    ultimately show ?thesis by simp
  qed
  ultimately show ?thesis by blast
qed

subsection \<open>Order\<close>

lemma insert_by_key: "(\<And>a b. compare a b \<le> 0 \<longleftrightarrow> f a \<le> f b) \<Longrightarrow> insert_by compare x ys = insort_key f x ys"
  by (induction ys) simp_all

lemma js_sort_key:
  fixes f :: "'a \<Rightarrow> 'b :: linorder"
  assumes "\<And>a b. compare a b \<le> 0 \<longleftrightarrow> f a \<le> f b"
  shows "js_sort compare rows = sort_key f rows"
  unfolding js_sort_def sort_key_def by (induction rows) (simp_all add: insert_by_key [OF assms])

definition direction_sign :: "sort_direction \<Rightarrow> int" where
  "direction_sign direction = (if direction = Asc then 1 else -1)"

lemma sort_agents_key:
  assumes "\<forall>r\<in>set rows. spend_of r \<noteq> None"
  shows "sort_agents direction rows = Some (sort_key (\<lambda>r. direction_sign direction * the (spend_of r)) rows)"
proof -
  have "js_sort (\<lambda>a b. compareSpend (the (spend_of a)) (the (spend_of b)) direction) rows =
      sort_key (\<lambda>r. direction_sign direction * the (spend_of r)) rows"
    by (rule js_sort_key) (cases direction; auto simp: compareSpend_def direction_sign_def)
  with assms show ?thesis by (auto simp: sort_agents_def)
qed

lemma sort_channels_key:
  assumes "\<forall>r\<in>set rows. drawdownRatio r \<noteq> None"
  shows "sort_channels rows = Some (sort_key (\<lambda>r. - the (drawdownRatio r)) rows)"
proof -
  have "js_sort (\<lambda>a b. compare_ratio (the (drawdownRatio a)) (the (drawdownRatio b))) rows =
      sort_key (\<lambda>r. - the (drawdownRatio r)) rows"
    by (rule js_sort_key) (auto simp: compare_ratio_def)
  with assms show ?thesis by (auto simp: sort_channels_def)
qed

subsection \<open>Drawdown\<close>

lemma nearest_error:
  assumes "0 \<le> x" shows "\<bar>nearest x - x\<bar> \<le> 1 / 2 ^ 41 + x / 2 ^ 53"
proof -
  have "(2 :: rat) powi (-1074) \<le> 2 powi (-40)" by (rule power_int_increasing) simp_all
  then have s: "(2 :: rat) powi (-1074) \<le> 1 / 2 ^ 40" by (simp add: power_int_minus inverse_eq_divide)
  have "\<bar>nearest x - x\<bar> \<le> max (2 powi (-1074)) (x / 2 ^ 52) / 2"
    using to_double_error [OF assms] assms by (simp add: nearest_def)
  also have "\<dots> \<le> (1 / 2 ^ 40 + x / 2 ^ 52) / 2" using s assms by (intro divide_right_mono) (simp_all add: max_def)
  finally show ?thesis by simp
qed

lemma default_threshold:
  "nearest (4 / 5) = DEFAULT_NEARING_CLOSE_THRESHOLD" "nearest 8000 = 8000"
  "Math_round (to_double (DEFAULT_NEARING_CLOSE_THRESHOLD * 1000000)) = 800000"
  "0 \<le> DEFAULT_NEARING_CLOSE_THRESHOLD" "DEFAULT_NEARING_CLOSE_THRESHOLD \<le> 1"
  by code_simp+

lemma ratio_threshold:
  assumes "0 \<le> k"
  shows "DEFAULT_NEARING_CLOSE_THRESHOLD \<le> nearest (nearest (of_int k) / 10000) \<longleftrightarrow> 8000 \<le> k"
proof -
  define y where "y = nearest (of_int k)"
  have y: "\<bar>y - of_int k\<bar> \<le> 1 / 2 ^ 41 + of_int k / 2 ^ 53" unfolding y_def using assms by (intro nearest_error) simp
  have T: "8 / 10 - 1 / 2 ^ 40 \<le> DEFAULT_NEARING_CLOSE_THRESHOLD" "DEFAULT_NEARING_CLOSE_THRESHOLD \<le> 8 / 10 + 1 / 2 ^ 40"
    by code_simp+
  consider "k \<le> 7999" | "k = 8000" | "8001 \<le> k" by linarith
  then show ?thesis
  proof cases
    case 1
    then have k: "(of_int k :: rat) \<le> 7999" "(0 :: rat) \<le> of_int k" using assms by simp_all
    have y0: "- 1 \<le> y" "y \<le> 7999 + 1 / 10" using y k by (simp_all add: abs_le_iff)
    have "nearest (y / 10000) < 8 / 10 - 1 / 2 ^ 40"
    proof (cases "0 \<le> y")
      case True
      with nearest_error [of "y / 10000"] y0 show ?thesis by (simp add: abs_le_iff)
    next
      case False
      then have "0 \<le> - y / 10000" by simp
      from nearest_error [OF this] False y0 show ?thesis by (simp add: nearest_def abs_le_iff)
    qed
    with T(1) have "\<not> DEFAULT_NEARING_CLOSE_THRESHOLD \<le> nearest (y / 10000)" by linarith
    with 1 show ?thesis by (simp add: y_def [symmetric])
  next
    case 2
    then show ?thesis by (simp add: default_threshold)
  next
    case 3
    then have k: "(8001 :: rat) \<le> of_int k" by simp
    then have y0: "8001 - 1 / 10 \<le> y" using y by (simp add: abs_le_iff)
    with nearest_error [of "y / 10000"] have "8 / 10 + 1 / 2 ^ 40 \<le> nearest (y / 10000)" by (simp add: abs_le_iff)
    with T(2) have "DEFAULT_NEARING_CLOSE_THRESHOLD \<le> nearest (y / 10000)" by linarith
    with 3 show ?thesis by (simp add: y_def [symmetric])
  qed
qed

lemma hundredths_reached: "0 < d \<Longrightarrow> 8000 \<le> c * 10000 div d \<longleftrightarrow> d * 800000 \<le> c * (1000000 :: nat)"
  by (subst less_eq_div_iff_mult_less_eq) auto

lemma drawdown_of_amounts:
  assumes "AMOUNT_RE (cr_deposit row)" "AMOUNT_RE (cr_committed row)" "0 < BigInt (cr_deposit row)"
  shows "drawdownRatio row = Some (nearest (nearest (of_int (int (BigInt (cr_committed row) * 10000 div BigInt (cr_deposit row)))) / 10000))"
  using assms sdiv_nat [of "BigInt (cr_committed row) * 10000" "BigInt (cr_deposit row)"]
  by (simp add: drawdownRatio_def StringToBigInt_amount)

subsection \<open>Properties\<close>

text \<open>An amount is shown cut off, never rounded up: the digits on the page, without the separators, are the
  amount's hundredths of a unit rounded down, and only digits, separators and one point stand before the
  asset.\<close>

theorem shown_amount_is_cut_off:
  assumes "AMOUNT_RE amount"
  shows "\<exists>w f. formatAmount amount asset = w @ ''.'' @ f @ '' '' @ asset \<and> length f = 2 \<and>
    list_all (\<lambda>c. is_digit c \<or> c = CHR '','') w \<and> list_all is_digit f \<and>
    BigInt (filter is_digit w @ f) = BigInt amount div 100000"
proof -
  let ?w = "toLocaleString (int (BigInt amount div 10 ^ 7))"
  obtain f where "format_units (int (BigInt amount)) = ?w @ ''.'' @ f" "length f = 2" "list_all is_digit f"
    "BigInt (nat_toString (BigInt amount div 10 ^ 7) @ f) = BigInt amount div 10 ^ 5"
    using format_units_nat by blast
  then have "formatAmount amount asset = ?w @ ''.'' @ f @ '' '' @ asset" "length f = 2" "list_all is_digit f"
    "BigInt (filter is_digit ?w @ f) = BigInt amount div 100000"
    by (simp_all only: formatAmount_def StringToBigInt_amount [OF assms] option.case append_assoc locale_digits(1)) simp
  with locale_digits(2) show ?thesis by blast
qed

theorem shown_amount_is_cut_off_witness:
  "\<exists>w f. formatAmount ''1842599999'' ''USDC'' = w @ ''.'' @ f @ '' USDC'' \<and> length f = 2 \<and>
    BigInt (filter is_digit w @ f) = 18425"
proof -
  have "AMOUNT_RE ''1842599999''" "BigInt ''1842599999'' = 1842599999"
    by (simp_all add: AMOUNT_RE_def is_digit_def BigInt_def digit_val_def)
  with shown_amount_is_cut_off [of "''1842599999''" "''USDC''"] obtain w f where
    "formatAmount ''1842599999'' ''USDC'' = w @ ''.'' @ f @ '' USDC''" "length f = 2" "BigInt (filter is_digit w @ f) = 18425"
    by auto
  then show ?thesis by blast
qed

text \<open>The agents' table is the stable sort of the rows by spend, upwards or downwards, whenever all spends are
  integers; agents of equal spend keep their order in both directions.\<close>

theorem agents_are_in_spend_order:
  assumes "\<forall>r\<in>set rows. spend_of r \<noteq> None"
  shows "sort_agents direction rows = Some (sort_key (\<lambda>r. direction_sign direction * the (spend_of r)) rows)"
  by (rule sort_agents_key [OF assms])

theorem agents_are_in_spend_order_witness:
  "sort_agents Desc STUB_AGENTS = Some STUB_AGENTS \<and> sort_agents Asc STUB_AGENTS = Some (rev STUB_AGENTS)"
proof -
  have s: "map spend_of STUB_AGENTS = [Some 1842500000, Some 734200000, Some 215000000, Some 98000000]"
    by (simp add: STUB_AGENTS_def spend_of_def StringToBigInt_amount AMOUNT_RE_def is_digit_def BigInt_def digit_val_def)
  then have "\<forall>r\<in>set STUB_AGENTS. spend_of r \<noteq> None" by (auto simp: STUB_AGENTS_def)
  note agents_are_in_spend_order [OF this]
  with s show ?thesis by (simp add: direction_sign_def STUB_AGENTS_def)
qed

text \<open>C23. With the default threshold the channels that are marked as nearing close are exactly those the channel
  manager would close with the same threshold: four digits of precision in floating point and six digits in
  exact arithmetic give the same answer for every deposit and every committed amount.\<close>

theorem nearing_close_agrees_with_manager:
  assumes "getChannel S i s = Some c" and "AMOUNT_RE (ch_deposit c)" "AMOUNT_RE (ch_committed c)"
    and "cr_deposit row = ch_deposit c" "cr_committed row = ch_committed c" "cr_status row = ch_status c"
  shows "shouldClose S date_parse (Some \<lparr>drawdownThreshold = Some (Finite DEFAULT_NEARING_CLOSE_THRESHOLD), idleTimeoutSeconds = None\<rparr>)
      now i s = Inr (isNearingClose row DEFAULT_NEARING_CLOSE_THRESHOLD = Some True)"
proof (cases "BigInt (ch_deposit c) = 0")
  case True
  then have "drawdownRatio row = Some 0" using assms by (simp add: drawdownRatio_def StringToBigInt_amount)
  moreover have "\<not> DEFAULT_NEARING_CLOSE_THRESHOLD \<le> 0" by code_simp
  ultimately show ?thesis using True assms default_threshold(4,5)
    by (simp add: shouldClose_def drawdown_reached_def isNearingClose_def parse_amount_def)
next
  case False
  let ?k = "BigInt (ch_committed c) * 10000 div BigInt (ch_deposit c)"
  have view: "isNearingClose row DEFAULT_NEARING_CLOSE_THRESHOLD = Some (ch_status c = Status_open \<and> 8000 \<le> ?k)"
    using drawdown_of_amounts [of row] ratio_threshold [of "int ?k"] False assms by (simp add: isNearingClose_def)
  have "int (BigInt (ch_deposit c)) * 800000 \<le> int (BigInt (ch_committed c)) * 1000000 \<longleftrightarrow> 8000 \<le> ?k"
    using hundredths_reached [of "BigInt (ch_deposit c)" "BigInt (ch_committed c)"] False by linarith
  then show ?thesis using False assms default_threshold(3-5)
    by (simp add: view shouldClose_def drawdown_reached_def SCALE_def parse_amount_def Let_def split: bool.splits)
qed

definition sample_channel :: channel where
  "sample_channel = \<lparr>ch_id = ''ch-anthropic-02'', ch_counterparty = ''GANTHROPIC...ABC'', ch_asset = ''USDC'',
     ch_deposit = ''10000000000'', ch_committed = ''8600000000'', ch_sequence = 187, ch_status = Status_open,
     ch_network = Testnet, ch_openTxHash = ''tx'', ch_openedAt = ''t0'', ch_lastCommitAt = None,
     ch_settlementTxHash = None, ch_returnedRemainder = None\<rparr>"

theorem nearing_close_agrees_with_manager_witness:
  "shouldClose memory_store (\<lambda>_. None)
     (Some \<lparr>drawdownThreshold = Some (Finite DEFAULT_NEARING_CLOSE_THRESHOLD), idleTimeoutSeconds = None\<rparr>)
     ''t1'' ''ch-anthropic-02'' \<lparr>mem_channels = [''ch-anthropic-02'' \<mapsto> sample_channel], mem_commitments = Map.empty\<rparr> = Inr True \<and>
   isNearingClose (STUB_CHANNELS ! 1) DEFAULT_NEARING_CLOSE_THRESHOLD = Some True"
proof -
  let ?s = "\<lparr>mem_channels = [''ch-anthropic-02'' \<mapsto> sample_channel], mem_commitments = Map.empty\<rparr>"
  have c: "getChannel memory_store ''ch-anthropic-02'' ?s = Some sample_channel"
    by (simp add: memory_store_def mem_getChannel_def)
  have a: "AMOUNT_RE ''10000000000''" "AMOUNT_RE ''8600000000''" "BigInt ''10000000000'' = 10000000000"
    "BigInt ''8600000000'' = 8600000000"
    by (simp_all add: AMOUNT_RE_def is_digit_def BigInt_def digit_val_def)
  have near: "isNearingClose (STUB_CHANNELS ! 1) DEFAULT_NEARING_CLOSE_THRESHOLD = Some True"
    using a ratio_threshold [of 8600] by (simp add: isNearingClose_def STUB_CHANNELS_def drawdown_of_amounts)
  show ?thesis
    using nearing_close_agrees_with_manager [OF c, of "STUB_CHANNELS ! 1" "\<lambda>_. None" "''t1''"] near a
    by (simp add: sample_channel_def STUB_CHANNELS_def)
qed

end
