(* ===== verification/Adapters.thy ===== *)
theory Adapters
  imports GateProofs
begin

text \<open>
  The framework adapters \<open>packages/adapter-express\<close>, \<open>adapter-fastify\<close>, \<open>adapter-hono\<close> and
  \<open>adapter-next\<close>: each turns a framework's request into the gate's and the gate's outcome into what the
  framework sees. Only what the adapters themselves do to the framework's objects is modelled; header
  collections are lists with lower-case names, as they are case-insensitive. \<open>new URL\<close> is an argument.

  \<open>translate\<close> is the contract of an adapter, the locale \<open>paywall_adapter\<close> what follows from it, and the
  interpretations show that all four keep it.
\<close>

type_synonym 'w gate_fn = "tollway_request \<Rightarrow> 'w \<Rightarrow> gate_outcome result \<times> 'w"

type_synonym header_list = "(string \<times> string) list"

definition set_header :: "string \<Rightarrow> string \<Rightarrow> header_list \<Rightarrow> header_list" where
  "set_header name v hs =
     (let key = map to_lower name
      in if key \<in> set (map fst hs) then map (\<lambda>(k, u). if k = key then (k, v) else (k, u)) hs else hs @ [(key, v)])"

definition set_headers :: "header_list \<Rightarrow> header_list \<Rightarrow> header_list" where
  "set_headers extra hs = foldl (\<lambda>acc (name, v). set_header name v acc) hs extra"

definition error_json :: "string \<Rightarrow> json" where
  "error_json reason = JObj [(''error'', Some (JStr reason))]"

subsection \<open>Express\<close>

record express_request =
  ex_method :: string
  ex_originalUrl :: string
  ex_headers :: "(string \<times> header_value) list"

record express_response =
  ex_status :: nat
  ex_set :: header_list
  ex_locals :: "signed_receipt option"
  ex_json :: "json option"

datatype express_call = Next_called | Next_called_with js_error | Response_sent

definition expressPaywall ::
  "'w gate_fn \<Rightarrow> express_request \<Rightarrow> express_response \<Rightarrow> 'w \<Rightarrow> (express_call \<times> express_response) \<times> 'w" where
  "expressPaywall serve req res w =
     (case serve \<lparr>rq_method = ex_method req, rq_url = ex_originalUrl req, rq_headers = ex_headers req\<rparr> w of
        (Inl e, w1) \<Rightarrow> ((Next_called_with e, res), w1)
      | (Inr (Gate_settled headers r replayed cacheError), w1) \<Rightarrow>
          ((Next_called, res\<lparr>ex_set := set_headers headers (ex_set res), ex_locals := Some r\<rparr>), w1)
      | (Inr (Payment_required headers asked), w1) \<Rightarrow>
          ((Response_sent, res\<lparr>ex_set := set_headers headers (ex_set res), ex_status := 402, ex_json := Some (offer_json asked)\<rparr>), w1)
      | (Inr (Rejected status reason), w1) \<Rightarrow>
          ((Response_sent, res\<lparr>ex_status := status, ex_json := Some (error_json reason)\<rparr>), w1))"

subsection \<open>Fastify\<close>

record fastify_request =
  fq_method :: string
  fq_url :: string
  fq_headers :: "(string \<times> header_value) list"

record fastify_state =
  fy_status :: nat
  fy_headers :: header_list
  fy_sent :: "json option"
  fy_receipt :: "signed_receipt option"

definition fastifyPaywall ::
  "'w gate_fn \<Rightarrow> fastify_request \<Rightarrow> fastify_state \<Rightarrow> 'w \<Rightarrow> (unit result \<times> fastify_state) \<times> 'w" where
  "fastifyPaywall serve request st w =
     (case serve \<lparr>rq_method = fq_method request, rq_url = fq_url request, rq_headers = fq_headers request\<rparr> w of
        (Inl e, w1) \<Rightarrow> ((Inl e, st), w1)
      | (Inr (Gate_settled headers r replayed cacheError), w1) \<Rightarrow>
          ((Inr (), st\<lparr>fy_headers := set_headers headers (fy_headers st), fy_receipt := Some r\<rparr>), w1)
      | (Inr (Payment_required headers asked), w1) \<Rightarrow>
          ((Inr (), st\<lparr>fy_headers := set_headers headers (fy_headers st), fy_status := 402, fy_sent := Some (offer_json asked)\<rparr>), w1)
      | (Inr (Rejected status reason), w1) \<Rightarrow>
          ((Inr (), st\<lparr>fy_status := status, fy_sent := Some (error_json reason)\<rparr>), w1))"

subsection \<open>Web requests\<close>

text \<open>The URL of a web request is absolute; \<open>parse_url\<close> gives its path and its query.\<close>

record web_request =
  web_method :: string
  web_url :: string
  web_headers :: header_list

definition requestUrl :: "(string \<Rightarrow> (string \<times> string) result) \<Rightarrow> web_request \<Rightarrow> string result" where
  "requestUrl parse_url request = map_sum id (\<lambda>(pathname, search). pathname @ search) (parse_url (web_url request))"

fun put_field :: "string \<Rightarrow> 'v \<Rightarrow> (string \<times> 'v) list \<Rightarrow> (string \<times> 'v) list" where
  "put_field key v [] = [(key, v)]"
| "put_field key v ((k, u) # rest) = (if k = key then (k, v) # rest else (k, u) # put_field key v rest)"

definition requestHeaders :: "web_request \<Rightarrow> (string \<times> header_value) list" where
  "requestHeaders request = foldl (\<lambda>acc (key, v). put_field key (Header_single v) acc) [] (web_headers request)"

definition web_tollway_request :: "(string \<Rightarrow> (string \<times> string) result) \<Rightarrow> web_request \<Rightarrow> tollway_request result" where
  "web_tollway_request parse_url request =
     map_sum id (\<lambda>url. \<lparr>rq_method = web_method request, rq_url = url, rq_headers = requestHeaders request\<rparr>)
       (requestUrl parse_url request)"

subsection \<open>Hono\<close>

record hono_context =
  hono_headers :: header_list
  hono_receipt :: "signed_receipt option"
  hono_json :: "(json \<times> nat) option"

datatype hono_end = Hono_next | Hono_answered | Hono_threw js_error

definition honoPaywall ::
  "(string \<Rightarrow> (string \<times> string) result) \<Rightarrow> 'w gate_fn \<Rightarrow> web_request \<Rightarrow> hono_context \<Rightarrow> 'w \<Rightarrow>
   (hono_end \<times> hono_context) \<times> 'w" where
  "honoPaywall parse_url serve request c w =
     (case web_tollway_request parse_url request of
        Inl e \<Rightarrow> ((Hono_threw e, c), w)
      | Inr q \<Rightarrow>
          (case serve q w of
             (Inl e, w1) \<Rightarrow> ((Hono_threw e, c), w1)
           | (Inr (Gate_settled headers r replayed cacheError), w1) \<Rightarrow>
               ((Hono_next, c\<lparr>hono_headers := set_headers headers (hono_headers c), hono_receipt := Some r\<rparr>), w1)
           | (Inr (Payment_required headers asked), w1) \<Rightarrow>
               ((Hono_answered, c\<lparr>hono_headers := set_headers headers (hono_headers c), hono_json := Some (offer_json asked, 402)\<rparr>), w1)
           | (Inr (Rejected status reason), w1) \<Rightarrow>
               ((Hono_answered, c\<lparr>hono_json := Some (error_json reason, status)\<rparr>), w1)))"

subsection \<open>Next\<close>

record web_response =
  wr_status :: nat
  wr_statusText :: string
  wr_headers :: header_list
  wr_body :: string

definition jsonResponse :: "json \<Rightarrow> nat \<Rightarrow> header_list \<Rightarrow> web_response" where
  "jsonResponse body status extraHeaders =
     \<lparr>wr_status = status, wr_statusText = [],
      wr_headers = set_headers extraHeaders [(''content-type'', ''application/json'')], wr_body = json_stringify body\<rparr>"

definition withMergedHeaders :: "web_response \<Rightarrow> header_list \<Rightarrow> web_response" where
  "withMergedHeaders response extraHeaders =
     \<lparr>wr_status = wr_status response, wr_statusText = wr_statusText response,
      wr_headers = set_headers extraHeaders (wr_headers response), wr_body = wr_body response\<rparr>"

definition withPaywall ::
  "(string \<Rightarrow> (string \<times> string) result) \<Rightarrow> 'w gate_fn \<Rightarrow>
   (web_request \<Rightarrow> signed_receipt \<Rightarrow> 'w \<Rightarrow> web_response result \<times> 'w) \<Rightarrow> web_request \<Rightarrow> 'w \<Rightarrow> web_response result \<times> 'w" where
  "withPaywall parse_url serve handler request w =
     (case web_tollway_request parse_url request of
        Inl e \<Rightarrow> (Inl e, w)
      | Inr q \<Rightarrow>
          (case serve q w of
             (Inl e, w1) \<Rightarrow> (Inl e, w1)
           | (Inr (Gate_settled headers r replayed cacheError), w1) \<Rightarrow>
               (case handler request r w1 of
                  (Inl e, w2) \<Rightarrow> (Inl e, w2)
                | (Inr response, w2) \<Rightarrow> (Inr (withMergedHeaders response headers), w2))
           | (Inr (Payment_required headers asked), w1) \<Rightarrow> (Inr (jsonResponse (offer_json asked) 402 headers), w1)
           | (Inr (Rejected status reason), w1) \<Rightarrow> (Inr (jsonResponse (error_json reason) status []), w1)))"

subsection \<open>The contract\<close>

text \<open>
  What an adapter makes of an outcome: the request passes on to the route with headers and a receipt,
  is answered with a status, headers and a JSON body, or an error is thrown. The content type is left
  out: Next's adapter sets it, the other frameworks do.
\<close>

datatype adapter_result =
    Passed header_list "signed_receipt option"
  | Answered nat header_list string
  | Threw js_error

definition seen_headers :: "header_list \<Rightarrow> header_list" where
  "seen_headers hs = filter (\<lambda>h. fst h \<noteq> ''content-type'') hs"

fun translate :: "gate_outcome \<Rightarrow> adapter_result" where
  "translate (Gate_settled headers r _ _) = Passed (seen_headers (set_headers headers [])) (Some r)"
| "translate (Payment_required headers asked) = Answered 402 (seen_headers (set_headers headers [])) (json_stringify (offer_json asked))"
| "translate (Rejected status reason) = Answered status [] (json_stringify (error_json reason))"

locale paywall_adapter =
  fixes run :: "'w gate_fn \<Rightarrow> 'req \<Rightarrow> 'w \<Rightarrow> adapter_result \<times> 'w" and request_of :: "'req \<Rightarrow> tollway_request result"
  assumes translates: "run g req w =
    (case request_of req of
       Inl e \<Rightarrow> (Threw e, w)
     | Inr q \<Rightarrow> (case g q w of (Inl e, w1) \<Rightarrow> (Threw e, w1) | (Inr outcome, w1) \<Rightarrow> (translate outcome, w1)))"
begin

text \<open>A request passes only on a settled outcome, with its receipt.\<close>

lemma passed_settled:
  assumes "run g req w = (Passed hs rcpt, w')"
  obtains q headers r replayed ce where "request_of req = Inr q" "g q w = (Inr (Gate_settled headers r replayed ce), w')"
    "hs = seen_headers (set_headers headers [])" "rcpt = Some r"
  using assms unfolding translates by (auto split: sum.splits prod.splits elim!: translate.elims)

lemma passed_matches:
  assumes "run (gate ctx inFlight deps config) req w = (Passed hs rcpt, w')"
  shows "\<exists>q r m. request_of req = Inr q \<and> rcpt = Some r \<and> matches (receipt r) (offer_of_config config q) m"
proof -
  from assms obtain q headers r replayed ce where "request_of req = Inr q" "rcpt = Some r"
    and "gate ctx inFlight deps config q w = (Inr (Gate_settled headers r replayed ce), w')" by (rule passed_settled)
  with gate_settled [OF this(3)] show ?thesis by blast
qed

end

text \<open>What the route sees of each framework's objects, which start empty.\<close>

definition express_run :: "'w gate_fn \<Rightarrow> express_request \<Rightarrow> 'w \<Rightarrow> adapter_result \<times> 'w" where
  "express_run g req w =
     (case expressPaywall g req \<lparr>ex_status = 200, ex_set = [], ex_locals = None, ex_json = None\<rparr> w of
        ((Next_called, res), w1) \<Rightarrow> (Passed (seen_headers (ex_set res)) (ex_locals res), w1)
      | ((Next_called_with e, res), w1) \<Rightarrow> (Threw e, w1)
      | ((Response_sent, res), w1) \<Rightarrow> (Answered (ex_status res) (seen_headers (ex_set res)) (json_stringify (the (ex_json res))), w1))"

definition fastify_run :: "'w gate_fn \<Rightarrow> fastify_request \<Rightarrow> 'w \<Rightarrow> adapter_result \<times> 'w" where
  "fastify_run g req w =
     (case fastifyPaywall g req \<lparr>fy_status = 200, fy_headers = [], fy_sent = None, fy_receipt = None\<rparr> w of
        ((Inl e, st), w1) \<Rightarrow> (Threw e, w1)
      | ((Inr _, st), w1) \<Rightarrow>
          (case fy_sent st of
             None \<Rightarrow> (Passed (seen_headers (fy_headers st)) (fy_receipt st), w1)
           | Some body \<Rightarrow> (Answered (fy_status st) (seen_headers (fy_headers st)) (json_stringify body), w1)))"

definition hono_run ::
  "(string \<Rightarrow> (string \<times> string) result) \<Rightarrow> 'w gate_fn \<Rightarrow> web_request \<Rightarrow> 'w \<Rightarrow> adapter_result \<times> 'w" where
  "hono_run parse_url g req w =
     (case honoPaywall parse_url g req \<lparr>hono_headers = [], hono_receipt = None, hono_json = None\<rparr> w of
        ((Hono_threw e, c), w1) \<Rightarrow> (Threw e, w1)
      | ((Hono_next, c), w1) \<Rightarrow> (Passed (seen_headers (hono_headers c)) (hono_receipt c), w1)
      | ((Hono_answered, c), w1) \<Rightarrow>
          (Answered (snd (the (hono_json c))) (seen_headers (hono_headers c)) (json_stringify (fst (the (hono_json c)))), w1))"

text \<open>The route of Next is a handler; this one answers with an empty response and remembers the receipt.\<close>

definition next_probe :: "web_request \<Rightarrow> signed_receipt \<Rightarrow> 'w \<times> signed_receipt option \<Rightarrow> web_response result \<times> 'w \<times> signed_receipt option" where
  "next_probe req r w = (Inr \<lparr>wr_status = 200, wr_statusText = [], wr_headers = [], wr_body = []\<rparr>, (fst w, Some r))"

definition next_run ::
  "(string \<Rightarrow> (string \<times> string) result) \<Rightarrow> 'w gate_fn \<Rightarrow> web_request \<Rightarrow> 'w \<Rightarrow> adapter_result \<times> 'w" where
  "next_run parse_url g req w =
     (case withPaywall parse_url (\<lambda>q (w, seen). map_prod id (\<lambda>w'. (w', seen)) (g q w)) next_probe req (w, None) of
        (Inl e, (w1, _)) \<Rightarrow> (Threw e, w1)
      | (Inr response, (w1, Some r)) \<Rightarrow> (Passed (seen_headers (wr_headers response)) (Some r), w1)
      | (Inr response, (w1, None)) \<Rightarrow>
          (Answered (wr_status response) (seen_headers (wr_headers response)) (wr_body response), w1))"

definition express_request_of :: "express_request \<Rightarrow> tollway_request result" where
  "express_request_of req = Inr \<lparr>rq_method = ex_method req, rq_url = ex_originalUrl req, rq_headers = ex_headers req\<rparr>"

definition fastify_request_of :: "fastify_request \<Rightarrow> tollway_request result" where
  "fastify_request_of req = Inr \<lparr>rq_method = fq_method req, rq_url = fq_url req, rq_headers = fq_headers req\<rparr>"

lemma seen_headers_Nil [simp]: "seen_headers [] = []"
  by (simp add: seen_headers_def)

lemma set_headers_Nil [simp]: "set_headers [] hs = hs"
  by (simp add: set_headers_def)

lemma filter_set_header:
  "filter (\<lambda>h. fst h \<noteq> c) (set_header name v hs) =
     (if map to_lower name = c then filter (\<lambda>h. fst h \<noteq> c) hs else set_header name v (filter (\<lambda>h. fst h \<noteq> c) hs))"
proof -
  define key where "key = map to_lower name"
  define upd where "upd = (\<lambda>(k, u). if k = key then (k, v) else (k :: string, u :: string))"
  have fst_upd: "fst (upd h) = fst h" for h by (cases h) (simp add: upd_def)
  have f: "filter (\<lambda>h. fst h \<noteq> c) (map upd hs) = map upd (filter (\<lambda>h. fst h \<noteq> c) hs)"
    by (induction hs) (simp_all add: fst_upd)
  have same: "map upd (filter (\<lambda>h. fst h \<noteq> key) hs) = filter (\<lambda>h. fst h \<noteq> key) hs"
    by (rule map_idI) (auto simp: upd_def)
  have mem: "key \<in> set (map fst (filter (\<lambda>h. fst h \<noteq> c) hs)) \<longleftrightarrow> key \<in> set (map fst hs) \<and> key \<noteq> c" by auto
  have s: "set_header name v xs = (if key \<in> set (map fst xs) then map upd xs else xs @ [(key, v)])" for xs
    by (simp add: set_header_def key_def upd_def Let_def)
  show ?thesis unfolding s mem key_def [symmetric] using f same by (cases "key = c") (simp_all del: set_map)
qed

lemma seen_set_headers:
  "seen_headers hs = seen_headers hs' \<Longrightarrow> seen_headers (set_headers extra hs) = seen_headers (set_headers extra hs')"
proof (induction extra arbitrary: hs hs')
  case (Cons h extra)
  obtain name v where h: "h = (name, v)" by (rule prod.exhaust)
  have "seen_headers (set_header name v hs) = seen_headers (set_header name v hs')"
    using Cons.prems unfolding seen_headers_def filter_set_header by simp
  from Cons.IH [OF this] show ?case by (simp add: set_headers_def h)
qed simp

lemma seen_json_headers:
  "seen_headers (set_headers extra [(''content-type'', ''application/json'')]) = seen_headers (set_headers extra [])"
  by (rule seen_set_headers) (simp add: seen_headers_def)

lemma seen_json_content: "seen_headers [(''content-type'', ''application/json'')] = []"
  by (simp add: seen_headers_def)

interpretation express: paywall_adapter express_run express_request_of
  by unfold_locales (auto simp: express_run_def expressPaywall_def express_request_of_def
      split: prod.splits sum.splits gate_outcome.splits)

interpretation fastify: paywall_adapter fastify_run fastify_request_of
  by unfold_locales (auto simp: fastify_run_def fastifyPaywall_def fastify_request_of_def
      split: prod.splits sum.splits gate_outcome.splits)

interpretation hono: paywall_adapter "hono_run parse_url" "web_tollway_request parse_url" for parse_url
  by unfold_locales (auto simp: hono_run_def honoPaywall_def split: prod.splits sum.splits gate_outcome.splits)

interpretation next_js: paywall_adapter "next_run parse_url" "web_tollway_request parse_url" for parse_url
  by unfold_locales (auto simp: next_run_def withPaywall_def next_probe_def withMergedHeaders_def jsonResponse_def
    seen_json_headers seen_json_content split: prod.splits sum.splits gate_outcome.splits)

subsection \<open>Properties\<close>

definition adapter_contract :: "'w gate_fn \<Rightarrow> tollway_request result \<Rightarrow> 'w \<Rightarrow> adapter_result \<times> 'w" where
  "adapter_contract g q w =
     (case q of
        Inl e \<Rightarrow> (Threw e, w)
      | Inr q \<Rightarrow> (case g q w of (Inl e, w1) \<Rightarrow> (Threw e, w1) | (Inr outcome, w1) \<Rightarrow> (translate outcome, w1)))"

text \<open>C24. The four adapters are one: for every gate, each of them asks the gate once with its framework's
  request and turns the outcome, or the error, into the same answer, headers and receipt.\<close>

theorem adapters_keep_one_contract:
  "express_run g a w = adapter_contract g (express_request_of a) w \<and>
   fastify_run g b w = adapter_contract g (fastify_request_of b) w \<and>
   hono_run parse_url g c w = adapter_contract g (web_tollway_request parse_url c) w \<and>
   next_run parse_url g c w = adapter_contract g (web_tollway_request parse_url c) w"
  unfolding adapter_contract_def
  by (intro conjI) (rule express.translates, rule fastify.translates, rule hono.translates, rule next_js.translates)

text \<open>C15. Behind every adapter a route runs only for a paid request: when a request passes on to the route, it
  carries a receipt, and that receipt is for the offer the gate serves to this very request.\<close>

theorem route_needs_matching_receipt:
  assumes "express_run (gate ctx inFlight deps config) a w = (Passed hs rcpt, w') \<and> request = express_request_of a \<or>
    fastify_run (gate ctx inFlight deps config) b w = (Passed hs rcpt, w') \<and> request = fastify_request_of b \<or>
    hono_run parse_url (gate ctx inFlight deps config) c w = (Passed hs rcpt, w') \<and> request = web_tollway_request parse_url c \<or>
    next_run parse_url (gate ctx inFlight deps config) c w = (Passed hs rcpt, w') \<and> request = web_tollway_request parse_url c"
  shows "\<exists>q r m. request = Inr q \<and> rcpt = Some r \<and> matches (receipt r) (offer_of_config config q) m"
  using assms
proof (elim disjE conjE)
  assume "express_run (gate ctx inFlight deps config) a w = (Passed hs rcpt, w')" "request = express_request_of a"
  then show ?thesis using express.passed_matches by metis
next
  assume "fastify_run (gate ctx inFlight deps config) b w = (Passed hs rcpt, w')" "request = fastify_request_of b"
  then show ?thesis using fastify.passed_matches by metis
next
  assume "hono_run parse_url (gate ctx inFlight deps config) c w = (Passed hs rcpt, w')" "request = web_tollway_request parse_url c"
  then show ?thesis using hono.passed_matches by metis
next
  assume "next_run parse_url (gate ctx inFlight deps config) c w = (Passed hs rcpt, w')" "request = web_tollway_request parse_url c"
  then show ?thesis using next_js.passed_matches by metis
qed

theorem route_needs_matching_receipt_witness:
  "\<exists>hs rcpt w' r m. express_run (gate (sample_ctx (createInMemorySettlementCache 30000)) Map.empty (sample_deps createMockFacilitator) sample_config)
      \<lparr>ex_method = rq_method sample_request, ex_originalUrl = rq_url sample_request, ex_headers = rq_headers sample_request\<rparr>
      sample_world = (Passed hs rcpt, w') \<and> rcpt = Some r \<and> matches (receipt r) x402_offer m"
proof -
  let ?g = "gate (sample_ctx (createInMemorySettlementCache 30000)) Map.empty (sample_deps createMockFacilitator) sample_config"
  let ?a = "\<lparr>ex_method = rq_method sample_request, ex_originalUrl = rq_url sample_request, ex_headers = rq_headers sample_request\<rparr>"
  obtain r w' where "settleWithHandler (sample_ctx (createInMemorySettlementCache 30000)) Map.empty createMockFacilitator
      (X402Payment ''sig'') x402_offer X402 sample_world = (Inr (settled_with r False None), w')"
    by (rule sample_settles)
  then have g: "?g sample_request sample_world = (Inr (settled_with r False None), w')" by (simp only: sample_gate)
  have q: "express_request_of ?a = Inr sample_request" by (simp add: express_request_of_def)
  have run: "express_run ?g ?a sample_world = (Passed (seen_headers (set_headers (settled_headers (settled_with r False None)) [])) (Some r), w')"
    unfolding express.translates q by (simp add: g settled_with_def)
  from route_needs_matching_receipt [OF disjI1, OF conjI [OF run refl]] q
  obtain m where "matches (receipt r) x402_offer m" by (auto simp: sample_offer_of_config)
  with run show ?thesis by (intro exI conjI) (rule refl | assumption)+
qed

end
