(* ===== verification/DemoConfig.thy ===== *)
theory DemoConfig
  imports Domain
begin

text \<open>
  The demo's configuration, \<open>apps/demo/src/config.ts\<close>: the environment is turned into a configuration or
  into the list of everything that is wrong with it. The address checks and the two asset addresses come
  from the Stellar packages and are arguments.
\<close>

type_synonym demo_env = "string \<Rightarrow> string option"

record live_config =
  live_network :: stellar_network
  live_facilitatorUrl :: string
  live_apiKey :: string
  live_asset :: string
  live_recipient :: string
  live_payerSecret :: string
  live_rpcUrl :: "string option"

datatype demo_config = Mock_mode | Live_mode live_config

record stellar_sdk =
  isValidEd25519PublicKey :: "string \<Rightarrow> bool"
  isValidEd25519SecretSeed :: "string \<Rightarrow> bool"
  USDC_ADDRESSES :: "stellar_network \<Rightarrow> string"

definition DemoConfigError_message :: "string list \<Rightarrow> string" where
  "DemoConfigError_message problems =
     ''demo configuration is incomplete:'' @ [CHR 0x0A] @ join_with [CHR 0x0A] (map (\<lambda>p. ''  - '' @ p) problems)"

fun FACILITATOR_URLS :: "stellar_network \<Rightarrow> string" where
  "FACILITATOR_URLS Testnet = ''https://channels.openzeppelin.com/x402/testnet''"
| "FACILITATOR_URLS Mainnet = ''https://channels.openzeppelin.com/x402''"

definition isStellarNetwork :: "string \<Rightarrow> stellar_network option" where
  "isStellarNetwork v = (if v = ''testnet'' then Some Testnet else if v = ''mainnet'' then Some Mainnet else None)"

text \<open>\<open>env.X ?? d\<close>, and \<open>env.X || d\<close> where an empty string counts as missing.\<close>

definition env_or :: "demo_env \<Rightarrow> string \<Rightarrow> string \<Rightarrow> string" where
  "env_or env name d = (case env name of None \<Rightarrow> d | Some v \<Rightarrow> v)"

definition env_set :: "demo_env \<Rightarrow> string \<Rightarrow> string option" where
  "env_set env name = (case env name of None \<Rightarrow> None | Some [] \<Rightarrow> None | Some v \<Rightarrow> Some v)"

definition network_problems :: "demo_env \<Rightarrow> string list" where
  "network_problems env =
     (let networkValue = env_or env ''STELLAR_NETWORK'' ''testnet''
      in if isStellarNetwork networkValue = None
         then [''STELLAR_NETWORK must be \"testnet\" or \"mainnet\", got \"'' @ networkValue @ ''\"''] else [])"

definition demo_network :: "demo_env \<Rightarrow> stellar_network" where
  "demo_network env = (case isStellarNetwork (env_or env ''STELLAR_NETWORK'' ''testnet'') of Some n \<Rightarrow> n | None \<Rightarrow> Testnet)"

definition key_problems :: "(string \<Rightarrow> bool) \<Rightarrow> string \<Rightarrow> string \<Rightarrow> string \<Rightarrow> string list" where
  "key_problems valid unset malformed v = (if v = [] then [unset] else if \<not> valid v then [malformed] else [])"

definition demo_problems :: "stellar_sdk \<Rightarrow> demo_env \<Rightarrow> string list" where
  "demo_problems sdk env =
     network_problems env @
     (if env_or env ''OZ_API_KEY'' [] = []
      then [''OZ_API_KEY is not set. Generate a testnet key at https://channels.openzeppelin.com/testnet/gen''] else []) @
     key_problems (isValidEd25519PublicKey sdk)
       ''STELLAR_RECIPIENT is not set. It is the G... account that receives the payment''
       ''STELLAR_RECIPIENT is not a valid Stellar account id (G...)'' (env_or env ''STELLAR_RECIPIENT'' []) @
     key_problems (isValidEd25519SecretSeed sdk)
       ''STELLAR_SECRET_KEY is not set. It is the S... secret of a testnet account holding USDC''
       ''STELLAR_SECRET_KEY is not a valid Stellar secret seed (S...)'' (env_or env ''STELLAR_SECRET_KEY'' []) @
     (if demo_network env = Mainnet \<and> env_set env ''STELLAR_RPC_URL'' = None
      then [''STELLAR_RPC_URL is required on mainnet; @x402/stellar has no mainnet default''] else [])"

definition resolveDemoConfig :: "stellar_sdk \<Rightarrow> demo_env \<Rightarrow> string list + demo_config" where
  "resolveDemoConfig sdk env =
     (if env ''MOCK_MODE'' = Some ''true'' then Inr Mock_mode
      else
        let problems = demo_problems sdk env; network = demo_network env
        in if problems \<noteq> [] then Inl problems
           else Inr (Live_mode
             \<lparr>live_network = network,
              live_facilitatorUrl = (case env_set env ''FACILITATOR_URL'' of Some u \<Rightarrow> u | None \<Rightarrow> FACILITATOR_URLS network),
              live_apiKey = env_or env ''OZ_API_KEY'' [], live_asset = USDC_ADDRESSES sdk network,
              live_recipient = env_or env ''STELLAR_RECIPIENT'' [], live_payerSecret = env_or env ''STELLAR_SECRET_KEY'' [],
              live_rpcUrl = env_set env ''STELLAR_RPC_URL''\<rparr>))"

subsection \<open>What a configuration guarantees\<close>

definition live_ok :: "stellar_sdk \<Rightarrow> live_config \<Rightarrow> bool" where
  "live_ok sdk c \<longleftrightarrow>
     live_apiKey c \<noteq> [] \<and> isValidEd25519PublicKey sdk (live_recipient c) \<and> isValidEd25519SecretSeed sdk (live_payerSecret c) \<and>
     live_asset c = USDC_ADDRESSES sdk (live_network c) \<and> live_facilitatorUrl c \<noteq> [] \<and> live_rpcUrl c \<noteq> Some [] \<and>
     (live_network c = Mainnet \<longrightarrow> live_rpcUrl c \<noteq> None)"

lemma env_set_not_Nil: "env_set env name \<noteq> Some []"
  by (auto simp: env_set_def split: option.splits list.splits)

lemma facilitator_url_not_Nil: "FACILITATOR_URLS n \<noteq> []"
  by (cases n) simp_all

lemma key_problems_Nil: "key_problems valid unset malformed v = [] \<longleftrightarrow> v \<noteq> [] \<and> valid v"
  by (simp add: key_problems_def)

lemma resolved_live_ok:
  assumes "resolveDemoConfig sdk env = Inr (Live_mode c)"
  shows "live_ok sdk c" and "demo_problems sdk env = []"
proof -
  from assms show none: "demo_problems sdk env = []" by (auto simp: resolveDemoConfig_def Let_def split: if_splits)
  then have p: "env_or env ''OZ_API_KEY'' [] \<noteq> []"
    "isValidEd25519PublicKey sdk (env_or env ''STELLAR_RECIPIENT'' [])"
    "isValidEd25519SecretSeed sdk (env_or env ''STELLAR_SECRET_KEY'' [])"
    "demo_network env = Mainnet \<Longrightarrow> env_set env ''STELLAR_RPC_URL'' \<noteq> None"
    by (auto simp: demo_problems_def key_problems_Nil split: if_splits)
  from assms p show "live_ok sdk c"
    by (auto simp: resolveDemoConfig_def live_ok_def Let_def env_set_not_Nil facilitator_url_not_Nil
        split: if_splits option.splits)
qed

subsection \<open>Property\<close>

text \<open>C38. The environment is resolved to a usable configuration or to a list of problems, never to a partial
  one: mock mode exactly when it is asked for; otherwise a live configuration with a key, a facilitator,
  valid account and seed, the asset of its network and, on mainnet, an RPC server, or a non-empty list of
  problems.\<close>

theorem demo_config_is_usable:
  "case resolveDemoConfig sdk env of
     Inr Mock_mode \<Rightarrow> env ''MOCK_MODE'' = Some ''true''
   | Inr (Live_mode c) \<Rightarrow> env ''MOCK_MODE'' \<noteq> Some ''true'' \<and> live_ok sdk c
   | Inl problems \<Rightarrow> env ''MOCK_MODE'' \<noteq> Some ''true'' \<and> problems \<noteq> []"
proof (cases "resolveDemoConfig sdk env")
  case (Inl problems)
  then show ?thesis by (auto simp: resolveDemoConfig_def Let_def split: if_splits)
next
  case (Inr config)
  show ?thesis
  proof (cases config)
    case Mock_mode
    with Inr show ?thesis by (auto simp: resolveDemoConfig_def Let_def split: if_splits)
  next
    case (Live_mode c)
    have "env ''MOCK_MODE'' \<noteq> Some ''true''"
      using Inr Live_mode by (auto simp: resolveDemoConfig_def Let_def split: if_splits)
    with resolved_live_ok(1) [of sdk env c] Inr Live_mode show ?thesis by simp
  qed
qed

end
