(* ===== verification/Demo.thy ===== *)
theory Demo
  imports Adapters DemoConfig
begin

text \<open>
  The demo, \<open>apps/demo/src/demo.ts\<close>: an Express service behind a paywall, and an agent that asks, pays what
  the challenge says, asks again and verifies the receipt. It composes the configuration, the adapter,
  the gate, a facilitator, the cache, the signer and the verifier.

  The local HTTP connection is modelled by what the two ends see: the request's URL and headers, and the
  response's status, headers and body. Express answers an error passed to \<open>next\<close> with status 500. The x402
  packages (network identifiers, HTTP client, payment scheme), the key generator, WebCrypto, \<open>TextDecoder\<close>,
  \<open>JSON.parse\<close> and the schema are arguments.
\<close>

subsection \<open>The service\<close>

definition DEMO_AMOUNT :: string where
  "DEMO_AMOUNT = ''10000''"

record demo_paywall =
  dp_asset :: string
  dp_payTo :: string
  dp_network :: stellar_network

definition MOCK_PAYWALL :: demo_paywall where
  "MOCK_PAYWALL =
     \<lparr>dp_asset = ''USDC:GA5ZSEJYB37JRC5AVCIA5MOP4RHTM335X2KGX3IHOJAPP5RE34K4KZVN'',
      dp_payTo = ''GSERVICEXXXXXXXXXXXXXXXXXXXXXXXXXXXXXXXXXXXXXXXXXXXXXXX'', dp_network = Testnet\<rparr>"

definition demo_paywall_config :: "demo_paywall \<Rightarrow> paywall_config" where
  "demo_paywall_config p =
     \<lparr>pw_amount = DEMO_AMOUNT, pw_asset = dp_asset p, pw_payTo = dp_payTo p, pw_network = dp_network p,
      pw_models = Some [X402], pw_resource = None, pw_facilitatorUrl = None\<rparr>"

type_synonym 'h demo_world = "mem_cache \<times> 'h"

text \<open>The environment of a run: the schema's messages and checks, clock and identifiers, keys and codecs.\<close>

record ('k, 'h) demo_platform =
  pf_zmsg :: "zod_check \<Rightarrow> string"
  pf_is_datetime :: "string \<Rightarrow> bool"
  pf_uuid :: "'h demo_world \<Rightarrow> string"
  pf_now :: "'h demo_world \<Rightarrow> string"
  pf_generateKey :: "byte list \<times> 'k"
  pf_subtle_sign :: "'k \<Rightarrow> byte list \<Rightarrow> byte list result"
  pf_subtle_verify :: "byte list \<Rightarrow> byte list \<Rightarrow> byte list \<Rightarrow> bool result"
  pf_text_decode :: "byte list \<Rightarrow> string"
  pf_json_parse :: "string \<Rightarrow> json result"
  pf_safeParse :: "json \<Rightarrow> issue list + signed_receipt"
  pf_agent_headers :: "(string \<times> header_value) list"

definition demo_signer :: "('k, 'h) demo_platform \<Rightarrow> 'k ed25519_signer" where
  "demo_signer pf = ed25519_generate (pf_generateKey pf) (Some ''tollway-demo'')"

definition demo_context :: "('k, 'h) demo_platform \<Rightarrow> 'h demo_world settlement_context" where
  "demo_context pf =
     \<lparr>ctx_signer = ed25519_signer_of (pf_subtle_sign pf) (demo_signer pf),
      ctx_cache = Some (createInMemorySettlementCache 30000), ctx_onCacheError = None, ctx_zmsg = pf_zmsg pf,
      ctx_is_datetime = pf_is_datetime pf, ctx_uuid = pf_uuid pf, ctx_now = pf_now pf\<rparr>"

definition demo_gate :: "('k, 'h) demo_platform \<Rightarrow> 'h demo_world handler \<Rightarrow> demo_paywall \<Rightarrow> 'h demo_world gate_fn" where
  "demo_gate pf facilitator p =
     gate (demo_context pf) Map.empty
       \<lparr>dep_facilitator = facilitator, dep_mppChargeHandler = None, dep_router = None\<rparr> (demo_paywall_config p)"

record service_response =
  sv_status :: nat
  sv_headers :: header_list
  sv_text :: string

definition quote_json :: json where
  "quote_json = JObj [(''symbol'', Some (JStr ''XLM/USD'')), (''price'', Some (JStr ''0.1234''))]"

definition quote_service ::
  "'w gate_fn \<Rightarrow> (string \<times> header_value) list \<Rightarrow> 'w \<Rightarrow> service_response \<times> 'w" where
  "quote_service serve headers w =
     (case expressPaywall serve \<lparr>ex_method = ''GET'', ex_originalUrl = ''/quotes/latest'', ex_headers = headers\<rparr>
         \<lparr>ex_status = 200, ex_set = [], ex_locals = None, ex_json = None\<rparr> w of
        ((Next_called, res), w1) \<Rightarrow>
          (\<lparr>sv_status = ex_status res, sv_headers = ex_set res, sv_text = json_stringify quote_json\<rparr>, w1)
      | ((Next_called_with e, res), w1) \<Rightarrow> (\<lparr>sv_status = 500, sv_headers = ex_set res, sv_text = error_message e\<rparr>, w1)
      | ((Response_sent, res), w1) \<Rightarrow>
          (\<lparr>sv_status = ex_status res, sv_headers = ex_set res, sv_text = json_stringify (the (ex_json res))\<rparr>, w1))"

definition response_header :: "string \<Rightarrow> service_response \<Rightarrow> string" where
  "response_header name response = or_default (map_of (sv_headers response) (map to_lower name)) []"

subsection \<open>The agent\<close>

text \<open>A property of a decoded value, \<open>None\<close> unless it is a string.\<close>

definition json_text :: "string \<Rightarrow> json \<Rightarrow> string option" where
  "json_text name j =
     (case j of JObj fs \<Rightarrow> (case map_of fs name of Some (Some (JStr s)) \<Rightarrow> Some s | _ \<Rightarrow> None) | _ \<Rightarrow> None)"

record demo_requirements =
  dr_scheme :: string
  dr_network :: string
  dr_asset :: "string option"
  dr_amount :: "string option"
  dr_payTo :: "string option"
  dr_maxTimeoutSeconds :: int
  dr_extra :: "(string \<times> json option) list"

definition X402_VERSION :: int where
  "X402_VERSION = 2"

definition MAX_TIMEOUT_SECONDS :: int where
  "MAX_TIMEOUT_SECONDS = 60"

definition SPONSORED_FEES :: "(string \<times> json option) list" where
  "SPONSORED_FEES = [(''areFeesSponsored'', Some (JBool True))]"

text \<open>An absent network prints as \<open>undefined\<close>.\<close>

definition demo_toRequirements :: "(stellar_network \<Rightarrow> string) \<Rightarrow> json \<Rightarrow> demo_requirements result" where
  "demo_toRequirements caip2 offer =
     (case Option.bind (json_text ''network'' offer) isStellarNetwork of
        None \<Rightarrow> Inl (PlatformError ''Error''
          (''challenge names an unknown network \"'' @ or_default (json_text ''network'' offer) ''undefined'' @ ''\"''))
      | Some network \<Rightarrow> Inr
          \<lparr>dr_scheme = ''exact'', dr_network = caip2 network, dr_asset = json_text ''asset'' offer,
           dr_amount = json_text ''amount'' offer, dr_payTo = json_text ''payTo'' offer,
           dr_maxTimeoutSeconds = MAX_TIMEOUT_SECONDS, dr_extra = SPONSORED_FEES\<rparr>)"

type_synonym 'w demo_payer = "demo_requirements \<Rightarrow> 'w \<Rightarrow> string result \<times> 'w"

definition mockPayer :: "'w demo_payer" where
  "mockPayer requirements w = (Inr ''mock-signed-auth-entry'', w)"

text \<open>The x402 packages of the live mode: the network identifiers, the protocol version and SHA-256 the HTTP
  facilitator uses, its client for an address and an \<open>Authorization\<close> header, and the exact payment scheme for a
  seed, a network and an RPC server, whose payload has a transaction or not.\<close>

type_synonym 'w payment_scheme = "int \<Rightarrow> demo_requirements \<Rightarrow> 'w \<Rightarrow> string option result \<times> 'w"

record 'w x402_packages =
  xp_caip2 :: "stellar_network \<Rightarrow> string"
  xp_version :: int
  xp_sha256 :: "byte list \<Rightarrow> byte list result"
  xp_client :: "string \<Rightarrow> string \<Rightarrow> 'w http_client"
  xp_scheme :: "string \<Rightarrow> string \<Rightarrow> string option \<Rightarrow> 'w payment_scheme result"

definition createStellarPayer :: "'w x402_packages \<Rightarrow> live_config \<Rightarrow> 'w demo_payer result" where
  "createStellarPayer x402 config =
     (case xp_scheme x402 (live_payerSecret config) (xp_caip2 x402 (live_network config)) (live_rpcUrl config) of
        Inl e \<Rightarrow> Inl e
      | Inr createPaymentPayload \<Rightarrow> Inr (\<lambda>requirements w.
          (case createPaymentPayload X402_VERSION requirements w of
             (Inl e, w') \<Rightarrow> (Inl e, w')
           | (Inr None, w') \<Rightarrow>
               (Inl (PlatformError ''Error'' ''@x402/stellar returned a payment payload without a transaction''), w')
           | (Inr (Some transaction), w') \<Rightarrow> (Inr transaction, w'))))"

record 'w demo_setup =
  su_mock :: bool
  su_facilitator :: "'w handler"
  su_paywall :: demo_paywall
  su_payer :: "'w demo_payer"

datatype demo_error = Demo_config_error "string list" | Demo_error js_error

definition live_facilitator :: "'w x402_packages \<Rightarrow> live_config \<Rightarrow> 'w handler" where
  "live_facilitator x402 config =
     createHttpFacilitator (\<lambda>network. Some (xp_caip2 x402 network)) (xp_version x402) (xp_sha256 x402)
       (xp_client x402 (live_facilitatorUrl config) (''Bearer '' @ live_apiKey config))
       \<lparr>opt_maxTimeoutSeconds = Some MAX_TIMEOUT_SECONDS, opt_extra = Some SPONSORED_FEES\<rparr>"

definition setUp ::
  "stellar_sdk \<Rightarrow> 'w x402_packages \<Rightarrow> demo_env \<Rightarrow> 'w demo_payer option \<Rightarrow> demo_error + 'w demo_setup" where
  "setUp sdk x402 env payer =
     (case resolveDemoConfig sdk env of
        Inl problems \<Rightarrow> Inl (Demo_config_error problems)
      | Inr Mock_mode \<Rightarrow> Inr
          \<lparr>su_mock = True, su_facilitator = createMockFacilitator, su_paywall = MOCK_PAYWALL,
           su_payer = or_default payer mockPayer\<rparr>
      | Inr (Live_mode config) \<Rightarrow>
          map_sum Demo_error (\<lambda>chosen.
            \<lparr>su_mock = False, su_facilitator = live_facilitator x402 config,
             su_paywall = \<lparr>dp_asset = live_asset config, dp_payTo = live_recipient config, dp_network = live_network config\<rparr>,
             su_payer = chosen\<rparr>)
            (case payer of Some given \<Rightarrow> Inr given | None \<Rightarrow> createStellarPayer x402 config))"

record demo_result =
  demo_mock :: bool
  demo_amount :: "string option"
  demo_asset :: "string option"
  demo_resource :: "string option"
  demo_receipt :: json
  demo_receiptValid :: bool

text \<open>The body of the \<open>try\<close> block.\<close>

definition demo_rounds ::
  "('k, 'h) demo_platform \<Rightarrow> (stellar_network \<Rightarrow> string) \<Rightarrow> 'h demo_world demo_setup \<Rightarrow> 'h demo_world \<Rightarrow>
   demo_result result \<times> 'h demo_world" where
  "demo_rounds pf caip2 su w =
     (let serve = demo_gate pf (su_facilitator su) (su_paywall su);
          decode = (\<lambda>response name. decodeHeader (pf_text_decode pf) (pf_json_parse pf) (response_header name response))
      in case quote_service serve (pf_agent_headers pf) w of
           (challenged, w1) \<Rightarrow>
             if sv_status challenged \<noteq> 402
             then (Inl (PlatformError ''Error'' (''expected 402, got '' @ nat_toString (sv_status challenged))), w1)
             else
               (case decode challenged PAYMENT_REQUIRED_HEADER of
                  Inl e \<Rightarrow> (Inl e, w1)
                | Inr asked \<Rightarrow>
                    (case demo_toRequirements caip2 asked of
                       Inl e \<Rightarrow> (Inl e, w1)
                     | Inr requirements \<Rightarrow>
                         (case su_payer su requirements w1 of
                            (Inl e, w2) \<Rightarrow> (Inl e, w2)
                          | (Inr auth, w2) \<Rightarrow>
                              (case quote_service serve
                                  (pf_agent_headers pf @ [(PAYMENT_SIGNATURE_HEADER, Header_single auth)]) w2 of
                                 (paid, w3) \<Rightarrow>
                                   if sv_status paid \<noteq> 200
                                   then (Inl (PlatformError ''Error'' (''expected 200 after payment, got '' @
                                          nat_toString (sv_status paid) @ '': '' @ sv_text paid)), w3)
                                   else
                                     (case decode paid PAYMENT_RESPONSE_HEADER of
                                        Inl e \<Rightarrow> (Inl e, w3)
                                      | Inr received \<Rightarrow>
                                          (case forSigner (demo_signer pf) of
                                             Inl e \<Rightarrow> (Inl e, w3)
                                           | Inr keys \<Rightarrow>
                                               (case verifyReceipt (pf_safeParse pf) received
                                                   (ed25519_verify (pf_subtle_verify pf) keys) of
                                                  Inl e \<Rightarrow> (Inl e, w3)
                                                | Inr verification \<Rightarrow> (Inr
                                                    \<lparr>demo_mock = su_mock su, demo_amount = json_text ''amount'' asked,
                                                     demo_asset = json_text ''asset'' asked,
                                                     demo_resource = json_text ''resource'' asked,
                                                     demo_receipt = received,
                                                     demo_receiptValid = (verification = Valid)\<rparr>, w3)))))))))"

text \<open>Every run has a cache of its own.\<close>

definition runDemo ::
  "stellar_sdk \<Rightarrow> 'h demo_world x402_packages \<Rightarrow> ('k, 'h) demo_platform \<Rightarrow> demo_env \<Rightarrow>
   'h demo_world demo_payer option \<Rightarrow> int \<Rightarrow> 'h \<Rightarrow> demo_error + demo_result" where
  "runDemo sdk x402 pf env payer clock h =
     (case setUp sdk x402 env payer of
        Inl e \<Rightarrow> Inl e
      | Inr su \<Rightarrow> map_sum Demo_error id
          (fst (demo_rounds pf (xp_caip2 x402) su (\<lparr>cache_entries = Map.empty, cache_clock = clock\<rparr>, h))))"

end
