(* ===== verification/DemoProofs.thy ===== *)
theory DemoProofs
  imports Demo
begin

text \<open>
  The demo in mock mode, end to end: the challenge, the payment, the receipt and its verification.
\<close>

subsection \<open>Transport\<close>

text \<open>Values that \<open>JSON.parse\<close> reads back from their text: safe integers, distinct names.\<close>

primrec json_data :: "json \<Rightarrow> bool" where
  "json_data JNull \<longleftrightarrow> True"
| "json_data (JBool b) \<longleftrightarrow> True"
| "json_data (JInt i) \<longleftrightarrow> \<bar>i\<bar> \<le> 2 ^ 53 - 1"
| "json_data (JNonFinite name) \<longleftrightarrow> False"
| "json_data (JStr s) \<longleftrightarrow> True"
| "json_data (JArr vs) \<longleftrightarrow> list_all id (map json_data vs)"
| "json_data (JObj fs) \<longleftrightarrow>
     distinct (map fst fs) \<and> list_all (\<lambda>f. snd f = Some True) (map (map_prod id (map_option json_data)) fs)"

lemma issued_json_data:
  assumes "issue_receipt ctx offer m payer tx w = Inr r"
  shows "json_data (signed_json r)"
proof -
  from assms have "body_version (receipt r) = 1 \<and> body_settlement (receipt r) = Transaction_ref tx"
    by (auto simp: issue_receipt_def buildReceipt_def signReceipt_def body_of_input_def receipt_input_def or_default_def
        Let_def split: sum.splits if_splits list.splits)
  then show ?thesis by (simp add: signed_json_def body_json_def)
qed

definition plain_offer :: "payment_offer \<Rightarrow> json" where
  "plain_offer offer = JObj
     ([(''resource'', Some (JStr (offer_resource offer))), (''amount'', Some (JStr (offer_amount offer))),
       (''asset'', Some (JStr (offer_asset offer))), (''payTo'', Some (JStr (offer_payTo offer))),
       (''network'', Some (JStr (network_str (offer_network offer)))),
       (''models'', Some (JArr (map (JStr \<circ> model_str) (offer_models offer))))])"

lemma offer_json_data: "json_data (plain_offer offer)"
  by (simp add: plain_offer_def list_all_iff)

lemma stringify_offer:
  "offer_facilitatorUrl offer = None \<Longrightarrow> json_stringify (offer_json offer) = json_stringify (plain_offer offer)"
  by (simp add: offer_json_def plain_offer_def present_def)

lemma header_sent: "response_header name \<lparr>sv_status = s, sv_headers = set_headers [(name, v)] [], sv_text = t\<rparr> = v"
  by (simp add: response_header_def set_headers_def set_header_def or_default_def)

lemma readHeader_append:
  "\<forall>h\<in>set hs. map to_lower (fst h) \<noteq> map to_lower name \<Longrightarrow> readHeader (hs @ [(name, Header_single v)]) name = Some v"
  "\<forall>h\<in>set hs. map to_lower (fst h) \<noteq> map to_lower name \<Longrightarrow> readHeader hs name = None"
  by (induction hs name rule: readHeader.induct) simp_all

subsection \<open>The platform\<close>

definition codecs_ok :: "('k, 'h) demo_platform \<Rightarrow> bool" where
  "codecs_ok pf \<longleftrightarrow> (\<forall>s. pf_text_decode pf (utf8Bytes s) = s) \<and>
     (\<forall>v. json_data v \<longrightarrow> pf_json_parse pf (json_stringify v) = Inr v) \<and>
     (\<forall>r. pf_safeParse pf (signed_json r) =
        (if signed_issues (pf_zmsg pf) (pf_is_datetime pf) r = [] then Inr r
         else Inl (signed_issues (pf_zmsg pf) (pf_is_datetime pf) r)))"

definition keys_ok :: "('k, 'h) demo_platform \<Rightarrow> bool" where
  "keys_ok pf \<longleftrightarrow> (\<forall>m. \<exists>g. pf_subtle_sign pf (snd (pf_generateKey pf)) m = Inr g \<and> g \<noteq> [] \<and>
     pf_subtle_verify pf (fst (pf_generateKey pf)) g m = Inr True)"

definition clock_ok :: "('k, 'h) demo_platform \<Rightarrow> bool" where
  "clock_ok pf \<longleftrightarrow> (\<forall>w. pf_is_datetime pf (pf_now pf w) \<and> pf_uuid pf w \<noteq> [])"

definition unpaid_headers :: "('k, 'h) demo_platform \<Rightarrow> bool" where
  "unpaid_headers pf \<longleftrightarrow> (\<forall>h\<in>set (pf_agent_headers pf). map to_lower (fst h) \<noteq> map to_lower PAYMENT_SIGNATURE_HEADER)"

definition platform_ok :: "('k, 'h) demo_platform \<Rightarrow> bool" where
  "platform_ok pf \<longleftrightarrow> codecs_ok pf \<and> keys_ok pf \<and> clock_ok pf \<and> unpaid_headers pf"

subsection \<open>The two rounds\<close>

definition demo_offer :: payment_offer where
  "demo_offer =
     \<lparr>offer_resource = ''/quotes/latest'', offer_amount = DEMO_AMOUNT, offer_asset = dp_asset MOCK_PAYWALL,
      offer_payTo = dp_payTo MOCK_PAYWALL, offer_network = Testnet, offer_models = [X402],
      offer_mppSessionSupported = None, offer_facilitatorUrl = None\<rparr>"

lemma demo_offer_of_config:
  "rq_url q = ''/quotes/latest'' \<Longrightarrow> offer_of_config (demo_paywall_config MOCK_PAYWALL) q = demo_offer"
  by (simp add: offer_of_config_def demo_paywall_config_def demo_offer_def MOCK_PAYWALL_def or_default_def)

lemma demo_challenge:
  assumes "unpaid_headers pf"
  shows "quote_service (demo_gate pf createMockFacilitator MOCK_PAYWALL) (pf_agent_headers pf) w =
    (\<lparr>sv_status = 402, sv_headers = set_headers [(PAYMENT_REQUIRED_HEADER, encodeHeader (offer_json demo_offer))] [],
      sv_text = json_stringify (offer_json demo_offer)\<rparr>, w)"
proof -
  have "readHeader (pf_agent_headers pf) PAYMENT_SIGNATURE_HEADER = None"
    by (rule readHeader_append(2)) (use assms in \<open>simp add: unpaid_headers_def\<close>)
  then show ?thesis
    by (simp add: quote_service_def expressPaywall_def demo_gate_def gate_def demo_offer_of_config)
qed

lemma demo_issue:
  assumes "keys_ok pf" "clock_ok pf" "payer \<noteq> []" "tx \<noteq> []"
  shows "\<exists>r. issue_receipt (demo_context pf) demo_offer X402 payer tx w = Inr r"
proof -
  let ?b = "body_of_input (pf_uuid pf w) (pf_now pf w) (receipt_input demo_offer X402 payer tx)"
  obtain m where m: "canonicalBytes (body_json ?b) = Inr m" using body_bytes_Inr by blast
  obtain g where g: "pf_subtle_sign pf (snd (pf_generateKey pf)) m = Inr g" using assms(1) unfolding keys_ok_def by blast
  have clock: "pf_is_datetime pf (pf_now pf w) \<and> pf_uuid pf w \<noteq> []" using assms(2) unfolding clock_ok_def by blast
  have "well_formed (pf_is_datetime pf) ?b"
    using assms(3,4) clock
    by (simp add: well_formed_def body_of_input_def receipt_input_def demo_offer_def MOCK_PAYWALL_def DEMO_AMOUNT_def
        or_default_def AMOUNT_RE_def is_digit_def)
  then have "body_issues (pf_zmsg pf) (pf_is_datetime pf) ?b = []" by (simp add: body_issues_Nil)
  with m g show ?thesis
    by (simp add: issue_receipt_def demo_context_def buildReceipt_def signReceipt_def ed25519_signer_of_def demo_signer_def
        ed25519_generate_def Let_def)
qed

lemma demo_settles:
  assumes "keys_ok pf" "clock_ok pf" "sig \<noteq> []" and w: "w = (\<lparr>cache_entries = Map.empty, cache_clock = c\<rparr>, h)"
  shows "\<exists>r w' payer tx. issue_receipt (demo_context pf) demo_offer X402 payer tx w = Inr r \<and>
    settleWithHandler (demo_context pf) Map.empty createMockFacilitator (X402Payment sig) demo_offer X402 w =
      (Inr (settled_with r False None), w')"
proof -
  let ?c = "createInMemorySettlementCache 30000 :: (mem_cache \<times> 'b) settlement_cache"
  let ?n = "mockHex sig 32" and ?p = "mockAccount sig"
  let ?tx = "mockHex (?n @ '':'' @ ''/quotes/latest'') 64" and ?k = "settlement_key X402 ?n"
  have "?p \<noteq> []" "?tx \<noteq> []" by (simp_all add: mockAccount_def mockHex_not_Nil)
  from demo_issue [OF assms(1,2) this] obtain r where r: "issue_receipt (demo_context pf) demo_offer X402 ?p ?tx w = Inr r"
    by blast
  have m: "matches (receipt r) demo_offer X402" using issue_receipt_matches [OF r] by simp
  have c: "ctx_cache (demo_context pf) = Some ?c" by (simp add: demo_context_def)
  define w' where "w' = (memory_set 30000 ?k r (fst w), snd w)"
  have v: "h_verify createMockFacilitator (X402Payment sig) demo_offer w = (Inr (Verified ?p ?n), w)"
    using assms(3) by (simp add: createMockFacilitator_def mock_verify_def)
  have g: "cache_get ?c ?k w = (Inr None, w)" "cache_acquire ?c = None" "cache_set ?c ?k r w = (Inr (), w')"
    by (simp_all add: createInMemorySettlementCache_def memory_get_def w w'_def)
  have "h_settle createMockFacilitator (X402Payment sig) demo_offer ?p ?n w = (Inr (Settled ?tx), w)"
    by (simp add: createMockFacilitator_def mock_settle_def demo_offer_def)
  then have "settleAndRecord (demo_context pf) createMockFacilitator (X402Payment sig) demo_offer X402 ?p ?n ?k w =
      (Inr (Settlement_ok r False None), w')"
    by (simp only: settleAndRecord_def r record_settlement_def c g prod.case sum.case settle_result.case option.case)
  then have "settleWithHandler (demo_context pf) Map.empty createMockFacilitator (X402Payment sig) demo_offer X402 w =
      (Inr (settled_with r False None), w')"
    using m by (simp add: settleWithHandler_def v settleOnce_def c g toOutcome_simps)
  with r show ?thesis by blast
qed

lemma demo_payment:
  assumes "keys_ok pf" "clock_ok pf" "unpaid_headers pf" "sig \<noteq> []"
    and w: "w = (\<lparr>cache_entries = Map.empty, cache_clock = c\<rparr>, h)"
  shows "\<exists>r w' payer tx. issue_receipt (demo_context pf) demo_offer X402 payer tx w = Inr r \<and>
    quote_service (demo_gate pf createMockFacilitator MOCK_PAYWALL)
      (pf_agent_headers pf @ [(PAYMENT_SIGNATURE_HEADER, Header_single sig)]) w =
    (\<lparr>sv_status = 200, sv_headers = set_headers [(PAYMENT_RESPONSE_HEADER, encodeHeader (signed_json r))] [],
      sv_text = json_stringify quote_json\<rparr>, w')"
proof -
  have read: "readHeader (pf_agent_headers pf @ [(PAYMENT_SIGNATURE_HEADER, Header_single sig)]) PAYMENT_SIGNATURE_HEADER = Some sig"
    by (rule readHeader_append(1)) (use assms(3) in \<open>simp add: unpaid_headers_def\<close>)
  obtain c0 cs where sig: "sig = c0 # cs" using assms(4) by (cases sig) simp_all
  from demo_settles [OF assms(1,2,4) w] obtain r w' payer tx
    where r: "issue_receipt (demo_context pf) demo_offer X402 payer tx w = Inr r"
    and s: "settleWithHandler (demo_context pf) Map.empty createMockFacilitator (X402Payment sig) demo_offer X402 w =
      (Inr (settled_with r False None), w')" by blast
  have model: "gate_model None demo_offer = Inr (Some X402)" by (simp add: gate_model_def demo_offer_def)
  have g: "demo_gate pf createMockFacilitator MOCK_PAYWALL \<lparr>rq_method = ''GET'', rq_url = ''/quotes/latest'',
      rq_headers = pf_agent_headers pf @ [(PAYMENT_SIGNATURE_HEADER, Header_single sig)]\<rparr> w = (Inr (settled_with r False None), w')"
    using s [unfolded sig] by (simp add: demo_gate_def gate_def demo_offer_of_config read [unfolded sig] model sig)
  have "quote_service (demo_gate pf createMockFacilitator MOCK_PAYWALL)
      (pf_agent_headers pf @ [(PAYMENT_SIGNATURE_HEADER, Header_single sig)]) w =
    (\<lparr>sv_status = 200, sv_headers = set_headers [(PAYMENT_RESPONSE_HEADER, encodeHeader (signed_json r))] [],
      sv_text = json_stringify quote_json\<rparr>, w')"
    by (simp add: quote_service_def expressPaywall_def g settled_with_def)
  with r show ?thesis by blast
qed

lemma decode_sent:
  assumes "codecs_ok pf" "json_data v" "encodeHeader u = encodeHeader v"
  shows "decodeHeader (pf_text_decode pf) (pf_json_parse pf) (encodeHeader u) = Inr v"
  unfolding assms(3) by (rule decode_encode) (use assms in \<open>simp_all add: codecs_ok_def\<close>)

lemma demo_verifies:
  assumes "codecs_ok pf" "keys_ok pf" "issue_receipt (demo_context pf) offer m payer tx w = Inr r"
    and "forSigner (demo_signer pf) = Inr keys"
  shows "verifyReceipt (pf_safeParse pf) (signed_json r) (ed25519_verify (pf_subtle_verify pf) keys) = Inr Valid"
proof -
  from assms(3) obtain body where b: "signReceipt (pf_zmsg pf) (pf_is_datetime pf) body
      (ed25519_signer_of (pf_subtle_sign pf) (demo_signer pf)) = Inr r"
    by (auto simp: issue_receipt_def demo_context_def split: sum.splits)
  have k: "ed_privateKey (demo_signer pf) = snd (pf_generateKey pf)" "ed_publicKey (demo_signer pf) = fst (pf_generateKey pf)"
    "ed_keyId (demo_signer pf) \<noteq> []"
    by (simp_all add: demo_signer_def ed25519_generate_def or_default_def)
  show ?thesis
  proof (rule signed_verifies [OF b assms(4) k(3)])
    fix m g assume "pf_subtle_sign pf (ed_privateKey (demo_signer pf)) m = Inr g"
    with assms(2) show "g \<noteq> [] \<and> pf_subtle_verify pf (ed_publicKey (demo_signer pf)) g m = Inr True"
      unfolding keys_ok_def k by (metis sum.inject(2))
  next
    fix x show "pf_safeParse pf (signed_json x) = (if signed_issues (pf_zmsg pf) (pf_is_datetime pf) x = [] then Inr x
        else Inl (signed_issues (pf_zmsg pf) (pf_is_datetime pf) x))"
      using assms(1) by (simp add: codecs_ok_def)
  qed
qed

lemma mock_demo_run:
  assumes "env ''MOCK_MODE'' = Some ''true''" and "platform_ok pf"
  shows "\<exists>r. runDemo sdk x402 pf env None clock h = Inr
      \<lparr>demo_mock = True, demo_amount = Some DEMO_AMOUNT, demo_asset = Some (dp_asset MOCK_PAYWALL),
       demo_resource = Some ''/quotes/latest'', demo_receipt = signed_json r, demo_receiptValid = True\<rparr> \<and>
    matches (receipt r) demo_offer X402"
proof -
  define w where "w = (\<lparr>cache_entries = Map.empty, cache_clock = clock\<rparr>, h)"
  have ok: "codecs_ok pf" "keys_ok pf" "clock_ok pf" "unpaid_headers pf" using assms(2) by (simp_all add: platform_ok_def)
  obtain su where su: "setUp sdk x402 env None = Inr su"
    "su = \<lparr>su_mock = True, su_facilitator = createMockFacilitator, su_paywall = MOCK_PAYWALL, su_payer = mockPayer\<rparr>"
    using assms(1) by (simp add: setUp_def resolveDemoConfig_def or_default_def)
  obtain r w' payer tx where r: "issue_receipt (demo_context pf) demo_offer X402 payer tx w = Inr r"
    and paid: "quote_service (demo_gate pf createMockFacilitator MOCK_PAYWALL)
      (pf_agent_headers pf @ [(PAYMENT_SIGNATURE_HEADER, Header_single ''mock-signed-auth-entry'')]) w =
      (\<lparr>sv_status = 200, sv_headers = set_headers [(PAYMENT_RESPONSE_HEADER, encodeHeader (signed_json r))] [],
        sv_text = json_stringify quote_json\<rparr>, w')"
    using demo_payment [OF ok(2-4) _ w_def, of "''mock-signed-auth-entry''"] by auto
  have o: "encodeHeader (offer_json demo_offer) = encodeHeader (plain_offer demo_offer)"
    by (simp add: encodeHeader_def stringify_offer demo_offer_def)
  note decode = decode_sent [OF ok(1) offer_json_data o] decode_sent [OF ok(1) issued_json_data [OF r] refl]
  have asked: "\<exists>req. demo_toRequirements (xp_caip2 x402) (plain_offer demo_offer) = Inr req"
    "json_text ''amount'' (plain_offer demo_offer) = Some DEMO_AMOUNT"
    "json_text ''asset'' (plain_offer demo_offer) = Some (dp_asset MOCK_PAYWALL)"
    "json_text ''resource'' (plain_offer demo_offer) = Some ''/quotes/latest''"
    by (simp_all add: demo_toRequirements_def json_text_def plain_offer_def demo_offer_def isStellarNetwork_def)
  have keys: "forSigner (demo_signer pf) = Inr [ed_keyId (demo_signer pf) \<mapsto> ed_publicKey (demo_signer pf)]"
    by (rule forSigner_keys)
  obtain req where req: "demo_toRequirements (xp_caip2 x402) (plain_offer demo_offer) = Inr req" using asked(1) by blast
  note valid = demo_verifies [OF ok(1,2) r keys]
  have "fst (demo_rounds pf (xp_caip2 x402) su w) = Inr
      \<lparr>demo_mock = True, demo_amount = Some DEMO_AMOUNT, demo_asset = Some (dp_asset MOCK_PAYWALL),
       demo_resource = Some ''/quotes/latest'', demo_receipt = signed_json r, demo_receiptValid = True\<rparr>"
    by (simp add: demo_rounds_def su(2) demo_challenge [OF ok(4)] paid header_sent decode asked(2-4) req keys valid mockPayer_def
        del: numeral_eq_one_iff)
  then have "runDemo sdk x402 pf env None clock h = Inr
      \<lparr>demo_mock = True, demo_amount = Some DEMO_AMOUNT, demo_asset = Some (dp_asset MOCK_PAYWALL),
       demo_resource = Some ''/quotes/latest'', demo_receipt = signed_json r, demo_receiptValid = True\<rparr>"
    by (simp add: runDemo_def su(1) w_def)
  with issue_receipt_matches [OF r] show ?thesis by blast
qed

subsection \<open>Property\<close>

text \<open>C13. The demo works end to end. In mock mode, on a platform whose codecs, keys and clock behave as documented,
  the agent is asked for the configured price, pays it, gets the resource, and holds a receipt of the
  service that verifies and is for exactly the offer it was shown.\<close>

theorem mock_demo_ends_with_valid_receipt:
  assumes "env ''MOCK_MODE'' = Some ''true''" and "platform_ok pf"
  shows "\<exists>r. runDemo sdk x402 pf env None clock h = Inr
      \<lparr>demo_mock = True, demo_amount = Some DEMO_AMOUNT, demo_asset = Some (dp_asset MOCK_PAYWALL),
       demo_resource = Some ''/quotes/latest'', demo_receipt = signed_json r, demo_receiptValid = True\<rparr> \<and>
    matches (receipt r) demo_offer X402"
  by (rule mock_demo_run, rule assms(1), rule assms(2))

text \<open>A platform of this kind: decoders that invert the encoders, and keys that accept their own signatures.\<close>

lemma json_data_plain: "json_data v \<Longrightarrow> plain v"
proof (induction v)
  case (JObj fs)
  have "snd (map_prod id (map_option plain) f) = Some True" if f: "f \<in> set fs" for f
  proof -
    from JObj.prems f have "snd (map_prod id (map_option json_data) f) = Some True" by (simp add: list_all_iff)
    then obtain k v where v: "f = (k, Some v)" "json_data v" by (cases f) auto
    have "plain v" by (rule JObj.IH [OF f, of "Some v" v]) (simp_all add: v)
    then show ?thesis by (simp add: v)
  qed
  then show ?case by (simp add: list_all_iff)
next
  case (JArr vs)
  then have "x \<in> set vs \<Longrightarrow> plain x" for x by (simp add: list_all_iff)
  then show ?case by (simp add: list_all_iff)
qed simp_all

lemma stringify_inj: "inj_on json_stringify (Collect plain)"
proof (rule inj_onI)
  fix v w assume "v \<in> Collect plain" "w \<in> Collect plain" "json_stringify v = json_stringify w"
  then show "v = w" using print_json_append [of v w "[]" "[]"] by (simp add: json_stringify_print delim_def)
qed

lemma signed_json_inj: "inj signed_json"
proof (rule injI)
  fix r s assume e: "signed_json r = signed_json s"
  then have b: "body_json (receipt r) = body_json (receipt s)" by (simp add: signed_json_def)
  then have "receipt r = receipt s" using body_bytes_inject [of "receipt r" "receipt s"] by simp
  moreover have "signature r = signature s" using e by (simp add: signed_json_def)
  ultimately show "r = s" by simp
qed

definition sample_platform :: "(unit, unit) demo_platform" where
  "sample_platform =
     \<lparr>pf_zmsg = (\<lambda>_. ''invalid''), pf_is_datetime = (\<lambda>_. True), pf_uuid = (\<lambda>_. ''id''), pf_now = (\<lambda>_. ''now''),
      pf_generateKey = ([7], ()), pf_subtle_sign = (\<lambda>_ _. Inr [1]), pf_subtle_verify = (\<lambda>_ g _. Inr (g = [1])),
      pf_text_decode = inv utf8Bytes, pf_json_parse = (\<lambda>s. Inr (inv_into (Collect plain) json_stringify s)),
      pf_safeParse = (\<lambda>j. let r = inv signed_json j; issues = signed_issues (\<lambda>_. ''invalid'') (\<lambda>_. True) r
        in if issues = [] then Inr r else Inl issues),
      pf_agent_headers = []\<rparr>"

lemma sample_platform_ok: "platform_ok sample_platform"
proof -
  have "inv utf8Bytes (utf8Bytes s) = s" for s by (rule inv_f_f) (simp add: inj_def utf8Bytes_inject)
  then show ?thesis
    by (simp add: platform_ok_def codecs_ok_def keys_ok_def clock_ok_def unpaid_headers_def sample_platform_def Let_def
        json_data_plain inv_into_f_f [OF stringify_inj] inv_f_f [OF signed_json_inj])
qed

theorem mock_demo_ends_with_valid_receipt_witness:
  "\<forall>sdk x402. \<exists>r. runDemo sdk x402 sample_platform [''MOCK_MODE'' \<mapsto> ''true''] None 0 () = Inr
      \<lparr>demo_mock = True, demo_amount = Some ''10000'', demo_asset = Some (dp_asset MOCK_PAYWALL),
       demo_resource = Some ''/quotes/latest'', demo_receipt = signed_json r, demo_receiptValid = True\<rparr> \<and>
    matches (receipt r) demo_offer X402"
  using mock_demo_ends_with_valid_receipt [of "[''MOCK_MODE'' \<mapsto> ''true'']" sample_platform _ _ 0 "()"] sample_platform_ok
  by (simp add: DEMO_AMOUNT_def)

end
