(* ===== verification/Views.thy ===== *)
theory Views
  imports Dashboard DemoProofs
begin

text \<open>
  What the dashboard loads and verifies: the subscription of \<open>apps/dashboard/src/data/use-agent-spend.ts\<close>,
  \<open>use-open-channels.ts\<close> and \<open>use-receipts.ts\<close>, the verification of an opened receipt and the texts of its table in
  \<open>app/receipts/receipts-view.tsx\<close>, and the archive of \<open>data/receipts.ts\<close>.

  All four effects have one form: start a promise, show its outcome unless the effect was cleaned up in
  between. React renders a component with new values first and runs its effect later, the clean-up of the
  previous run just before; promises settle in any order. The hooks of the tables never change their
  dependencies.
\<close>

subsection \<open>An effect that shows the outcome of a promise\<close>

datatype 'a remote = Loading | Failed js_error | Ready 'a

fun remote_of :: "'a result \<Rightarrow> 'a remote" where
  "remote_of (Inl e) = Failed e"
| "remote_of (Inr a) = Ready a"

record 'd effect_run =
  run_on :: 'd
  run_cancelled :: bool
  run_settled :: bool

text \<open>\<open>ev_props\<close> is what the component is rendered with, \<open>None\<close> while it is not on the page; \<open>ev_due\<close> holds
  from a render with new values until its effect has run.\<close>

record ('d, 'a) effect_view =
  ev_props :: "'d option"
  ev_due :: bool
  ev_state :: "'a remote"
  ev_runs :: "'d effect_run list"

definition empty_view :: "('d, 'a) effect_view" where
  "empty_view = \<lparr>ev_props = None, ev_due = False, ev_state = Loading, ev_runs = []\<rparr>"

definition show_view :: "'d \<Rightarrow> ('d, 'a) effect_view \<Rightarrow> ('d, 'a) effect_view" where
  "show_view d v =
     (case ev_props v of
        None \<Rightarrow> v\<lparr>ev_props := Some d, ev_due := True, ev_state := Loading\<rparr>
      | Some d' \<Rightarrow> if d = d' then v else v\<lparr>ev_props := Some d, ev_due := True\<rparr>)"

definition cleaned_up :: "'d effect_run list \<Rightarrow> 'd effect_run list" where
  "cleaned_up runs = map (\<lambda>r. r\<lparr>run_cancelled := True\<rparr>) runs"

definition run_effect :: "('d, 'a) effect_view \<Rightarrow> ('d, 'a) effect_view" where
  "run_effect v =
     (case (ev_props v, ev_due v) of
        (Some d, True) \<Rightarrow>
          v\<lparr>ev_due := False, ev_state := Loading,
            ev_runs := cleaned_up (ev_runs v) @ [\<lparr>run_on = d, run_cancelled = False, run_settled = False\<rparr>]\<rparr>
      | _ \<Rightarrow> v)"

definition hide_view :: "('d, 'a) effect_view \<Rightarrow> ('d, 'a) effect_view" where
  "hide_view v = v\<lparr>ev_props := None, ev_due := False, ev_runs := cleaned_up (ev_runs v)\<rparr>"

definition settle_run :: "('d \<Rightarrow> 'a result) \<Rightarrow> nat \<Rightarrow> ('d, 'a) effect_view \<Rightarrow> ('d, 'a) effect_view" where
  "settle_run outcome i v =
     (let r = ev_runs v ! i; v' = v\<lparr>ev_runs := (ev_runs v)[i := r\<lparr>run_settled := True\<rparr>]\<rparr>
      in if run_cancelled r then v' else v'\<lparr>ev_state := remote_of (outcome (run_on r))\<rparr>)"

inductive view_step :: "('d \<Rightarrow> 'a result) \<Rightarrow> ('d, 'a) effect_view \<Rightarrow> ('d, 'a) effect_view \<Rightarrow> bool" for outcome where
  Show: "view_step outcome v (show_view d v)"
| Effect: "view_step outcome v (run_effect v)"
| Hide: "view_step outcome v (hide_view v)"
| Settle: "i < length (ev_runs v) \<Longrightarrow> \<not> run_settled (ev_runs v ! i) \<Longrightarrow> view_step outcome v (settle_run outcome i v)"

definition view_reachable :: "('d \<Rightarrow> 'a result) \<Rightarrow> ('d, 'a) effect_view \<Rightarrow> bool" where
  "view_reachable outcome v \<longleftrightarrow> (view_step outcome)\<^sup>*\<^sup>* empty_view v"

lemma view_reachableI:
  "view_reachable outcome empty_view"
  "view_reachable outcome v \<Longrightarrow> view_step outcome v w \<Longrightarrow> view_reachable outcome w"
  by (simp_all add: view_reachable_def)

text \<open>Only the last run is live, and once the effect has run, it runs for what is rendered and the state is its
  outcome as soon as it has one.\<close>

definition view_inv :: "('d \<Rightarrow> 'a result) \<Rightarrow> ('d, 'a) effect_view \<Rightarrow> bool" where
  "view_inv outcome v \<longleftrightarrow>
     (\<forall>i<length (ev_runs v). \<not> run_cancelled (ev_runs v ! i) \<longrightarrow> Suc i = length (ev_runs v)) \<and>
     (\<forall>d. ev_props v = Some d \<and> \<not> ev_due v \<longrightarrow>
       ev_runs v \<noteq> [] \<and> run_on (last (ev_runs v)) = d \<and> \<not> run_cancelled (last (ev_runs v)) \<and>
       ev_state v = (if run_settled (last (ev_runs v)) then remote_of (outcome d) else Loading))"

lemma cleaned_up_runs [simp]:
  "length (cleaned_up runs) = length runs" "i < length runs \<Longrightarrow> run_cancelled (cleaned_up runs ! i)"
  by (simp_all add: cleaned_up_def)

lemma view_inv_step: "view_step outcome v w \<Longrightarrow> view_inv outcome v \<Longrightarrow> view_inv outcome w"
proof (induction rule: view_step.induct)
  case (Show v d)
  then show ?case by (auto simp: view_inv_def show_view_def split: option.splits)
next
  case (Effect v)
  then show ?case
    by (auto simp: view_inv_def run_effect_def nth_append less_Suc_eq split: option.splits bool.splits)
next
  case (Hide v)
  then show ?case by (auto simp: view_inv_def hide_view_def)
next
  case (Settle i v)
  show ?case
  proof (cases "run_cancelled (ev_runs v ! i)")
    case True
    with Settle show ?thesis
      by (cases "Suc i = length (ev_runs v)")
        (auto simp: view_inv_def settle_run_def nth_list_update last_conv_nth)
  next
    case False
    with Settle have "Suc i = length (ev_runs v)" by (simp add: view_inv_def)
    then have l: "i = length (ev_runs v) - 1" "ev_runs v \<noteq> []" by auto
    from Settle False l show ?thesis
      by (auto simp: view_inv_def settle_run_def nth_list_update last_conv_nth Let_def)
  qed
qed

lemma view_inv_reachable: "view_reachable outcome v \<Longrightarrow> view_inv outcome v"
  unfolding view_reachable_def
  by (induction rule: rtranclp_induct) (simp add: view_inv_def empty_view_def, rule view_inv_step)

subsection \<open>The archive\<close>

record receipts_snapshot =
  snap_rows :: "signed_receipt list"
  snap_trustedKeys :: "(string \<times> byte list) list"

definition ISSUER_PREFIX :: string where
  "ISSUER_PREFIX = ''USDC:GA5ZSEJYB37JRC5AVCIA5MOP4RHTM335X2KGX3IHOJAPP5RE34K4KZVN''"

definition STUB_KEY_ID :: string where
  "STUB_KEY_ID = ''tollway-stub-2026''"

definition STUB_SEEDS :: "build_receipt_input list" where
  "STUB_SEEDS =
     [\<lparr>bi_id = Some ''rcpt-x402-stripe-01'', bi_payer = ''GAGENTRESEARCHXXXXXXXXXXXXXXXXXXXXXXXXXXXXXXXXXXXXXXXX'',
       bi_payee = ''GCSTRIPEXXXXXXXXXXXXXXXXXXXXXXXXXXXXXXXXXXXXXXXXXXXXXXX'', bi_amount = ''120000'',
       bi_asset = ISSUER_PREFIX, bi_resource = ''/quotes/latest'', bi_model = X402,
       bi_settlement = Transaction_ref ''ad21ce4f9e1f3b2a8e7c0d1f2a3b4c5d6e7f8091a2b3c4d5e6f70819a2b3c4d5'',
       bi_network = Testnet, bi_issuedAt = Some ''2026-06-29T13:55:12.000Z''\<rparr>,
      \<lparr>bi_id = Some ''rcpt-mppcharge-anthropic-01'', bi_payer = ''GAGENTSUMMARIZERXXXXXXXXXXXXXXXXXXXXXXXXXXXXXXXXXXXXXX'',
       bi_payee = ''GANTHROPICXXXXXXXXXXXXXXXXXXXXXXXXXXXXXXXXXXXXXXXXXXXXX'', bi_amount = ''750000'',
       bi_asset = ISSUER_PREFIX, bi_resource = ''/v1/messages'', bi_model = Mpp_charge,
       bi_settlement = Transaction_ref ''be32df50a8203f3b9c8d1e2f3a4b5c6d7e8f90a1b2c3d4e5f6a7b8c9d0e1f2a3'',
       bi_network = Testnet, bi_issuedAt = Some ''2026-06-29T13:48:00.000Z''\<rparr>,
      \<lparr>bi_id = Some ''rcpt-channel-openai-01'', bi_payer = ''GAGENTCLASSIFIERXXXXXXXXXXXXXXXXXXXXXXXXXXXXXXXXXXXXXX'',
       bi_payee = ''GOPENAIXXXXXXXXXXXXXXXXXXXXXXXXXXXXXXXXXXXXXXXXXXXXXXXX'', bi_amount = ''8500000'',
       bi_asset = ISSUER_PREFIX, bi_resource = ''/v1/chat/completions'', bi_model = Mpp_channel,
       bi_settlement = Channel_commitment_ref ''ch-openai-03'' 96,
       bi_network = Testnet, bi_issuedAt = Some ''2026-06-29T13:30:00.000Z''\<rparr>,
      \<lparr>bi_id = Some ''rcpt-channel-anthropic-01'', bi_payer = ''GAGENTROUTERXXXXXXXXXXXXXXXXXXXXXXXXXXXXXXXXXXXXXXXXXX'',
       bi_payee = ''GANTHROPICXXXXXXXXXXXXXXXXXXXXXXXXXXXXXXXXXXXXXXXXXXXXX'', bi_amount = ''4100000'',
       bi_asset = ISSUER_PREFIX, bi_resource = ''/v1/messages'', bi_model = Mpp_channel,
       bi_settlement = Channel_commitment_ref ''ch-anthropic-02'' 187,
       bi_network = Testnet, bi_issuedAt = Some ''2026-06-29T12:10:00.000Z''\<rparr>]"

text \<open>\<open>pair\<close> is what key generation returns. Every seed has an identifier and a time of issue, so the defaults of
  \<open>buildReceipt\<close> are never taken; they are empty here.\<close>

definition stub_receipt ::
  "(zod_check \<Rightarrow> string) \<Rightarrow> (string \<Rightarrow> bool) \<Rightarrow> receipt_signer \<Rightarrow> build_receipt_input \<Rightarrow> signed_receipt result" where
  "stub_receipt zmsg is_datetime signer seed =
     (case buildReceipt zmsg is_datetime [] [] seed of
        Inl e \<Rightarrow> Inl e
      | Inr body \<Rightarrow> signReceipt zmsg is_datetime body signer)"

definition buildStub ::
  "(zod_check \<Rightarrow> string) \<Rightarrow> (string \<Rightarrow> bool) \<Rightarrow> ('k \<Rightarrow> byte list \<Rightarrow> byte list result) \<Rightarrow> byte list \<times> 'k \<Rightarrow> receipts_snapshot result" where
  "buildStub zmsg is_datetime subtle_sign pair =
     (let signer = ed25519_generate pair (Some STUB_KEY_ID)
      in map_sum id (\<lambda>rows. \<lparr>snap_rows = rows, snap_trustedKeys = [(ed_keyId signer, ed_publicKey signer)]\<rparr>)
           (collect (map (stub_receipt zmsg is_datetime (ed25519_signer_of subtle_sign signer)) STUB_SEEDS)))"

definition fetchReceipts ::
  "receipts_snapshot result \<Rightarrow> receipts_snapshot option \<Rightarrow> receipts_snapshot result \<times> receipts_snapshot option" where
  "fetchReceipts built cached =
     (case cached of
        Some snapshot \<Rightarrow> (Inr snapshot, cached)
      | None \<Rightarrow> (case built of Inl e \<Rightarrow> (Inl e, None) | Inr snapshot \<Rightarrow> (Inr snapshot, Some snapshot)))"

subsection \<open>The table and the opened receipt\<close>

fun MODEL_LABEL :: "settlement_model \<Rightarrow> string" where
  "MODEL_LABEL X402 = ''x402''"
| "MODEL_LABEL Mpp_charge = ''MPP charge''"
| "MODEL_LABEL Mpp_channel = ''MPP channel''"

definition receipt_formatAmount :: "string \<Rightarrow> string \<Rightarrow> string" where
  "receipt_formatAmount amount asset =
     (case StringToBigInt amount of
        None \<Rightarrow> amount @ '' '' @ asset
      | Some units \<Rightarrow> format_units units @ '' '' @ takeWhile (\<lambda>c. c \<noteq> CHR '':'') asset)"

text \<open>The ellipsis is no character of the model's strings; it is an argument.\<close>

definition truncate_text :: "string \<Rightarrow> nat \<Rightarrow> nat \<Rightarrow> string \<Rightarrow> string" where
  "truncate_text ellipsis front back v =
     (if length v \<le> front + back + 3 then v else take front v @ ellipsis @ drop (length v - back) v)"

fun settlementSummary :: "string \<Rightarrow> settlement_ref \<Rightarrow> string" where
  "settlementSummary ellipsis (Transaction_ref h) = ''tx '' @ truncate_text ellipsis 8 6 h"
| "settlementSummary ellipsis (Channel_commitment_ref i q) = i @ [CHR '' '', CHR 0xB7] @ '' seq '' @ int_toString q"

definition toggle_selected :: "string \<Rightarrow> string option \<Rightarrow> string option" where
  "toggle_selected i prev = (if prev = Some i then None else Some i)"

definition selected_receipt :: "signed_receipt list \<Rightarrow> string option \<Rightarrow> signed_receipt option" where
  "selected_receipt rows selectedId = find (\<lambda>row. Some (body_id (receipt row)) = selectedId) rows"

text \<open>What the effect of the opened receipt resolves to. Raw keys are not decoded, so the constructor of the
  verifier does not throw.\<close>

definition verify_opened ::
  "(json \<Rightarrow> issue list + signed_receipt) \<Rightarrow> (byte list \<Rightarrow> byte list \<Rightarrow> byte list \<Rightarrow> bool result) \<Rightarrow>
   signed_receipt \<times> (string \<times> byte list) list \<Rightarrow> receipt_verification result" where
  "verify_opened safeParse subtle_verify opened =
     (case opened of (r, trustedKeys) \<Rightarrow>
        (case ed25519_keys (map (map_prod id Inl) trustedKeys) of
           Inl e \<Rightarrow> Inl e
         | Inr keys \<Rightarrow> verifyReceipt safeParse (signed_json r) (ed25519_verify subtle_verify keys)))"

datatype pill = Pill_verifying | Pill_error string | Pill_valid | Pill_invalid string

fun verification_pill :: "receipt_verification remote \<Rightarrow> pill" where
  "verification_pill Loading = Pill_verifying"
| "verification_pill (Failed e) = Pill_error (error_message e)"
| "verification_pill (Ready Valid) = Pill_valid"
| "verification_pill (Ready (Invalid reason)) = Pill_invalid reason"

end
