(* ===== verification/ViewProofs.thy ===== *)
theory ViewProofs
  imports Views
begin

text \<open>
  What the dashboard shows of asynchronous work: after its effect has run a view shows the outcome for what it is
  rendered with or nothing yet; the archive's receipts are shown as valid; and the one render in which the
  verdict is still the previous receipt's.
\<close>

subsection \<open>The archive\<close>

lemma collect_members: "collect xs = Inr ys \<Longrightarrow> y \<in> set ys \<Longrightarrow> Inr y \<in> set xs"
proof (induction xs arbitrary: ys rule: collect.induct)
  case (3 x rs)
  then show ?case by (cases "collect rs") auto
qed simp_all

lemma collect_total: "\<forall>x\<in>set xs. \<exists>y. x = Inr y \<Longrightarrow> \<exists>ys. collect xs = Inr ys \<and> length ys = length xs"
  by (induction xs rule: collect.induct) auto

lemma seeds_well_formed:
  "seed \<in> set STUB_SEEDS \<Longrightarrow> is_datetime (the (bi_issuedAt seed)) \<Longrightarrow> well_formed is_datetime (body_of_input uuid now seed)"
  by (auto simp: STUB_SEEDS_def well_formed_def body_of_input_def or_default_def AMOUNT_RE_def is_digit_def ISSUER_PREFIX_def)

lemma stub_receipt_signed:
  assumes "stub_receipt zmsg is_datetime signer seed = Inr r"
  shows "signReceipt zmsg is_datetime (body_of_input [] [] seed) signer = Inr r"
  using assms by (auto simp: stub_receipt_def buildReceipt_def Let_def split: sum.splits list.splits)

definition archive_ok ::
  "(string \<Rightarrow> bool) \<Rightarrow> ('k \<Rightarrow> byte list \<Rightarrow> byte list result) \<Rightarrow> (byte list \<Rightarrow> byte list \<Rightarrow> byte list \<Rightarrow> bool result) \<Rightarrow>
   byte list \<times> 'k \<Rightarrow> (zod_check \<Rightarrow> string) \<Rightarrow> (json \<Rightarrow> issue list + signed_receipt) \<Rightarrow> bool" where
  "archive_ok is_datetime subtle_sign subtle_verify pair zmsg safeParse \<longleftrightarrow>
     (\<forall>seed\<in>set STUB_SEEDS. is_datetime (the (bi_issuedAt seed))) \<and>
     (\<forall>m. \<exists>g. subtle_sign (snd pair) m = Inr g \<and> g \<noteq> [] \<and> subtle_verify (fst pair) g m = Inr True) \<and>
     (\<forall>r. safeParse (signed_json r) =
        (if signed_issues zmsg is_datetime r = [] then Inr r else Inl (signed_issues zmsg is_datetime r)))"

lemma archive_receipts:
  assumes ok: "archive_ok is_datetime subtle_sign subtle_verify pair zmsg safeParse"
  shows "\<exists>snapshot. buildStub zmsg is_datetime subtle_sign pair = Inr snapshot \<and> length (snap_rows snapshot) = 4 \<and>
    (\<forall>r\<in>set (snap_rows snapshot). verify_opened safeParse subtle_verify (r, snap_trustedKeys snapshot) = Inr Valid)"
proof -
  let ?s = "ed25519_generate pair (Some STUB_KEY_ID)"
  let ?f = "stub_receipt zmsg is_datetime (ed25519_signer_of subtle_sign ?s)"
  have s: "ed_keyId ?s \<noteq> []" "ed_publicKey ?s = fst pair" "ed_privateKey ?s = snd pair"
    by (simp_all add: ed25519_generate_def or_default_def STUB_KEY_ID_def)
  have "\<exists>r. ?f seed = Inr r" if seed: "seed \<in> set STUB_SEEDS" for seed
  proof -
    let ?b = "body_of_input [] [] seed"
    have "body_issues zmsg is_datetime ?b = []"
      using ok seed unfolding archive_ok_def by (simp add: body_issues_Nil seeds_well_formed)
    moreover obtain m where "canonicalBytes (body_json ?b) = Inr m" using body_bytes_Inr by blast
    moreover obtain g where "subtle_sign (snd pair) m = Inr g" using ok unfolding archive_ok_def by blast
    ultimately show ?thesis
      by (simp add: stub_receipt_def buildReceipt_def signReceipt_def ed25519_signer_of_def s Let_def)
  qed
  then obtain rows where rows: "collect (map ?f STUB_SEEDS) = Inr rows" "length rows = length STUB_SEEDS"
    using collect_total [of "map ?f STUB_SEEDS"] by auto
  have "verify_opened safeParse subtle_verify (r, [(ed_keyId ?s, ed_publicKey ?s)]) = Inr Valid" if "r \<in> set rows" for r
  proof -
    from collect_members [OF rows(1) that] obtain seed where "?f seed = Inr r" by auto
    note signed_verifies [OF stub_receipt_signed [OF this], of "[ed_keyId ?s \<mapsto> ed_publicKey ?s]" subtle_verify safeParse signed_json]
    with ok s show ?thesis unfolding archive_ok_def
      by (simp add: verify_opened_def forSigner_keys) (metis sum.inject(2))
  qed
  with rows show ?thesis by (auto simp: buildStub_def Let_def STUB_SEEDS_def)
qed

subsection \<open>Properties\<close>

text \<open>C19. Once its effect has run, an opened receipt is shown with its own verdict or as being verified, whatever the
  order in which receipts are opened and closed and verifications end: a verdict of another receipt
  never shows, and the verdict is reached when the running verification ends. The same holds of the rows
  of the three tables and their loading states.\<close>

theorem view_shows_its_own_outcome:
  assumes "view_reachable outcome v" and "ev_props v = Some d" and "\<not> ev_due v"
  shows "ev_state v = remote_of (outcome d) \<or>
    ev_state v = Loading \<and> (\<exists>i<length (ev_runs v). \<not> run_settled (ev_runs v ! i) \<and>
      ev_state (settle_run outcome i v) = remote_of (outcome d))"
proof -
  let ?i = "length (ev_runs v) - 1"
  from view_inv_reachable [OF assms(1)] assms(2,3)
  have i: "ev_runs v \<noteq> []" "run_on (ev_runs v ! ?i) = d" "\<not> run_cancelled (ev_runs v ! ?i)"
    "ev_state v = (if run_settled (ev_runs v ! ?i) then remote_of (outcome d) else Loading)"
    by (auto simp: view_inv_def last_conv_nth)
  then have "ev_state (settle_run outcome ?i v) = remote_of (outcome d)" "?i < length (ev_runs v)"
    by (simp_all add: settle_run_def Let_def)
  with i(4) show ?thesis by auto
qed

text \<open>Two receipts opened one after the other, of which the verification of the first ends first.\<close>

definition sample_view :: "(nat, bool) effect_view" where
  "sample_view = settle_run (\<lambda>d. Inr (d = 2)) 0 (run_effect (show_view 2 (run_effect (show_view 1 empty_view))))"

lemma sample_view_reachable: "view_reachable (\<lambda>d. Inr (d = 2)) sample_view"
proof -
  let ?v = "run_effect (show_view 2 (run_effect (show_view (1 :: nat) empty_view))) :: (nat, bool) effect_view"
  have "view_reachable (\<lambda>d. Inr (d = 2)) ?v"
    by (rule view_reachableI(2) [OF _ Effect], rule view_reachableI(2) [OF _ Show])+ (rule view_reachableI(1))
  then show ?thesis unfolding sample_view_def by (rule view_reachableI(2) [OF _ Settle]) code_simp+
qed

theorem view_shows_its_own_outcome_witness:
  "ev_state sample_view = Loading \<and> ev_state (settle_run (\<lambda>d. Inr (d = 2)) 1 sample_view) = Ready True"
proof -
  have "ev_props sample_view = Some 2" "\<not> ev_due sample_view" "length (ev_runs sample_view) = 2"
    "run_settled (ev_runs sample_view ! 0)" by code_simp+
  with view_shows_its_own_outcome [OF sample_view_reachable] show ?thesis by (auto simp: less_2_cases_iff) code_simp+
qed

text \<open>The archive is fetched once: the first fetch builds and signs all four receipts, later ones return the same
  snapshot. Whichever of them is opened, and however the opening and closing of receipts is interleaved
  with their verification, it is shown as being verified or as valid.\<close>

theorem archive_receipts_show_valid:
  assumes "archive_ok is_datetime subtle_sign subtle_verify pair zmsg safeParse"
  shows "\<exists>snapshot. fetchReceipts (buildStub zmsg is_datetime subtle_sign pair) None = (Inr snapshot, Some snapshot) \<and>
    length (snap_rows snapshot) = 4 \<and> fetchReceipts rebuilt (Some snapshot) = (Inr snapshot, Some snapshot) \<and>
    (\<forall>r\<in>set (snap_rows snapshot). \<forall>v. view_reachable (verify_opened safeParse subtle_verify) v \<and>
      ev_props v = Some (r, snap_trustedKeys snapshot) \<and> \<not> ev_due v \<longrightarrow>
      verification_pill (ev_state v) \<in> {Pill_verifying, Pill_valid})"
proof -
  from archive_receipts [OF assms] obtain snapshot where s: "buildStub zmsg is_datetime subtle_sign pair = Inr snapshot"
    "length (snap_rows snapshot) = 4"
    "\<forall>r\<in>set (snap_rows snapshot). verify_opened safeParse subtle_verify (r, snap_trustedKeys snapshot) = Inr Valid" by blast
  have "verification_pill (ev_state v) \<in> {Pill_verifying, Pill_valid}"
    if "r \<in> set (snap_rows snapshot)" "view_reachable (verify_opened safeParse subtle_verify) v"
      "ev_props v = Some (r, snap_trustedKeys snapshot)" "\<not> ev_due v" for r v
    using view_inv_reachable [OF that(2)] that s(3) by (auto simp: view_inv_def)
  with s show ?thesis by (auto simp: fetchReceipts_def)
qed

theorem archive_receipts_show_valid_witness:
  "\<exists>snapshot. fetchReceipts (buildStub (pf_zmsg sample_platform) (\<lambda>_. True) (\<lambda>_ _. Inr [1]) ([7], ())) None =
      (Inr snapshot, Some snapshot) \<and> length (snap_rows snapshot) = 4"
proof -
  have "archive_ok (\<lambda>_. True) (\<lambda>_ _. Inr [1]) (\<lambda>_ g _. Inr (g = [1])) ([7], ()) (pf_zmsg sample_platform) (pf_safeParse sample_platform)"
    using sample_platform_ok by (simp add: archive_ok_def platform_ok_def codecs_ok_def sample_platform_def)
  from archive_receipts_show_valid [OF this] show ?thesis by blast
qed

text \<open>Between the render with another receipt and its effect, the verdict of the previous receipt is on the page.\<close>

lemma previous_verdict_until_effect:
  assumes "r \<noteq> r'"
  shows "\<exists>v. view_reachable outcome v \<and> ev_props v = Some r' \<and> ev_state v = remote_of (outcome r)"
proof (intro exI conjI)
  let ?v = "settle_run outcome 0 (run_effect (show_view r empty_view))"
  have "view_reachable outcome (run_effect (show_view r empty_view))"
    by (rule view_reachableI(2) [OF _ Effect], rule view_reachableI(2) [OF _ Show], rule view_reachableI(1))
  then have "view_reachable outcome ?v"
    by (rule view_reachableI(2) [OF _ Settle]) (simp_all add: run_effect_def show_view_def empty_view_def cleaned_up_def)
  then show "view_reachable outcome (show_view r' ?v)" by (rule view_reachableI(2) [OF _ Show])
  show "ev_props (show_view r' ?v) = Some r'" "ev_state (show_view r' ?v) = remote_of (outcome r)"
    using assms by (simp_all add: settle_run_def run_effect_def show_view_def empty_view_def cleaned_up_def)
qed

end
