(* ===== verification/Locking.thy ===== *)
theory Locking
  imports GateSteps
begin

text \<open>
  Settlement across processes: attempts of any number of gates, in any number of processes, that share one cache
  with locks, \<open>settleOnce\<close> in \<open>packages/server/src/gate.ts\<close> over \<open>createRedisSettlementCache\<close> in \<open>cache.ts\<close>. A run
  starts attempts at any time and lets any of them take its next segment; in between, time passes on the cache's
  clock, and entries and locks expire. The list of payments settled so far, with the time of each settlement, is
  kept beside it.

  \<open>locking_cache\<close> is what the gate relies on: entries live \<open>ttl\<close> milliseconds, locks are held by one at a time.
  Its lemmas show that no payment is settled twice within \<open>ttl\<close>, provided no lock expires under its holder.
\<close>

subsection \<open>Runs\<close>

record 'w contender =
  co_ctx :: "'w settlement_context"
  co_attempt :: "'w attempt"
  co_pc :: attempt_pc

definition co_key :: "'w contender \<Rightarrow> string" where
  "co_key e = at_key (co_attempt e)"

text \<open>A payment is settled when \<open>settle\<close> has returned a transaction.\<close>

fun newly_settled :: "string \<Rightarrow> attempt_pc \<Rightarrow> string list" where
  "newly_settled key (At_settle _ (Inr (Settled _))) = [key]"
| "newly_settled key _ = []"

record 'w race =
  ra_contenders :: "'w contender list"
  ra_settled :: "(string \<times> int) list"
  ra_world :: 'w

definition new_race :: "'w \<Rightarrow> 'w race" where
  "new_race w = \<lparr>ra_contenders = [], ra_settled = [], ra_world = w\<rparr>"

definition enter_race :: "'w settlement_context \<Rightarrow> 'w attempt \<Rightarrow> 'w race \<Rightarrow> 'w race" where
  "enter_race ctx a s =
     s\<lparr>ra_contenders := ra_contenders s @ [\<lparr>co_ctx = ctx, co_attempt = a, co_pc = At_called\<rparr>]\<rparr>"

definition advance :: "('w \<Rightarrow> int) \<Rightarrow> nat \<Rightarrow> 'w race \<Rightarrow> 'w race" where
  "advance now i s =
     (let e = ra_contenders s ! i
      in case attempt_resume (co_ctx e) (co_attempt e) (co_pc e) (ra_world s) of
           (pc, w) \<Rightarrow>
             \<lparr>ra_contenders = (ra_contenders s)[i := e\<lparr>co_pc := pc\<rparr>],
              ra_settled = ra_settled s @ map (\<lambda>k. (k, now w)) (newly_settled (co_key e) pc), ra_world = w\<rparr>)"

lemma race_lengths [simp]:
  "length (ra_contenders (new_race w)) = 0" "length (ra_contenders (enter_race ctx a s)) = Suc (length (ra_contenders s))"
  "length (ra_contenders (advance now i s)) = length (ra_contenders s)"
  by (simp_all add: new_race_def enter_race_def advance_def Let_def split: prod.splits)

inductive race_step ::
  "('w \<Rightarrow> int) \<Rightarrow> ('w settlement_context \<Rightarrow> 'w attempt \<Rightarrow> bool) \<Rightarrow> ('w race \<Rightarrow> 'w \<Rightarrow> bool) \<Rightarrow> 'w race \<Rightarrow> 'w race \<Rightarrow> bool"
  for now admitted elsewhere where
  Enter: "admitted ctx a \<Longrightarrow> race_step now admitted elsewhere s (enter_race ctx a s)"
| Advance: "i < length (ra_contenders s) \<Longrightarrow> race_step now admitted elsewhere s (advance now i s)"
| Elsewhere: "elsewhere s w \<Longrightarrow> race_step now admitted elsewhere s (s\<lparr>ra_world := w\<rparr>)"

definition race_reachable ::
  "('w \<Rightarrow> int) \<Rightarrow> ('w settlement_context \<Rightarrow> 'w attempt \<Rightarrow> bool) \<Rightarrow> ('w race \<Rightarrow> 'w \<Rightarrow> bool) \<Rightarrow> 'w race \<Rightarrow> bool" where
  "race_reachable now admitted elsewhere s \<longleftrightarrow> (\<exists>w. (race_step now admitted elsewhere)\<^sup>*\<^sup>* (new_race w) s)"

lemma race_reachableI:
  "race_reachable now admitted elsewhere (new_race w)"
  "race_reachable now admitted elsewhere s \<Longrightarrow> race_step now admitted elsewhere s s' \<Longrightarrow>
    race_reachable now admitted elsewhere s'"
  by (auto simp: race_reachable_def intro: rtranclp.rtrancl_into_rtrancl)

lemma race_reachable_mono:
  assumes "race_reachable now admitted elsewhere s"
    and "\<And>ctx a. admitted ctx a \<Longrightarrow> admitted' ctx a" "\<And>s w. elsewhere s w \<Longrightarrow> elsewhere' s w"
  shows "race_reachable now admitted' elsewhere' s"
proof -
  from assms(1) obtain w where "(race_step now admitted elsewhere)\<^sup>*\<^sup>* (new_race w) s" unfolding race_reachable_def by blast
  then show ?thesis
  proof (induction rule: rtranclp_induct)
    case (step s s')
    from step.hyps(2) assms(2,3) have "race_step now admitted' elsewhere' s s'" by cases (auto intro: race_step.intros)
    with step.IH show ?case by (rule race_reachableI(2))
  qed (rule race_reachableI(1))
qed

subsection \<open>Where an attempt is\<close>

text \<open>From the lock's acquisition to its release; after the second lookup, before settling; from settling to
  storing the receipt.\<close>

fun holding :: "attempt_pc \<Rightarrow> bool" where
  "holding (At_acquire x) \<longleftrightarrow> x = Inr True"
| "holding (At_recheck _) \<longleftrightarrow> True"
| "holding (At_settle l _) \<longleftrightarrow> l"
| "holding (At_sign l _) \<longleftrightarrow> l"
| "holding (At_set l _ _) \<longleftrightarrow> l"
| "holding _ \<longleftrightarrow> False"

fun cleared :: "attempt_pc \<Rightarrow> bool" where
  "cleared (At_recheck x) \<longleftrightarrow> x = Inr None"
| "cleared _ \<longleftrightarrow> False"

fun unrecorded :: "attempt_pc \<Rightarrow> bool" where
  "unrecorded (At_settle _ (Inr (Settled _))) \<longleftrightarrow> True"
| "unrecorded (At_sign _ _) \<longleftrightarrow> True"
| "unrecorded _ \<longleftrightarrow> False"

fun settling :: "attempt_pc \<Rightarrow> bool" where
  "settling (At_settle _ _) \<longleftrightarrow> True"
| "settling _ \<longleftrightarrow> False"

text \<open>The receipt of every transaction can be issued, and is one the cache can store.\<close>

definition issues ::
  "(signed_receipt \<Rightarrow> bool) \<Rightarrow> 'w settlement_context \<Rightarrow> 'w attempt \<Rightarrow> string \<Rightarrow> bool" where
  "issues storable ctx a tx \<longleftrightarrow>
     (\<forall>u. \<exists>r. issue_receipt ctx (at_offer a) (at_model a) (at_payer a) tx u = Inr r \<and> storable r)"

fun pc_ok :: "(signed_receipt \<Rightarrow> bool) \<Rightarrow> 'w settlement_context \<Rightarrow> 'w attempt \<Rightarrow> attempt_pc \<Rightarrow> bool" where
  "pc_ok storable ctx a (At_settle l x) \<longleftrightarrow> l \<and> (\<forall>tx. x = Inr (Settled tx) \<longrightarrow> issues storable ctx a tx)"
| "pc_ok storable ctx a (At_sign l x) \<longleftrightarrow> l \<and> (\<exists>r. x = Inr r \<and> storable r)"
| "pc_ok storable ctx a (At_set l _ x) \<longleftrightarrow> l \<and> x = Inr ()"
| "pc_ok storable ctx a (At_release _ x) \<longleftrightarrow> x = Inr ()"
| "pc_ok storable ctx a _ \<longleftrightarrow> True"

lemma newly_settled_unrecorded: "newly_settled k pc \<noteq> [] \<Longrightarrow> unrecorded pc"
  by (induction k pc rule: newly_settled.induct) simp_all

text \<open>What is left of an entry at a time.\<close>

definition unexpired :: "int \<Rightarrow> ('a \<times> int) option \<Rightarrow> ('a \<times> int) option" where
  "unexpired t x = (case x of Some (v, d) \<Rightarrow> if t < d then Some (v, d) else None | None \<Rightarrow> None)"

lemma unexpired_simps [simp]:
  "unexpired t None = None" "unexpired t (Some (v, d)) = (if t < d then Some (v, d) else None)"
  by (simp_all add: unexpired_def)

text \<open>Two settlements of one payment are at least \<open>ttl\<close> apart.\<close>

definition apart :: "int \<Rightarrow> string \<times> int \<Rightarrow> string \<times> int \<Rightarrow> bool" where
  "apart ttl x y \<longleftrightarrow> (fst x = fst y \<longrightarrow> snd x + ttl \<le> snd y)"

subsection \<open>A cache with locks\<close>

text \<open>\<open>stored\<close> is the receipt under a key, with the time it expires; \<open>locked\<close> a lock that has not expired.\<close>

locale locking_cache =
  fixes C :: "'w settlement_cache" and now :: "'w \<Rightarrow> int" and ttl :: int
    and stored :: "string \<Rightarrow> 'w \<Rightarrow> (signed_receipt \<times> int) option"
    and locked :: "string \<Rightarrow> 'w \<Rightarrow> bool" and valid :: "string \<Rightarrow> bool" and storable :: "signed_receipt \<Rightarrow> bool"
    and acquire :: "string \<Rightarrow> int \<Rightarrow> 'w \<Rightarrow> bool result \<times> 'w" and release :: "string \<Rightarrow> 'w \<Rightarrow> unit result \<times> 'w"
  assumes locks: "cache_acquire C = Some acquire" "cache_release C = Some release"
    and get: "valid k \<Longrightarrow> cache_get C k w = (x, w') \<Longrightarrow> x = Inr (map_option fst (stored k w)) \<and> now w' = now w \<and>
      (\<forall>j. valid j \<longrightarrow> stored j w' = stored j w \<and> locked j w' = locked j w)"
    and set: "valid k \<Longrightarrow> storable r \<Longrightarrow> cache_set C k r w = (y, w') \<Longrightarrow> y = Inr () \<and> now w' = now w \<and>
      (\<forall>j. valid j \<longrightarrow> stored j w' = (if j = k then Some (r, now w + ttl) else stored j w) \<and> locked j w' = locked j w)"
    and acquires: "valid k \<Longrightarrow> acquire k t w = (b, w') \<Longrightarrow> b = Inr (\<not> locked k w) \<and> now w' = now w \<and>
      (\<forall>j. valid j \<longrightarrow> stored j w' = stored j w \<and> locked j w' = (locked j w \<or> j = k))"
    and releases: "valid k \<Longrightarrow> release k w = (y, w') \<Longrightarrow> y = Inr () \<and> now w' = now w \<and>
      (\<forall>j. valid j \<longrightarrow> stored j w' = stored j w \<and> locked j w' = (locked j w \<and> j \<noteq> k))"
begin

text \<open>Settling leaves the cache alone, and what it returns can be issued and stored.\<close>

definition fair :: "'w settlement_context \<Rightarrow> 'w attempt \<Rightarrow> bool" where
  "fair ctx a \<longleftrightarrow> ctx_cache ctx = Some C \<and> valid (at_key a) \<and>
     (\<forall>w x w'. h_settle (at_handler a) (at_payment a) (at_offer a) (at_payer a) (at_nonce a) w = (x, w') \<longrightarrow>
        now w' = now w \<and> (\<forall>j. valid j \<longrightarrow> stored j w' = stored j w \<and> locked j w' = locked j w) \<and>
        (\<forall>tx. x = Inr (Settled tx) \<longrightarrow> issues storable ctx a tx))"

text \<open>Time passes: entries that expire are gone, and no lock expires under a contender that holds it.\<close>

definition passes :: "'w race \<Rightarrow> 'w \<Rightarrow> bool" where
  "passes s w' \<longleftrightarrow> now (ra_world s) \<le> now w' \<and>
     (\<forall>j. valid j \<longrightarrow> stored j w' = unexpired (now w') (stored j (ra_world s))) \<and>
     (\<forall>e\<in>set (ra_contenders s). holding (co_pc e) \<longrightarrow> locked (co_key e) w')"

text \<open>What one segment may do to the payment's entry and lock.\<close>

definition moves :: "string \<Rightarrow> attempt_pc \<Rightarrow> 'w \<Rightarrow> attempt_pc \<Rightarrow> 'w \<Rightarrow> bool" where
  "moves k pc w pc' w' \<longleftrightarrow> now w' = now w \<and>
     (\<forall>j. valid j \<and> j \<noteq> k \<longrightarrow> stored j w' = stored j w \<and> locked j w' = locked j w) \<and>
     (holding pc' \<longrightarrow> locked k w' \<and> (holding pc \<or> \<not> locked k w)) \<and>
     (stored k w' = stored k w \<or> holding pc \<and> (\<exists>r. stored k w' = Some (r, now w + ttl))) \<and>
     (cleared pc' \<longrightarrow> stored k w' = None) \<and>
     (unrecorded pc \<longrightarrow> unrecorded pc' \<or> (\<exists>r. stored k w' = Some (r, now w + ttl))) \<and>
     (newly_settled k pc' \<noteq> [] \<longrightarrow> cleared pc \<and> unrecorded pc') \<and>
     (\<not> holding pc \<longrightarrow> locked k w \<longrightarrow> locked k w')"

lemma conclude_moves:
  assumes "fair ctx a" "holding pc" "\<not> unrecorded pc"
    and "conclude ctx (at_key a) True res w = (pc', w')"
  shows "pc_ok storable ctx a pc' \<and> moves (at_key a) pc w pc' w'"
proof -
  have rel: "at_release ctx = release"
    by (rule ext, rule ext) (use assms(1) locks(2) in \<open>simp add: at_release_def fair_def\<close>)
  obtain x v where x: "release (at_key a) w = (x, v)" by (rule prod.exhaust)
  have "valid (at_key a)" using assms(1) by (simp add: fair_def)
  with releases [OF this x] assms show ?thesis
    by (auto simp: conclude_def rel x moves_def split: sum.splits)
qed

lemma settle_moves:
  assumes f: "fair ctx a" and s: "call_settle a True w = (pc', w')" and pc: "cleared pc" "stored (at_key a) w = None" "locked (at_key a) w"
  shows "pc_ok storable ctx a pc' \<and> moves (at_key a) pc w pc' w'"
proof -
  obtain x v where x: "h_settle (at_handler a) (at_payment a) (at_offer a) (at_payer a) (at_nonce a) w = (x, v)" by (rule prod.exhaust)
  from f x have fr: "now v = now w" "\<forall>j. valid j \<longrightarrow> stored j v = stored j w \<and> locked j v = locked j w" "\<forall>tx. x = Inr (Settled tx) \<longrightarrow> issues storable ctx a tx"
    and k: "valid (at_key a)" unfolding fair_def by blast+
  have e: "pc' = At_settle True x" "w' = v" using s by (simp_all add: call_settle_def x)
  have "holding pc" "\<not> unrecorded pc" using pc(1) by (cases pc; simp)+
  with fr k pc newly_settled_unrecorded show ?thesis by (simp add: e moves_def)
qed

lemma resume_moves:
  assumes f: "fair ctx a" and s: "attempt_resume ctx a pc w = (pc', w')" and ok: "pc_ok storable ctx a pc"
    and h: "holding pc \<Longrightarrow> locked (at_key a) w" and c: "cleared pc \<Longrightarrow> stored (at_key a) w = None"
  shows "pc_ok storable ctx a pc' \<and> moves (at_key a) pc w pc' w'"
proof -
  have C: "ctx_cache ctx = Some C" and k: "valid (at_key a)" using f by (simp_all add: fair_def)
  note defs = s [unfolded attempt_resume_def] C locks
  note conclude = conclude_moves [OF f]
  have stay: "pc_ok storable ctx a (At_done res) \<and> moves (at_key a) q v (At_done res) v" if "\<not> unrecorded q" for res q v
    using that by (simp add: moves_def)
  show ?thesis
  proof (cases pc)
    case At_called
    obtain x v where x: "cache_get C (at_key a) w = (x, v)" by (rule prod.exhaust)
    from get [OF k x] k defs At_called show ?thesis by (auto simp: x moves_def)
  next
    case (At_get x)
    show ?thesis
    proof (cases x)
      case (Inl e)
      with defs At_get show ?thesis by (auto intro!: stay)
    next
      case (Inr found)
      show ?thesis
      proof (cases found)
        case None
        obtain b v where b: "acquire (at_key a) SETTLEMENT_LOCK_TTL_MS w = (b, v)" by (rule prod.exhaust)
        from acquires [OF k b] k defs At_get Inr None show ?thesis by (auto simp: b moves_def)
      next
        case (Some r)
        with defs At_get Inr show ?thesis by (auto intro!: stay)
      qed
    qed
  next
    case (At_acquire x)
    show ?thesis
    proof (cases x)
      case (Inl e)
      with defs At_acquire show ?thesis by (auto intro!: stay)
    next
      case (Inr held)
      show ?thesis
      proof (cases held)
        case False
        with defs At_acquire Inr show ?thesis by (auto intro!: stay)
      next
        case True
        obtain y v where y: "cache_get C (at_key a) w = (y, v)" by (rule prod.exhaust)
        from get [OF k y] k h defs At_acquire Inr True show ?thesis by (auto simp: y moves_def)
      qed
    qed
  next
    case (At_recheck x)
    show ?thesis
    proof (cases x)
      case (Inl e)
      with defs At_recheck conclude [of pc _ w] show ?thesis by auto
    next
      case (Inr found)
      show ?thesis
      proof (cases found)
        case None
        with defs At_recheck Inr settle_moves [OF f, of w pc' w' pc] c h show ?thesis by auto
      next
        case (Some r)
        with defs At_recheck Inr conclude [of pc _ w] show ?thesis by auto
      qed
    qed
  next
    case (At_settle l x)
    with ok have l: "l" by simp
    show ?thesis
    proof (cases x)
      case (Inl e)
      with defs At_settle l conclude [of pc _ w] show ?thesis by auto
    next
      case (Inr answer)
      show ?thesis
      proof (cases answer)
        case (Settled tx)
        with ok At_settle Inr have "issues storable ctx a tx" by simp
        then obtain r where r: "issue_receipt ctx (at_offer a) (at_model a) (at_payer a) tx w = Inr r" "storable r"
          unfolding issues_def by blast
        with defs At_settle Inr Settled h l show ?thesis by (auto simp: moves_def)
      next
        case (Not_settled reason)
        with defs At_settle Inr l conclude [of pc _ w] show ?thesis by auto
      qed
    qed
  next
    case (At_sign l x)
    with ok obtain r where r: "x = Inr r" "storable r" "l" by auto
    obtain y v where y: "cache_set C (at_key a) r w = (y, v)" by (rule prod.exhaust)
    from set [OF k r(2) y] k defs At_sign r h show ?thesis by (auto simp: y moves_def)
  next
    case (At_set l r x)
    with ok defs conclude [of pc _ w] show ?thesis by auto
  next
    case (At_failed_release e x)
    with defs show ?thesis by (cases x) (auto intro!: stay)
  next
    case (At_release r x)
    with ok defs show ?thesis by (auto simp: release_after_def intro!: stay)
  next
    case (At_done res)
    with defs show ?thesis by (auto intro!: stay)
  qed
qed

subsection \<open>The invariant of a race\<close>

definition contender_ok :: "'w contender \<Rightarrow> 'w \<Rightarrow> bool" where
  "contender_ok e w \<longleftrightarrow>
     fair (co_ctx e) (co_attempt e) \<and> pc_ok storable (co_ctx e) (co_attempt e) (co_pc e) \<and>
     (holding (co_pc e) \<longrightarrow> locked (co_key e) w) \<and> (cleared (co_pc e) \<longrightarrow> stored (co_key e) w = None)"

text \<open>A settlement of \<open>k\<close> at \<open>t\<close> is past its lifetime, stored for the rest of it, or about to be stored.\<close>

definition recorded :: "'w race \<Rightarrow> string \<Rightarrow> int \<Rightarrow> bool" where
  "recorded s k t \<longleftrightarrow> t + ttl \<le> now (ra_world s) \<or> (\<exists>r d. stored k (ra_world s) = Some (r, d) \<and> t + ttl \<le> d) \<or>
     (\<exists>e\<in>set (ra_contenders s). co_key e = k \<and> unrecorded (co_pc e))"

definition race_ok :: "'w race \<Rightarrow> bool" where
  "race_ok s \<longleftrightarrow>
     (\<forall>e\<in>set (ra_contenders s). contender_ok e (ra_world s)) \<and>
     (\<forall>i<length (ra_contenders s). \<forall>j<length (ra_contenders s). i \<noteq> j \<and> holding (co_pc (ra_contenders s ! i)) \<and>
        holding (co_pc (ra_contenders s ! j)) \<longrightarrow> co_key (ra_contenders s ! i) \<noteq> co_key (ra_contenders s ! j)) \<and>
     (\<forall>(k, t)\<in>set (ra_settled s). valid k \<and> t \<le> now (ra_world s) \<and> recorded s k t) \<and> sorted_wrt (apart ttl) (ra_settled s)"

lemma unrecorded_holding: "pc_ok st ctx a pc \<Longrightarrow> unrecorded pc \<Longrightarrow> holding pc"
  by (cases "(st, ctx, a, pc)" rule: pc_ok.cases) auto

lemma cleared_holding: "cleared pc \<Longrightarrow> holding pc \<and> \<not> unrecorded pc"
  by (cases pc) auto

lemma newly_settled_set: "set (newly_settled k pc) \<subseteq> {k}" "distinct (newly_settled k pc)"
  by (induction k pc rule: newly_settled.induct) simp_all

lemma contender_ok_passes: "passes s w \<Longrightarrow> e \<in> set (ra_contenders s) \<Longrightarrow> contender_ok e (ra_world s) \<Longrightarrow> contender_ok e w"
  by (auto simp: contender_ok_def passes_def fair_def co_key_def)

lemma recorded_passes: "passes s w \<Longrightarrow> valid k \<Longrightarrow> recorded s k t \<Longrightarrow> recorded (s\<lparr>ra_world := w\<rparr>) k t"
  by (fastforce simp: recorded_def passes_def)

lemma race_ok_elsewhere:
  assumes "race_ok s" "passes s w" shows "race_ok (s\<lparr>ra_world := w\<rparr>)"
proof -
  have "now (ra_world s) \<le> now w" using assms(2) by (simp add: passes_def)
  with assms contender_ok_passes [OF assms(2)] recorded_passes [OF assms(2)] show ?thesis
    unfolding race_ok_def by fastforce
qed

lemma race_ok_enter:
  assumes "race_ok s" "fair ctx a" shows "race_ok (enter_race ctx a s)"
proof -
  let ?e = "\<lparr>co_ctx = ctx, co_attempt = a, co_pc = At_called\<rparr>"
  have "contender_ok ?e (ra_world s)" using assms(2) by (simp add: contender_ok_def)
  moreover have "recorded s k t \<Longrightarrow> recorded (enter_race ctx a s) k t" for k t by (auto simp: recorded_def enter_race_def)
  ultimately show ?thesis using assms(1)
    by (auto simp: race_ok_def enter_race_def nth_append less_Suc_eq)
qed

text \<open>One segment of contender \<open>i\<close>, whose attempt goes on to \<open>pc\<close> in \<open>w\<close>.\<close>

definition next_segment :: "nat \<Rightarrow> 'w race \<Rightarrow> attempt_pc \<Rightarrow> 'w \<Rightarrow> bool" where
  "next_segment i s pc w \<longleftrightarrow> race_ok s \<and> i < length (ra_contenders s) \<and>
     attempt_resume (co_ctx (ra_contenders s ! i)) (co_attempt (ra_contenders s ! i)) (co_pc (ra_contenders s ! i)) (ra_world s) = (pc, w)"

lemma advance_fields:
  assumes "next_segment i s pc w"
  shows "ra_contenders (advance now i s) = (ra_contenders s)[i := (ra_contenders s ! i)\<lparr>co_pc := pc\<rparr>]"
    "ra_settled (advance now i s) = ra_settled s @ map (\<lambda>k. (k, now w)) (newly_settled (co_key (ra_contenders s ! i)) pc)" "ra_world (advance now i s) = w"
    "length (ra_contenders (advance now i s)) = length (ra_contenders s)" "i < length (ra_contenders s)"
  using assms by (simp_all add: next_segment_def advance_def Let_def)

lemma segment_moves:
  assumes "next_segment i s pc w"
  shows "contender_ok ((ra_contenders s ! i)\<lparr>co_pc := pc\<rparr>) w"
    and "moves (co_key (ra_contenders s ! i)) (co_pc (ra_contenders s ! i)) (ra_world s) pc w"
    and "contender_ok (ra_contenders s ! i) (ra_world s)" and "valid (co_key (ra_contenders s ! i))"
proof -
  let ?e = "ra_contenders s ! i"
  show e: "contender_ok ?e (ra_world s)" using assms by (simp add: next_segment_def race_ok_def)
  then show "valid (co_key ?e)" by (simp add: contender_ok_def fair_def co_key_def)
  have "pc_ok storable (co_ctx ?e) (co_attempt ?e) pc \<and> moves (at_key (co_attempt ?e)) (co_pc ?e) (ra_world s) pc w"
    by (rule resume_moves) (use assms e in \<open>simp_all add: next_segment_def contender_ok_def co_key_def\<close>)
  with e show "moves (co_key ?e) (co_pc ?e) (ra_world s) pc w" "contender_ok (?e\<lparr>co_pc := pc\<rparr>) w"
    by (simp_all add: contender_ok_def moves_def co_key_def)
qed

lemma segment_excludes:
  assumes "next_segment i s pc w" "j < length (ra_contenders s)" "j \<noteq> i" "co_key (ra_contenders s ! j) = co_key (ra_contenders s ! i)"
  shows "\<not> (holding (co_pc (ra_contenders s ! i)) \<and> holding (co_pc (ra_contenders s ! j)))"
    and "holding (co_pc (ra_contenders s ! j)) \<Longrightarrow> \<not> holding pc"
proof -
  from assms show one: "\<not> (holding (co_pc (ra_contenders s ! i)) \<and> holding (co_pc (ra_contenders s ! j)))"
    unfolding next_segment_def race_ok_def by metis
  assume h: "holding (co_pc (ra_contenders s ! j))"
  with assms have "locked (co_key (ra_contenders s ! i)) (ra_world s)"
    by (auto simp: next_segment_def race_ok_def contender_ok_def)
  with h one segment_moves(2) [OF assms(1)] show "\<not> holding pc" by (auto simp: moves_def)
qed

lemma segment_others:
  assumes "next_segment i s pc w" "j < length (ra_contenders s)" "j \<noteq> i"
  shows "contender_ok (ra_contenders s ! j) w"
proof -
  have c: "contender_ok (ra_contenders s ! j) (ra_world s)" using assms by (simp add: next_segment_def race_ok_def)
  note m = segment_moves(2) [OF assms(1)]
  show ?thesis
  proof (cases "co_key (ra_contenders s ! j) = co_key (ra_contenders s ! i)")
    case True
    with c m segment_excludes(1) [OF assms True] cleared_holding show ?thesis by (auto simp: contender_ok_def moves_def)
  next
    case False
    with c m show ?thesis by (auto simp: contender_ok_def moves_def fair_def co_key_def)
  qed
qed

lemma segment_self: "next_segment i s pc w \<Longrightarrow> (ra_contenders s ! i)\<lparr>co_pc := pc\<rparr> \<in> set (ra_contenders (advance now i s))"
  by (simp add: advance_fields set_update_memI)

lemma segment_recorded:
  assumes n: "next_segment i s pc w" and "valid j" "t \<le> now (ra_world s)" "recorded s j t"
  shows "recorded (advance now i s) j t"
proof -
  note m = segment_moves(2) [OF n]
  have w: "ra_world (advance now i s) = w" "now w = now (ra_world s)" using m advance_fields(3) [OF n] by (simp_all add: moves_def)
  from assms(4) consider "t + ttl \<le> now (ra_world s)"
    | r d where "stored j (ra_world s) = Some (r, d)" "t + ttl \<le> d"
    | x where "x \<in> set (ra_contenders s)" "co_key x = j" "unrecorded (co_pc x)"
    unfolding recorded_def by blast
  then show ?thesis
  proof cases
    case 2
    with m assms(2,3) have "\<exists>r d. stored j w = Some (r, d) \<and> t + ttl \<le> d"
      by (cases "j = co_key (ra_contenders s ! i)") (auto simp: moves_def)
    then show ?thesis by (simp add: recorded_def w)
  next
    case 3
    then obtain l where l: "l < length (ra_contenders s)" "x = ra_contenders s ! l" by (metis in_set_conv_nth)
    show ?thesis
    proof (cases "l = i")
      case True
      with l 3 m have "unrecorded pc \<or> (\<exists>r. stored j w = Some (r, now (ra_world s) + ttl))" by (simp add: moves_def)
      with segment_self [OF n] True l 3 assms(3) show ?thesis by (force simp: recorded_def w co_key_def)
    next
      case False
      then have "x \<in> set (ra_contenders (advance now i s))"
        using l by (metis advance_fields(1,4) [OF n] nth_list_update_neq nth_mem)
      with 3 show ?thesis by (auto simp: recorded_def)
    qed
  qed (simp add: recorded_def w)
qed

lemma segment_fresh:
  assumes n: "next_segment i s pc w" and new: "newly_settled (co_key (ra_contenders s ! i)) pc \<noteq> []"
  shows "(co_key (ra_contenders s ! i), t) \<in> set (ra_settled s) \<Longrightarrow> t + ttl \<le> now w"
    and "recorded (advance now i s) (co_key (ra_contenders s ! i)) t'"
proof -
  let ?k = "co_key (ra_contenders s ! i)"
  note m = segment_moves(2) [OF n]
  from m new have c: "cleared (co_pc (ra_contenders s ! i))" "unrecorded pc" by (auto simp: moves_def)
  have none: "stored ?k (ra_world s) = None" using segment_moves(3) [OF n] c(1) by (simp add: contender_ok_def)
  show "recorded (advance now i s) ?k t'" using segment_self [OF n] c(2) by (force simp: recorded_def co_key_def)
  assume "(?k, t) \<in> set (ra_settled s)"
  with n have "recorded s ?k t" unfolding next_segment_def race_ok_def by blast
  moreover have False if x: "x \<in> set (ra_contenders s)" "co_key x = ?k" "unrecorded (co_pc x)" for x
  proof -
    from x obtain l where l: "l < length (ra_contenders s)" "x = ra_contenders s ! l" by (metis in_set_conv_nth)
    have "contender_ok x (ra_world s)" using n x(1) by (simp add: next_segment_def race_ok_def)
    then have "holding (co_pc x)" using unrecorded_holding x(3) unfolding contender_ok_def by blast
    with segment_excludes(1) [OF n l(1)] l x cleared_holding [OF c(1)] show False by (cases "l = i") auto
  qed
  ultimately show "t + ttl \<le> now w" using none m by (auto simp: recorded_def moves_def)
qed

lemma segment_exclusive:
  assumes n: "next_segment i s pc w" and ab: "a < length (ra_contenders s)" "b < length (ra_contenders s)" "a \<noteq> b"
    and h: "holding (co_pc (ra_contenders (advance now i s) ! a))" "holding (co_pc (ra_contenders (advance now i s) ! b))"
  shows "co_key (ra_contenders (advance now i s) ! a) \<noteq> co_key (ra_contenders (advance now i s) ! b)"
proof -
  note f = advance_fields [OF n]
  have key: "co_key ((ra_contenders s ! i)\<lparr>co_pc := pc\<rparr>) = co_key (ra_contenders s ! i)" by (simp add: co_key_def)
  show ?thesis
  proof (cases "a = i \<or> b = i")
    case True
    with ab h segment_excludes(2) [OF n, of a] segment_excludes(2) [OF n, of b] key f show ?thesis by auto
  next
    case False
    with ab h n show ?thesis unfolding next_segment_def race_ok_def by (simp add: f)
  qed
qed

lemma race_ok_advance:
  assumes "race_ok s" "i < length (ra_contenders s)"
  shows "race_ok (advance now i s)"
proof -
  let ?k = "co_key (ra_contenders s ! i)"
  obtain pc w where n: "next_segment i s pc w" using assms unfolding next_segment_def by fastforce
  note f = advance_fields [OF n]
  have w: "now w = now (ra_world s)" using segment_moves(2) [OF n] by (simp add: moves_def)
  show ?thesis unfolding race_ok_def
  proof (intro conjI ballI allI impI)
    fix x assume "x \<in> set (ra_contenders (advance now i s))"
    then obtain l where "l < length (ra_contenders s)" "x = (ra_contenders s)[i := (ra_contenders s ! i)\<lparr>co_pc := pc\<rparr>] ! l"
      by (metis in_set_conv_nth f(1,4))
    with segment_moves(1) [OF n] segment_others [OF n] f(3) show "contender_ok x (ra_world (advance now i s))" by (cases "l = i") auto
  next
    fix e assume e: "e \<in> set (ra_settled (advance now i s))"
    obtain k t where kt: "e = (k, t)" by (rule prod.exhaust)
    with e have "(k, t) \<in> set (ra_settled s) \<or> k = ?k \<and> t = now w \<and> newly_settled ?k pc \<noteq> []"
      using newly_settled_set(1) [of ?k pc] unfolding f(2) by auto
    with assms(1) segment_recorded [OF n] segment_fresh(2) [OF n] segment_moves(4) [OF n] w f(3)
    show "case e of (k, t) \<Rightarrow> valid k \<and> t \<le> now (ra_world (advance now i s)) \<and> recorded (advance now i s) k t"
      unfolding race_ok_def kt by force
  next
    have "sorted_wrt (apart ttl) (ra_settled s)" using assms(1) by (simp add: race_ok_def)
    moreover have "newly_settled ?k pc = [] \<or> newly_settled ?k pc = [?k]"
      by (induction ?k pc rule: newly_settled.induct) simp_all
    ultimately show "sorted_wrt (apart ttl) (ra_settled (advance now i s))"
      using segment_fresh(1) [OF n] unfolding f(2) by (auto simp: sorted_wrt_append apart_def)
  qed (use segment_exclusive [OF n] f(4) in auto)
qed

lemma race_ok_reachable: "race_reachable now fair passes s \<Longrightarrow> race_ok s"
  unfolding race_reachable_def
proof (elim exE)
  fix w assume "(race_step now fair passes)\<^sup>*\<^sup>* (new_race w) s"
  then show "race_ok s"
  proof (induction rule: rtranclp_induct)
    case base
    show ?case by (simp add: race_ok_def new_race_def)
  next
    case (step s s')
    from step.hyps(2) step.IH show ?case
      by cases (auto intro: race_ok_enter race_ok_advance race_ok_elsewhere)
  qed
qed

lemma settling_once:
  assumes "race_reachable now fair passes s"
  shows "sorted_wrt (apart ttl) (ra_settled s)"
    and "i < length (ra_contenders s) \<Longrightarrow> j < length (ra_contenders s) \<Longrightarrow> i \<noteq> j \<Longrightarrow>
      settling (co_pc (ra_contenders s ! i)) \<Longrightarrow> settling (co_pc (ra_contenders s ! j)) \<Longrightarrow>
      co_key (ra_contenders s ! i) \<noteq> co_key (ra_contenders s ! j)"
proof -
  from race_ok_reachable [OF assms] have ok: "race_ok s" .
  then show "sorted_wrt (apart ttl) (ra_settled s)" by (simp add: race_ok_def)
  have "holding (co_pc (ra_contenders s ! n))" if "n < length (ra_contenders s)" "settling (co_pc (ra_contenders s ! n))" for n
  proof -
    from ok that(1) have "contender_ok (ra_contenders s ! n) (ra_world s)" by (simp add: race_ok_def)
    with that(2) show ?thesis by (cases "co_pc (ra_contenders s ! n)") (auto simp: contender_ok_def)
  qed
  with ok show "i < length (ra_contenders s) \<Longrightarrow> j < length (ra_contenders s) \<Longrightarrow> i \<noteq> j \<Longrightarrow>
      settling (co_pc (ra_contenders s ! i)) \<Longrightarrow> settling (co_pc (ra_contenders s ! j)) \<Longrightarrow>
      co_key (ra_contenders s ! i) \<noteq> co_key (ra_contenders s ! j)"
    unfolding race_ok_def by blast
qed

end

end
