(* ===== verification/LockingProofs.thy ===== *)
theory LockingProofs
  imports Locking DemoProofs
begin

text \<open>
  The cache over a Redis server is a cache with locks, so gates of any number of processes that share it settle a
  payment at most once in the lifetime of its receipt, as long as no lock expires under its holder; one that does
  lets two processes settle at the same time.
\<close>

subsection \<open>The Redis server\<close>

definition redis_prefix :: "'w redis_options \<Rightarrow> string" where
  "redis_prefix opts = or_default (redis_keyPrefix opts) DEFAULT_REDIS_KEY_PREFIX"

definition readable :: "(string \<Rightarrow> json result) \<Rightarrow> (json \<Rightarrow> issue list + signed_receipt) \<Rightarrow> signed_receipt \<Rightarrow> bool" where
  "readable json_parse safeParse r \<longleftrightarrow> redis_lookup json_parse safeParse (Some (json_stringify (signed_json r))) = Some r"

text \<open>No payment's key starts like the key of a lock.\<close>

definition payment_key :: "string \<Rightarrow> bool" where
  "payment_key k \<longleftrightarrow> take 5 k \<noteq> ''lock:''"

lemma settlement_key_payment: "payment_key (settlement_key model nonce)"
  by (cases model) (simp_all add: payment_key_def settlement_key_def)

text \<open>What a server promises: \<open>kept\<close> is what it stores, with the time of expiry, and \<open>now\<close> its clock in milliseconds. A
  command with \<open>EX\<close> gives the entry a life in seconds, one with \<open>PX\<close> in milliseconds.\<close>

locale redis_server =
  fixes opts :: "'w redis_options" and now :: "'w \<Rightarrow> int" and kept :: "'w \<Rightarrow> (string, string \<times> int) js_map"
  assumes gets: "redis_get (redis_client opts) k w = (x, w') \<Longrightarrow>
      x = Inr (map_option fst (kept w k)) \<and> kept w' = kept w \<and> now w' = now w"
    and sets: "redis_set_ex (redis_client opts) k v t w = (y, w') \<Longrightarrow> 0 < t \<Longrightarrow>
      y = Inr () \<and> kept w' = (kept w)(k \<mapsto> (v, now w + 1000 * t)) \<and> now w' = now w"
    and sets_nx: "redis_set_nx (redis_client opts) k v t w = (z, w') \<Longrightarrow> 0 < t \<Longrightarrow> now w' = now w \<and>
      (if kept w k = None then z = Inr (Some ''OK'') \<and> kept w' = (kept w)(k \<mapsto> (v, now w + t))
       else z = Inr None \<and> kept w' = kept w)"
    and dels: "redis_del (redis_client opts) k w = (y, w') \<Longrightarrow>
      y = Inr () \<and> kept w' = (kept w)(k := None) \<and> now w' = now w"

definition redis_receipt ::
  "(string \<Rightarrow> json result) \<Rightarrow> (json \<Rightarrow> issue list + signed_receipt) \<Rightarrow> 'w redis_options \<Rightarrow> ('w \<Rightarrow> (string, string \<times> int) js_map) \<Rightarrow>
   string \<Rightarrow> 'w \<Rightarrow> (signed_receipt \<times> int) option" where
  "redis_receipt json_parse safeParse opts kept k w =
     (case kept w (redis_prefix opts @ k) of
        None \<Rightarrow> None
      | Some (raw, d) \<Rightarrow> map_option (\<lambda>r. (r, d)) (redis_lookup json_parse safeParse (Some raw)))"

definition redis_locked :: "'w redis_options \<Rightarrow> ('w \<Rightarrow> (string, string \<times> int) js_map) \<Rightarrow> string \<Rightarrow> 'w \<Rightarrow> bool" where
  "redis_locked opts kept k w \<longleftrightarrow> kept w (redis_prefix opts @ ''lock:'' @ k) \<noteq> None"

text \<open>How long a receipt lives, in milliseconds: the option, in whole seconds and at least one.\<close>

definition redis_lifetime :: "'w redis_options \<Rightarrow> int" where
  "redis_lifetime opts = 1000 * max 1 (ceil_div (or_default (redis_ttlMs opts) DEFAULT_REDIS_TTL_MS) 1000)"

lemma redis_receipt_lookup:
  "map_option fst (redis_receipt json_parse safeParse opts kept k w) =
     redis_lookup json_parse safeParse (map_option fst (kept w (redis_prefix opts @ k)))"
  by (cases "kept w (redis_prefix opts @ k)")
    (auto simp: redis_receipt_def redis_lookup_def option.map_comp comp_def option.map_id [unfolded id_def] split: prod.splits)

text \<open>Time passes on the server; and it passes without a lock that expires under a contender that holds it.\<close>

definition expires :: "('w \<Rightarrow> int) \<Rightarrow> ('w \<Rightarrow> (string, string \<times> int) js_map) \<Rightarrow> 'w race \<Rightarrow> 'w \<Rightarrow> bool" where
  "expires now kept s w \<longleftrightarrow> now (ra_world s) \<le> now w \<and> (\<forall>k. kept w k = unexpired (now w) (kept (ra_world s) k))"

definition in_time :: "'w redis_options \<Rightarrow> ('w \<Rightarrow> int) \<Rightarrow> ('w \<Rightarrow> (string, string \<times> int) js_map) \<Rightarrow> 'w race \<Rightarrow> 'w \<Rightarrow> bool" where
  "in_time opts now kept s w \<longleftrightarrow> expires now kept s w \<and>
     (\<forall>e\<in>set (ra_contenders s). holding (co_pc e) \<longrightarrow> redis_locked opts kept (co_key e) w)"

lemma redis_receipt_unexpired:
  "kept w' (redis_prefix opts @ k) = unexpired t (kept w (redis_prefix opts @ k)) \<Longrightarrow>
    redis_receipt json_parse safeParse opts kept k w' = unexpired t (redis_receipt json_parse safeParse opts kept k w)"
  by (cases "kept w (redis_prefix opts @ k)")
    (auto simp: redis_receipt_def redis_lookup_def unexpired_def map_option_case split: option.splits if_splits sum.splits)

lemma payment_key_lock: "payment_key k \<Longrightarrow> k \<noteq> ''lock:'' @ j"
  by (auto simp: payment_key_def)

sublocale redis_server \<subseteq> redis: locking_cache "createRedisSettlementCache json_parse safeParse opts" now "redis_lifetime opts"
  "redis_receipt json_parse safeParse opts kept" "redis_locked opts kept" payment_key "readable json_parse safeParse"
  "the (cache_acquire (createRedisSettlementCache json_parse safeParse opts))"
  "the (cache_release (createRedisSettlementCache json_parse safeParse opts))" for json_parse safeParse
proof (unfold_locales, goal_cases)
  case (3 k w x w')
  then obtain raw where "redis_get (redis_client opts) (redis_prefix opts @ k) w = (raw, w')"
    "x = map_sum id (redis_lookup json_parse safeParse) raw"
    by (auto simp: createRedisSettlementCache_def redis_prefix_def Let_def split: prod.splits sum.splits)
  with gets [OF this(1)] show ?case by (simp add: redis_receipt_lookup) (simp add: redis_receipt_def redis_locked_def)
next
  case (4 k r w y w')
  let ?t = "max 1 (ceil_div (or_default (redis_ttlMs opts) DEFAULT_REDIS_TTL_MS) 1000)"
  have "redis_set_ex (redis_client opts) (redis_prefix opts @ k) (json_stringify (signed_json r)) ?t w = (y, w')"
    using 4(3) by (simp add: createRedisSettlementCache_def redis_prefix_def Let_def)
  from sets [OF this] 4 payment_key_lock show ?case
    by (auto simp: redis_receipt_def redis_locked_def readable_def redis_lifetime_def)
next
  case (5 k t w b w')
  obtain z v where z: "redis_set_nx (redis_client opts) (redis_prefix opts @ ''lock:'' @ k) ''1'' (max 1 t) w = (z, v)" by (rule prod.exhaust)
  have "b = map_sum id (\<lambda>reply. reply = Some ''OK'') z \<and> v = w'"
    using 5(2) z unfolding redis_prefix_def by (cases z) (simp_all add: createRedisSettlementCache_def Let_def)
  moreover have "(0 :: int) < max 1 t" by simp
  ultimately show ?case
    using sets_nx [OF z] 5(1) payment_key_lock by (cases "kept w (redis_prefix opts @ ''lock:'' @ k) = None") (auto simp: redis_receipt_def redis_locked_def)
next
  case (6 k w y w')
  then have "redis_del (redis_client opts) (redis_prefix opts @ ''lock:'' @ k) w = (y, w')"
    by (simp add: createRedisSettlementCache_def redis_prefix_def Let_def)
  from dels [OF this] 6 payment_key_lock show ?case by (auto simp: redis_receipt_def redis_locked_def)
qed (simp_all add: createRedisSettlementCache_def Let_def)

context redis_server begin

lemma locking: "locking_cache (createRedisSettlementCache json_parse safeParse opts) now (redis_lifetime opts)
  (redis_receipt json_parse safeParse opts kept) (redis_locked opts kept) payment_key (readable json_parse safeParse)
  (the (cache_acquire (createRedisSettlementCache json_parse safeParse opts)))
  (the (cache_release (createRedisSettlementCache json_parse safeParse opts)))"
  by (rule redis.locking_cache_axioms)

end

subsection \<open>Property\<close>

text \<open>An attempt of a gate over the Redis cache whose handler leaves the server's entries alone, and whose
  settlements can be issued as receipts that are read back.\<close>

definition redis_contender ::
  "(string \<Rightarrow> json result) \<Rightarrow> (json \<Rightarrow> issue list + signed_receipt) \<Rightarrow> 'w redis_options \<Rightarrow> ('w \<Rightarrow> int) \<Rightarrow>
   ('w \<Rightarrow> (string, string \<times> int) js_map) \<Rightarrow> 'w settlement_context \<Rightarrow> 'w attempt \<Rightarrow> bool" where
  "redis_contender json_parse safeParse opts now kept ctx a \<longleftrightarrow>
     ctx_cache ctx = Some (createRedisSettlementCache json_parse safeParse opts) \<and>
     at_key a = settlement_key (at_model a) (at_nonce a) \<and>
     (\<forall>w x w'. h_settle (at_handler a) (at_payment a) (at_offer a) (at_payer a) (at_nonce a) w = (x, w') \<longrightarrow>
        now w' = now w \<and> kept w' = kept w \<and> (\<forall>tx. x = Inr (Settled tx) \<longrightarrow> issues (readable json_parse safeParse) ctx a tx))"

text \<open>No payment is settled twice within the lifetime of its receipt, and no two contenders settle one at a time.\<close>

lemma redis_settles_once:
  assumes "redis_server opts now kept"
    and "race_reachable now (redis_contender json_parse safeParse opts now kept) (in_time opts now kept) s"
  shows "sorted_wrt (apart (redis_lifetime opts)) (ra_settled s) \<and>
    (\<forall>i j. i < length (ra_contenders s) \<and> j < length (ra_contenders s) \<and> i \<noteq> j \<and>
       settling (co_pc (ra_contenders s ! i)) \<and> settling (co_pc (ra_contenders s ! j)) \<longrightarrow>
       co_key (ra_contenders s ! i) \<noteq> co_key (ra_contenders s ! j))"
proof -
  let ?C = "createRedisSettlementCache json_parse safeParse opts"
  let ?stored = "redis_receipt json_parse safeParse opts kept"
  note cache = redis_server.locking [OF assms(1), of json_parse safeParse]
  have "race_reachable now (locking_cache.fair ?C now ?stored (redis_locked opts kept) payment_key (readable json_parse safeParse))
      (locking_cache.passes now ?stored (redis_locked opts kept) payment_key) s"
    by (rule race_reachable_mono [OF assms(2)])
      (auto simp: locking_cache.fair_def [OF cache] locking_cache.passes_def [OF cache] redis_contender_def settlement_key_payment
        redis_locked_def redis_receipt_def in_time_def expires_def intro!: redis_receipt_unexpired [unfolded redis_receipt_def])
  from locking_cache.settling_once [OF cache this] show ?thesis by blast
qed

subsection \<open>A server\<close>

type_synonym timed_map = "(string, string \<times> int) js_map \<times> int"

definition timed_live :: "timed_map \<Rightarrow> (string, string \<times> int) js_map" where
  "timed_live w k = unexpired (snd w) (fst w k)"

definition map_client :: "timed_map redis_client" where
  "map_client =
     \<lparr>redis_get = (\<lambda>k w. (Inr (map_option fst (timed_live w k)), w)),
      redis_set_ex = (\<lambda>k v t w. (Inr (), ((fst w)(k \<mapsto> (v, snd w + 1000 * t)), snd w))),
      redis_set_nx = (\<lambda>k v t w. if timed_live w k = None then (Inr (Some ''OK''), ((fst w)(k \<mapsto> (v, snd w + t)), snd w)) else (Inr None, w)),
      redis_del = (\<lambda>k w. (Inr (), ((fst w)(k := None), snd w)))\<rparr>"

definition map_options :: "timed_map redis_options" where
  "map_options = \<lparr>redis_client = map_client, redis_ttlMs = None, redis_keyPrefix = None\<rparr>"

interpretation map_server: redis_server map_options snd timed_live
  by unfold_locales (auto simp: map_options_def map_client_def timed_live_def fun_eq_iff split: if_splits)

abbreviation sample_redis :: "timed_map settlement_cache" where
  "sample_redis \<equiv> createRedisSettlementCache (pf_json_parse sample_platform) (pf_safeParse sample_platform) map_options"

definition sample_attempt :: "timed_map attempt" where
  "sample_attempt =
     \<lparr>at_handler = createMockFacilitator, at_payment = X402Payment ''sig'', at_offer = x402_offer, at_model = X402,
      at_payer = ''GA'', at_nonce = ''n1'', at_key = settlement_key X402 ''n1''\<rparr>"

lemma sample_readable:
  assumes "issue_receipt (sample_ctx cache) offer m payer tx w = Inr r"
  shows "readable (pf_json_parse sample_platform) (pf_safeParse sample_platform) r"
proof -
  from assms obtain b where "signReceipt (\<lambda>_. []) (\<lambda>_. True) b sample_signer = Inr r"
    by (auto simp: issue_receipt_def sample_ctx_def split: sum.splits)
  then have "signed_issues (\<lambda>_. ''invalid'') (\<lambda>_. True) r = []"
    by (rule sign_signed) (auto simp: signed_issues_Nil sample_signer_def ED25519_def)
  moreover have "pf_json_parse sample_platform (json_stringify (signed_json r)) = Inr (signed_json r)"
    "pf_safeParse sample_platform (signed_json r) = (if signed_issues (\<lambda>_. ''invalid'') (\<lambda>_. True) r = [] then Inr r
      else Inl (signed_issues (\<lambda>_. ''invalid'') (\<lambda>_. True) r))"
    using sample_platform_ok issued_json_data [OF assms] by (simp_all add: platform_ok_def codecs_ok_def sample_platform_def)
  ultimately show ?thesis by (simp add: readable_def redis_lookup_def)
qed

abbreviation sample_contender_ok :: "timed_map settlement_context \<Rightarrow> timed_map attempt \<Rightarrow> bool" where
  "sample_contender_ok \<equiv>
     redis_contender (pf_json_parse sample_platform) (pf_safeParse sample_platform) map_options snd timed_live"

lemma sample_contender: "sample_contender_ok (sample_ctx sample_redis) sample_attempt"
proof -
  have "\<exists>r. issue_receipt (sample_ctx sample_redis) x402_offer X402 ''GA'' (mockHex t 64) u = Inr r \<and>
      readable (pf_json_parse sample_platform) (pf_safeParse sample_platform) r" for t u
  proof -
    from sample_issue [of "''GA''" "mockHex t 64" sample_redis u] mockHex_not_Nil [of 64 t]
    obtain r where r: "issue_receipt (sample_ctx sample_redis) x402_offer X402 ''GA'' (mockHex t 64) u = Inr r" by auto
    from r sample_readable [OF r] show ?thesis by (intro exI conjI)
  qed
  then show ?thesis
    by (simp add: redis_contender_def sample_ctx_def [of sample_redis] sample_attempt_def createMockFacilitator_def mock_settle_def issues_def)
qed

text \<open>A process starts to settle at 0; at \<open>t\<close> a second process comes with the same payment.\<close>

definition first_settles :: "timed_map race" where
  "first_settles = advance snd 0 (advance snd 0 (advance snd 0 (advance snd 0
     (enter_race (sample_ctx sample_redis) sample_attempt (new_race (Map.empty, 0))))))"

definition second_comes :: "int \<Rightarrow> timed_map race" where
  "second_comes t = enter_race (sample_ctx sample_redis) sample_attempt
     (first_settles\<lparr>ra_world := (fst (ra_world first_settles), t)\<rparr>)"

lemmas sample_run_simps = advance_def enter_race_def new_race_def attempt_resume_def createRedisSettlementCache_def
  map_options_def map_client_def redis_lookup_def call_settle_def sample_attempt_def sample_ctx_def
  createMockFacilitator_def mock_settle_def settlement_key_def or_default_def DEFAULT_REDIS_KEY_PREFIX_def co_key_def
  Let_def timed_live_def SETTLEMENT_LOCK_TTL_MS_def

lemma first_settles_fields:
  "map co_pc (ra_contenders first_settles) = [At_settle True (Inr (Settled (mockHex (''n1:'' @ offer_resource x402_offer) 64)))]"
  "map co_key (ra_contenders first_settles) = [''x402:n1'']"
  "ra_settled first_settles = [(''x402:n1'', 0)]"
  "ra_world first_settles = ([''tollway:settlement:lock:x402:n1'' \<mapsto> (''1'', 30000)], 0)"
  by (simp_all add: first_settles_def sample_run_simps)

lemma sample_enter:
  "race_reachable snd sample_contender_ok P s \<Longrightarrow>
    race_reachable snd sample_contender_ok P (enter_race (sample_ctx sample_redis) sample_attempt s)"
  by (erule race_reachableI(2)) (rule race_step.Enter, rule sample_contender)

lemma sample_advance:
  "race_reachable snd sample_contender_ok P s \<Longrightarrow> i < length (ra_contenders s) \<Longrightarrow>
    race_reachable snd sample_contender_ok P (advance snd i s)"
  by (erule race_reachableI(2)) (rule race_step.Advance)

lemma second_comes_length: "length (ra_contenders (second_comes t)) = 2"
  by (simp add: second_comes_def first_settles_def)

lemma second_comes_reachable:
  assumes "P first_settles (fst (ra_world first_settles), t)"
  shows "race_reachable snd sample_contender_ok P (second_comes t)"
proof -
  have "race_reachable snd sample_contender_ok P first_settles"
    unfolding first_settles_def by (intro sample_enter sample_advance race_reachableI(1)) simp_all
  moreover have "race_step snd sample_contender_ok P first_settles (first_settles\<lparr>ra_world := (fst (ra_world first_settles), t)\<rparr>)"
    by (rule race_step.Elsewhere, rule assms)
  ultimately show ?thesis unfolding second_comes_def by (intro sample_enter) (rule race_reachableI(2))
qed

lemma time_passes: "0 \<le> t \<Longrightarrow> expires snd timed_live first_settles (fst (ra_world first_settles), t)"
  by (auto simp: expires_def first_settles_fields timed_live_def unexpired_def)

lemma lock_kept: "e \<in> set (ra_contenders first_settles) \<Longrightarrow> redis_locked map_options timed_live (co_key e) (fst (ra_world first_settles), 29999)"
proof -
  assume "e \<in> set (ra_contenders first_settles)"
  then have "co_key e \<in> set (map co_key (ra_contenders first_settles))" by simp
  then have "co_key e = ''x402:n1''" unfolding first_settles_fields by simp
  then show ?thesis
    by (simp add: first_settles_fields redis_locked_def timed_live_def redis_prefix_def or_default_def map_options_def DEFAULT_REDIS_KEY_PREFIX_def)
qed

definition second_refused :: "timed_map race" where
  "second_refused = advance snd 1 (advance snd 1 (second_comes 29999))"

lemma second_refused_reachable:
  "race_reachable snd sample_contender_ok (in_time map_options snd timed_live) second_refused"
  unfolding second_refused_def
  by (intro sample_advance second_comes_reachable) (use time_passes [of 29999] lock_kept in \<open>simp_all add: in_time_def second_comes_length\<close>)

lemma second_refused_fields:
  "ra_settled second_refused = [(''x402:n1'', 0)]" "co_pc (ra_contenders second_refused ! 1) = At_acquire (Inr False)"
  by (simp_all add: second_refused_def second_comes_def first_settles_def sample_run_simps)

lemma second_waits:
  "ra_settled second_refused = [(''x402:n1'', 0)] \<and> co_pc (ra_contenders second_refused ! 1) = At_acquire (Inr False) \<and>
   sorted_wrt (apart (redis_lifetime map_options)) (ra_settled second_refused)"
  using redis_settles_once [OF map_server.redis_server_axioms second_refused_reachable] second_refused_fields by blast

definition second_run :: "int \<Rightarrow> timed_map race" where
  "second_run t = advance snd 1 (advance snd 1 (advance snd 1 (advance snd 1 (second_comes t))))"

lemma second_run_reachable:
  assumes "0 \<le> t" shows "race_reachable snd sample_contender_ok (expires snd timed_live) (second_run t)"
  unfolding second_run_def by (intro sample_advance second_comes_reachable) (simp_all add: assms time_passes second_comes_length)

lemma second_run_early:
  assumes "t < 30000"
  shows "ra_settled (second_run t) = [(''x402:n1'', 0)]" "settling (co_pc (ra_contenders (second_run t) ! 0))"
    "co_pc (ra_contenders (second_run t) ! 1) = At_done (Inr SETTLEMENT_IN_PROGRESS)"
  using assms by (simp_all add: second_run_def second_comes_def first_settles_def sample_run_simps)

lemma second_run_late:
  assumes "30000 \<le> t"
  shows "ra_settled (second_run t) = [(''x402:n1'', 0), (''x402:n1'', t)]" "settling (co_pc (ra_contenders (second_run t) ! 0))"
    "settling (co_pc (ra_contenders (second_run t) ! 1))"
  using assms by (simp_all add: second_run_def second_comes_def first_settles_def sample_run_simps)

text \<open>A lock that has expired keeps nobody out: at 45 seconds both processes settle the payment.\<close>

lemma expired_lock_settles_twice:
  "\<exists>s. race_reachable snd (redis_contender (pf_json_parse sample_platform) (pf_safeParse sample_platform) map_options snd timed_live)
        (expires snd timed_live) s \<and> settling (co_pc (ra_contenders s ! 0)) \<and> settling (co_pc (ra_contenders s ! 1)) \<and>
      ra_settled s = [(''x402:n1'', 0), (''x402:n1'', 45000)]"
  using second_run_reachable [of 45000] second_run_late [of 45000] by (intro exI [of _ "second_run 45000"]) simp

end
