(* ===== verification/GateLiveness.thy ===== *)
theory GateLiveness
  imports GateSteps
begin

text \<open>
  A gate answers: every turn that moves a request or an attempt forward uses up a bounded amount of work, and
  while a request is unanswered such a turn can be taken, in any state of the rest of the world. So no
  schedule of a gate's turns goes on for ever without arrivals, and none stops with a request waiting.
\<close>

subsection \<open>The work left\<close>

text \<open>Segments an attempt has before it at most.\<close>

fun segments_left :: "attempt_pc \<Rightarrow> nat" where
  "segments_left At_called = 8"
| "segments_left (At_get _) = 7"
| "segments_left (At_acquire _) = 6"
| "segments_left (At_recheck _) = 5"
| "segments_left (At_settle _ _) = 4"
| "segments_left (At_sign _ _) = 3"
| "segments_left (At_set _ _ _) = 2"
| "segments_left (At_failed_release _ _) = 1"
| "segments_left (At_release _ _) = 1"
| "segments_left (At_done _) = 0"

lemma segments_left_conclude: "conclude ctx key l res w = (pc, w') \<Longrightarrow> segments_left pc \<le> 1"
  by (auto simp: conclude_def split: if_splits sum.splits prod.splits)

lemma segments_left_settle: "call_settle a l w = (pc, w') \<Longrightarrow> segments_left pc = 4"
  by (auto simp: call_settle_def map_prod_def split: prod.splits)

lemma segments_left_decreases:
  assumes "attempt_resume ctx a pc w = (pc', w')" and "\<And>r. pc \<noteq> At_done r"
  shows "segments_left pc' < segments_left pc"
  using assms
  by (cases pc)
    (auto simp: attempt_resume_def map_prod_def dest!: segments_left_conclude segments_left_settle
      split: sum.splits option.splits bool.splits settle_result.splits prod.splits)

fun turns_left :: "request_pc \<Rightarrow> nat" where
  "turns_left (Rq_verify _) = 9"
| "turns_left (Rq_join _) = 1"
| "turns_left (Rq_owner _) = 1"
| "turns_left (Rq_done _) = 0"

definition work :: "'w process \<Rightarrow> nat" where
  "work p = (\<Sum>x\<leftarrow>pr_attempts p. segments_left (snd x)) + (\<Sum>x\<leftarrow>pr_requests p. turns_left (snd x))"

lemma segments_left_le: "segments_left pc \<le> 8"
  by (cases pc) simp_all

lemma turns_left_le: "turns_left pc \<le> 9"
  by (cases pc) simp_all

lemma work_bound: "work p \<le> 8 * length (pr_attempts p) + 9 * length (pr_requests p)"
proof -
  have "(\<Sum>x\<leftarrow>xs. f (snd x)) \<le> n * length xs" if "\<And>y. f y \<le> n" for f :: "'c \<Rightarrow> nat" and xs :: "('b \<times> 'c) list" and n
    using that by (induction xs) (auto intro: add_mono)
  from this [of segments_left 8 "pr_attempts p"] this [of turns_left 9 "pr_requests p"] show ?thesis
    unfolding work_def using segments_left_le turns_left_le by (meson add_mono)
qed

subsection \<open>Turns that move on\<close>

fun moves_on :: "'w process \<Rightarrow> 'w turn \<Rightarrow> bool" where
  "moves_on p (Arrive _) \<longleftrightarrow> False"
| "moves_on p (Attempt n) \<longleftrightarrow> n < length (pr_attempts p) \<and> awaited p n = None"
| "moves_on p (Request i) \<longleftrightarrow> i < length (pr_requests p) \<and>
     (case snd (pr_requests p ! i) of
        Rq_verify _ \<Rightarrow> True | Rq_join n \<Rightarrow> awaited p n \<noteq> None | Rq_owner n \<Rightarrow> awaited p n \<noteq> None | Rq_done _ \<Rightarrow> False)"

lemma sum_list_replaced:
  "i < length xs \<Longrightarrow> (f y :: nat) < f (xs ! i) \<Longrightarrow> (\<Sum>x\<leftarrow>xs[i := y]. f x) < (\<Sum>x\<leftarrow>xs. f x)"
  by (induction xs arbitrary: i) (auto split: nat.splits)

lemma sum_list_replaced_by:
  "i < length xs \<Longrightarrow> (\<Sum>x\<leftarrow>xs[i := y]. (f x :: nat)) + f (xs ! i) = (\<Sum>x\<leftarrow>xs. f x) + f y"
  by (induction xs arbitrary: i) (auto split: nat.splits)

lemma work_set_request:
  "i < length (pr_requests p) \<Longrightarrow> work (set_request i pc p) + turns_left (snd (pr_requests p ! i)) = work p + turns_left pc"
  using sum_list_replaced_by [of i "pr_requests p" "\<lambda>x. turns_left (snd x)" "(fst (pr_requests p ! i), pc)"]
  by (simp add: work_def set_request_def)

lemma work_start:
  assumes "start_attempt ctx i rq payer nonce p w = (p', w')" "i < length (pr_requests p)"
  shows "work p' + turns_left (snd (pr_requests p ! i)) < work p + 9"
proof -
  obtain a pc where p': "p' = set_request i (Rq_owner (length (pr_attempts p))) (registered a pc p)" and s: "segments_left pc < 8"
  proof -
    let ?a = "\<lparr>at_handler = in_handler rq, at_payment = in_payment rq, at_offer = in_offer rq, at_model = in_model rq,
      at_payer = payer, at_nonce = nonce, at_key = settlement_key (in_model rq) nonce\<rparr>"
    obtain pc w1 where r: "attempt_resume ctx ?a At_called w = (pc, w1)" by (rule prod.exhaust)
    from segments_left_decreases [OF r] have "segments_left pc < 8" by simp
    moreover have "p' = set_request i (Rq_owner (length (pr_attempts p))) (registered ?a pc p)"
      using assms(1) r by (simp add: start_attempt_def registered_def Let_def)
    ultimately show thesis by (rule that [rotated])
  qed
  have "work (registered a pc p) = work p + segments_left pc" by (simp add: work_def registered_def)
  with work_set_request [of i "registered a pc p" "Rq_owner (length (pr_attempts p))"] assms(2) s show ?thesis
    unfolding p' by (simp add: registered_def)
qed

lemma moves_on_possible: "moves_on p t \<Longrightarrow> take_turn ctx t (p, w) \<noteq> None"
  by (cases t) (auto simp: take_turn_def request_resume_def Let_def split: request_pc.splits sum.splits verify_result.splits option.splits prod.splits)

lemma moves_on_works:
  assumes m: "moves_on p t" and s: "take_turn ctx t (p, w) = Some (p', w')"
  shows "work p' < work p"
proof (cases t)
  case (Attempt n)
  obtain a pc where a: "pr_attempts p ! n = (a, pc)" by (rule prod.exhaust)
  obtain pc' w1 where r: "attempt_resume ctx a pc w = (pc', w1)" by (rule prod.exhaust)
  from m Attempt a have n: "n < length (pr_attempts p)" and "\<And>x. pc \<noteq> At_done x" by (auto simp: awaited_def)
  from segments_left_decreases [OF r this(2)] have d: "segments_left pc' < segments_left pc" .
  have "p' = p\<lparr>pr_attempts := (pr_attempts p)[n := (a, pc')]\<rparr>" using s Attempt n a r by (simp add: take_turn_def)
  with sum_list_replaced [of n "pr_attempts p" "\<lambda>x. segments_left (snd x)" "(a, pc')"] n a d show ?thesis
    by (simp add: work_def)
next
  case (Request i)
  with m s have i: "i < length (pr_requests p)" and step: "request_resume ctx i p w = Some (p', w')"
    by (simp_all add: take_turn_def)
  note set = work_set_request [OF i]
  have inFlight: "work (set_request i pc (p\<lparr>pr_inFlight := f\<rparr>)) = work (set_request i pc p)" for pc f
    by (simp add: work_def set_request_def)
  show ?thesis
  proof (cases "snd (pr_requests p ! i)")
    case (Rq_verify x)
    with step have "(\<exists>pc. p' = set_request i pc p \<and> turns_left pc \<le> 1) \<or>
        (\<exists>rq payer nonce. start_attempt ctx i rq payer nonce p w = (p', w'))"
      by (fastforce simp: request_resume_def Let_def split: sum.splits verify_result.splits option.splits)
    then show ?thesis
    proof (elim disjE exE conjE)
      fix pc assume "p' = set_request i pc p" "turns_left pc \<le> 1"
      with set [of pc] Rq_verify show ?thesis by simp
    next
      fix rq payer nonce assume "start_attempt ctx i rq payer nonce p w = (p', w')"
      from work_start [OF this i] Rq_verify show ?thesis by simp
    qed
  next
    case (Rq_join n)
    have "work (set_request i (Rq_done x) p) < work p" for x using set [of "Rq_done x"] Rq_join by simp
    with step Rq_join show ?thesis by (auto simp: request_resume_def Let_def)
  next
    case (Rq_owner n)
    have "work (set_request i (Rq_done x) p) < work p" for x using set [of "Rq_done x"] Rq_owner by simp
    with step Rq_owner show ?thesis by (auto simp: request_resume_def Let_def inFlight)
  next
    case (Rq_done x)
    with m Request show ?thesis by simp
  qed
qed (use m in simp)

subsection \<open>Requests wait for something\<close>

definition joins_ok :: "'w process \<Rightarrow> bool" where
  "joins_ok p \<longleftrightarrow> (\<forall>i n. i < length (pr_requests p) \<and> snd (pr_requests p ! i) = Rq_join n \<longrightarrow> n < length (pr_attempts p))"

lemma joins_ok_set_request:
  "joins_ok p \<Longrightarrow> (\<And>n. pc = Rq_join n \<Longrightarrow> n < length (pr_attempts p)) \<Longrightarrow> joins_ok (set_request i pc p)"
  by (auto simp: joins_ok_def request_at_set_request split: if_splits)

lemma joins_ok_turn:
  assumes ok: "process_ok p" and j: "joins_ok p" and s: "take_turn ctx t (p, w) = Some (p', w')"
  shows "joins_ok p'"
proof (cases t)
  case (Arrive rq)
  with s j show ?thesis by (auto simp: take_turn_def joins_ok_def nth_append less_Suc_eq split: prod.splits if_splits)
next
  case (Attempt n)
  with s j show ?thesis by (auto simp: take_turn_def joins_ok_def split: prod.splits if_splits)
next
  case (Request i)
  with s have step: "request_resume ctx i p w = Some (p', w')" by (simp add: take_turn_def split: if_splits)
  have grown: "joins_ok (registered a pc p)" "joins_ok (p\<lparr>pr_inFlight := f\<rparr>)" for a pc f
    using j by (auto simp: joins_ok_def registered_def less_Suc_eq)
  have started: "joins_ok (fst (start_attempt ctx i rq payer nonce p w))" for rq payer nonce
    using start_attempt_registers [of rq nonce ctx i payer p w] by (auto intro!: joins_ok_set_request grown(1))
  have inFlight: "pr_inFlight p k = Some n \<Longrightarrow> n < length (pr_attempts p)" for k n
    using process_okD(2) [OF ok] by (simp add: inFlight_ok_def)
  note set = joins_ok_set_request [OF j] joins_ok_set_request [OF grown(2)]
  show ?thesis
  proof (cases "snd (pr_requests p ! i)")
    case (Rq_verify x)
    with step consider e where "p' = set_request i (Rq_done e) p"
      | k n where "p' = set_request i (Rq_join n) p" "pr_inFlight p k = Some n"
      | rq payer nonce where "start_attempt ctx i rq payer nonce p w = (p', w')"
      by (auto simp: request_resume_def Let_def split: sum.splits verify_result.splits option.splits)
    then show ?thesis
    proof cases
      case 3
      with started show ?thesis by (metis fst_conv)
    qed (use inFlight in \<open>auto intro: set(1)\<close>)
  qed (use step in \<open>auto simp: request_resume_def Let_def intro: set\<close>)
qed

lemma joins_ok_idle: "joins_ok idle_process"
  by (simp add: joins_ok_def idle_process_def)

lemma gates_joins_ok:
  assumes "(gates_step ctx)\<^sup>*\<^sup>* (ps, w) (ps', w')" and "\<forall>p\<in>set ps. process_ok p \<and> joins_ok p"
  shows "\<forall>p\<in>set ps'. process_ok p \<and> joins_ok p"
  using assms
proof (induction rule: rtranclp_induct2)
  case (step ps1 w1 ps2 w2)
  from step.hyps(2) step.IH [OF step.prems] show ?case
    by cases (auto dest!: subsetD [OF set_update_subset_insert] intro: process_ok_turn joins_ok_turn)
qed simp

definition answered :: "'w process \<Rightarrow> bool" where
  "answered p \<longleftrightarrow> (\<forall>rq\<in>set (pr_requests p). \<exists>x. snd rq = Rq_done x)"

lemma unanswered_moves_on:
  assumes ok: "process_ok p" "joins_ok p" and "\<not> answered p"
  shows "\<exists>t. moves_on p t"
proof -
  from assms(3) obtain i where i: "i < length (pr_requests p)" "\<And>x. snd (pr_requests p ! i) \<noteq> Rq_done x"
    unfolding answered_def by (metis in_set_conv_nth)
  have wait: "moves_on p (Request i) \<or> moves_on p (Attempt n)"
    if "snd (pr_requests p ! i) = Rq_join n \<or> snd (pr_requests p ! i) = Rq_owner n" "n < length (pr_attempts p)" for n
    using that i(1) by (cases "awaited p n") auto
  show ?thesis
  proof (cases "snd (pr_requests p ! i)")
    case (Rq_verify x)
    with i have "moves_on p (Request i)" by simp
    then show ?thesis by blast
  next
    case (Rq_join n)
    with i ok(2) have "n < length (pr_attempts p)" by (simp add: joins_ok_def)
    with wait Rq_join show ?thesis by blast
  next
    case (Rq_owner n)
    with i process_okD(3) [OF ok(1)] have "n < length (pr_attempts p)" by (auto simp: owners_ok_def owner_def live_def)
    with wait Rq_owner show ?thesis by blast
  qed (use i in blast)
qed

subsection \<open>Runs\<close>

text \<open>Turns of one gate that move on, whatever the rest of the world does between them.\<close>

inductive gate_run :: "'w settlement_context \<Rightarrow> 'w process \<Rightarrow> 'w turn list \<Rightarrow> 'w process \<Rightarrow> bool" for ctx where
  rest: "gate_run ctx p [] p"
| turn: "gate_run ctx p ts q \<Longrightarrow> moves_on q t \<Longrightarrow> take_turn ctx t (q, w) = Some (q', w') \<Longrightarrow> gate_run ctx p (ts @ [t]) q'"

lemma gate_run_keeps:
  assumes "gate_run ctx p ts q" "process_ok p" "joins_ok p"
  shows "process_ok q \<and> joins_ok q \<and> length ts + work q \<le> work p \<and> length (pr_requests q) = length (pr_requests p)"
  using assms
proof (induction rule: gate_run.induct)
  case (turn p ts q t w q' w')
  then have q: "process_ok q" "joins_ok q" "length ts + work q \<le> work p" "length (pr_requests q) = length (pr_requests p)" by simp_all
  have "length (pr_requests q') = length (pr_requests q)"
    using turn.hyps(2,3) by (cases t)
      (auto simp: take_turn_def request_resume_def start_attempt_def Let_def
        split: request_pc.splits sum.splits verify_result.splits option.splits prod.splits if_splits)
  with q moves_on_works [OF turn.hyps(2,3)] process_ok_turn [OF q(1) turn.hyps(3)] joins_ok_turn [OF q(1,2) turn.hyps(3)]
  show ?case by simp
qed simp

text \<open>C6. Every request is answered. Whatever gates have done before and whatever the world does in between, the turns
  of one gate that move a request or an attempt on end after at most nine for every request and eight for every
  attempt it has; and at any point before, either every request has its answer or some such turn can be taken
  whatever the state of the world, so no schedule that keeps taking turns leaves a request waiting. An injected part
  whose promise never settles is a turn that is never taken.\<close>

theorem every_request_is_answered:
  assumes "(gates_step ctx)\<^sup>*\<^sup>* (replicate n idle_process, w) (ps, w')" and "p \<in> set ps" and "gate_run ctx p ts q"
  shows "length ts \<le> 8 * length (pr_attempts p) + 9 * length (pr_requests p) \<and> length (pr_requests q) = length (pr_requests p) \<and>
    (answered q \<or> (\<exists>t. moves_on q t \<and> (\<forall>u. take_turn ctx t (q, u) \<noteq> None)))"
proof -
  have p: "process_ok p \<and> joins_ok p"
    by (rule bspec [OF gates_joins_ok [OF assms(1)] assms(2)]) (simp add: process_ok_idle joins_ok_idle)
  from gate_run_keeps [OF assms(3)] p have q: "process_ok q" "joins_ok q" "length ts + work q \<le> work p"
    "length (pr_requests q) = length (pr_requests p)" by simp_all
  from unanswered_moves_on [OF q(1,2)] moves_on_possible q(3,4) work_bound [of p] show ?thesis by (metis add_leE le_trans)
qed

fun gate_turns ::
  "'w settlement_context \<Rightarrow> 'w turn list \<Rightarrow> 'w process \<times> 'w \<Rightarrow> ('w process \<times> 'w) option" where
  "gate_turns ctx [] c = Some c"
| "gate_turns ctx (t # ts) (p, w) = (if moves_on p t then Option.bind (take_turn ctx t (p, w)) (gate_turns ctx ts) else None)"

lemma gate_turns_run:
  "gate_turns ctx ts (p, w) = Some (q, w') \<Longrightarrow> gate_run ctx p0 ts0 p \<Longrightarrow> gate_run ctx p0 (ts0 @ ts) q"
proof (induction ts arbitrary: p w ts0)
  case (Cons t ts)
  from Cons.prems(1) obtain p1 w1 where t: "moves_on p t" "take_turn ctx t (p, w) = Some (p1, w1)" "gate_turns ctx ts (p1, w1) = Some (q, w')"
    by (auto split: if_splits bind_splits)
  from Cons.IH [OF t(3) gate_run.turn [OF Cons.prems(2) t(1,2)]] show ?case by simp
qed simp

definition declined_request :: "nat request" where
  "declined_request = \<lparr>in_handler = \<lparr>h_verify = (\<lambda>p offer w. (Inr (Verified ''GA'' ''n1''), w)),
     h_settle = (\<lambda>p offer payer nonce w. (Inr (Not_settled ''declined''), Suc w))\<rparr>,
     in_payment = X402Payment ''sig'', in_offer = x402_offer, in_model = X402\<rparr>"

abbreviation twin_turns :: "nat turn list" where
  "twin_turns \<equiv> [Request 0, Request 1, Attempt 0, Attempt 0, Request 1, Request 0]"

theorem every_request_is_answered_witness:
  "\<exists>p q. gate_run cacheless_ctx p twin_turns q \<and> length (pr_requests q) = 2 \<and> answered q \<and>
     length twin_turns \<le> 8 * length (pr_attempts p) + 9 * length (pr_requests p)"
proof -
  have run: "case run_turns cacheless_ctx [(0, Arrive declined_request), (0, Arrive declined_request)] ([idle_process], 0) of None \<Rightarrow> False
      | Some (ps, w) \<Rightarrow> length ps = 1 \<and> (case gate_turns cacheless_ctx twin_turns (ps ! 0, w) of None \<Rightarrow> False
          | Some (q, _) \<Rightarrow> length (pr_requests q) = 2 \<and> list_all (\<lambda>rq. case snd rq of Rq_done _ \<Rightarrow> True | _ \<Rightarrow> False) (pr_requests q))"
    by code_simp
  then obtain ps w q w' where r: "run_turns cacheless_ctx [(0, Arrive declined_request), (0, Arrive declined_request)] ([idle_process], 0) = Some (ps, w)"
      "length ps = 1" "gate_turns cacheless_ctx twin_turns (ps ! 0, w) = Some (q, w')" "length (pr_requests q) = 2"
      "list_all (\<lambda>rq. case snd rq of Rq_done _ \<Rightarrow> True | _ \<Rightarrow> False) (pr_requests q)"
    by (auto split: option.splits simp del: run_turns.simps gate_turns.simps)
  have steps: "(gates_step cacheless_ctx)\<^sup>*\<^sup>* (replicate 1 idle_process, 0) (ps, w)" using run_turns_steps [OF r(1)] by simp
  have run: "gate_run cacheless_ctx (ps ! 0) twin_turns q" using gate_turns_run [OF r(3) gate_run.rest] by simp
  have "ps ! 0 \<in> set ps" using r(2) by simp
  from every_request_is_answered [OF steps this run] have "length twin_turns \<le> 8 * length (pr_attempts (ps ! 0)) + 9 * length (pr_requests (ps ! 0))"
    by blast
  moreover have "answered q" using r(5) unfolding answered_def list_all_iff by (metis (no_types, lifting) request_pc.exhaust request_pc.simps(17-19))
  ultimately show ?thesis using run r(4) by (intro exI conjI)
qed

end
