(* ===== verification/SharedGates.thy ===== *)
theory SharedGates
  imports LockingProofs GateLiveness "HOL-Library.Multiset"
begin

text \<open>
  Gates of many processes, with their requests, over one cache with locks. Every run of such gates is a run of the
  race of their attempts: a request that starts a settlement enters the race, a turn of an attempt advances it,
  and a verification or the passing of time happens elsewhere. What holds of the race holds of the gates.
\<close>

subsection \<open>Gates and the race of their attempts\<close>

definition attempt_of :: "'w request \<Rightarrow> string \<Rightarrow> string \<Rightarrow> 'w attempt" where
  "attempt_of rq payer nonce =
     \<lparr>at_handler = in_handler rq, at_payment = in_payment rq, at_offer = in_offer rq, at_model = in_model rq,
      at_payer = payer, at_nonce = nonce, at_key = settlement_key (in_model rq) nonce\<rparr>"

lemma start_attempt_eq:
  "start_attempt ctx i rq payer nonce p w =
     (case attempt_resume ctx (attempt_of rq payer nonce) At_called w of (pc, w1) \<Rightarrow>
        (set_request i (Rq_owner (length (pr_attempts p))) (registered (attempt_of rq payer nonce) pc p), w1))"
  by (simp add: start_attempt_def registered_def attempt_of_def Let_def)

definition contenders :: "'w settlement_context \<Rightarrow> 'w process \<Rightarrow> 'w contender list" where
  "contenders ctx p = map (\<lambda>(a, pc). \<lparr>co_ctx = ctx, co_attempt = a, co_pc = pc\<rparr>) (pr_attempts p)"

definition all_contenders :: "'w settlement_context \<Rightarrow> 'w process list \<Rightarrow> 'w contender list" where
  "all_contenders ctx ps = concat (map (contenders ctx) ps)"

text \<open>Gates, the payments they have settled with the times, and the world. A request may arrive that is one of
  \<open>P\<close>; \<open>E\<close> is what may happen to the world, given the attempts there are.\<close>

fun settled_by :: "('w \<Rightarrow> int) \<Rightarrow> 'w turn \<Rightarrow> 'w process \<Rightarrow> 'w \<Rightarrow> (string \<times> int) list" where
  "settled_by now (Attempt n) p w = map (\<lambda>k. (k, now w)) (newly_settled (at_key (fst (pr_attempts p ! n))) (snd (pr_attempts p ! n)))"
| "settled_by now _ p w = []"

fun may_take :: "('w request \<Rightarrow> bool) \<Rightarrow> ('w \<Rightarrow> bool) \<Rightarrow> 'w turn \<Rightarrow> 'w \<Rightarrow> bool" where
  "may_take P E (Arrive rq) w' \<longleftrightarrow> P rq \<and> E w'"
| "may_take P E _ w' \<longleftrightarrow> True"

inductive shared_step ::
  "('w \<Rightarrow> int) \<Rightarrow> ('w request \<Rightarrow> bool) \<Rightarrow> ('w contender set \<Rightarrow> 'w \<Rightarrow> 'w \<Rightarrow> bool) \<Rightarrow> 'w settlement_context \<Rightarrow>
   'w process list \<times> (string \<times> int) list \<times> 'w \<Rightarrow> 'w process list \<times> (string \<times> int) list \<times> 'w \<Rightarrow> bool"
  for now P E ctx where
  turn: "g < length ps \<Longrightarrow> take_turn ctx t (ps ! g, w) = Some (p', w') \<Longrightarrow> may_take P (E (set (all_contenders ctx ps)) w) t w' \<Longrightarrow>
    shared_step now P E ctx (ps, l, w) (ps[g := p'], l @ settled_by now t p' w', w')"
| elsewhere: "E (set (all_contenders ctx ps)) w w' \<Longrightarrow> shared_step now P E ctx (ps, l, w) (ps, l, w')"

lemma shared_step_gates:
  "shared_step now P E ctx (ps, l, w) (ps', l', w') \<Longrightarrow> gates_step ctx (ps, w) (ps', w')"
  by (erule shared_step.cases) (auto intro: gates_step.intros)

subsection \<open>Simulation\<close>

lemma mset_replaced: "i < length xs \<Longrightarrow> mset (xs[i := y]) + {#xs ! i#} = mset xs + {#y#}"
  by (simp add: mset_update)

lemma mset_balance:
  fixes A :: "'a multiset"
  assumes "A + q = B + p" "p + e = q + e'" "C + e = B + e'"
  shows "C = A"
proof -
  have "A + e + q = (A + q) + e" by (simp only: ac_simps)
  also have "\<dots> = B + (p + e)" unfolding assms(1) by (simp only: ac_simps)
  also have "\<dots> = (B + e') + q" unfolding assms(2) by (simp only: ac_simps)
  also have "\<dots> = C + e + q" unfolding assms(3) ..
  finally show ?thesis by simp
qed

lemma all_contenders_update:
  "g < length ps \<Longrightarrow> mset (all_contenders ctx (ps[g := p'])) + mset (contenders ctx (ps ! g)) =
     mset (all_contenders ctx ps) + mset (contenders ctx p')"
proof (induction ps arbitrary: g)
  case (Cons q qs)
  then show ?case by (cases g) (simp_all add: all_contenders_def ac_simps)
qed simp

lemma same_attempts:
  "g < length ps \<Longrightarrow> pr_attempts p' = pr_attempts (ps ! g) \<Longrightarrow> mset (all_contenders ctx (ps[g := p'])) = mset (all_contenders ctx ps)"
  using all_contenders_update [of g ps ctx p'] by (simp add: contenders_def)

text \<open>A race that has the attempts of the gates, in whatever order.\<close>

definition simulates ::
  "('w \<Rightarrow> int) \<Rightarrow> ('w settlement_context \<Rightarrow> 'w attempt \<Rightarrow> bool) \<Rightarrow> ('w contender set \<Rightarrow> 'w \<Rightarrow> 'w \<Rightarrow> bool) \<Rightarrow> 'w settlement_context \<Rightarrow>
   'w race \<Rightarrow> 'w process list \<Rightarrow> (string \<times> int) list \<Rightarrow> 'w \<Rightarrow> bool" where
  "simulates now admitted E ctx s ps l w \<longleftrightarrow>
     race_reachable now admitted (\<lambda>s. E (set (ra_contenders s)) (ra_world s)) s \<and>
     mset (ra_contenders s) = mset (all_contenders ctx ps) \<and> ra_settled s = l \<and> ra_world s = w"

lemma simulates_elsewhere:
  assumes "simulates now admitted E ctx s ps l w" "E (set (all_contenders ctx ps)) w w'"
    and "mset (all_contenders ctx ps') = mset (all_contenders ctx ps)"
  shows "simulates now admitted E ctx (s\<lparr>ra_world := w'\<rparr>) ps' l w'"
proof -
  let ?E = "\<lambda>s. E (set (ra_contenders s)) (ra_world s)"
  have s: "race_reachable now admitted ?E s" "mset (ra_contenders s) = mset (all_contenders ctx ps)" "ra_settled s = l" "ra_world s = w"
    using assms(1) by (simp_all add: simulates_def)
  have "?E s w'" using assms(2) s(4) mset_eq_setD [OF s(2)] by simp
  then have "race_reachable now admitted ?E (s\<lparr>ra_world := w'\<rparr>)"
    by (intro race_reachableI(2) [OF s(1)] race_step.Elsewhere)
  with s assms(3) show ?thesis by (simp add: simulates_def)
qed

lemma simulates_attempt:
  assumes sim: "simulates now admitted E ctx s ps l w" and g: "g < length ps" and n: "n < length (pr_attempts (ps ! g))"
    and at: "pr_attempts (ps ! g) ! n = (a, pc)" and r: "attempt_resume ctx a pc w = (pc', w')"
    and p': "p' = (ps ! g)\<lparr>pr_attempts := (pr_attempts (ps ! g))[n := (a, pc')]\<rparr>"
  shows "\<exists>s'. simulates now admitted E ctx s' (ps[g := p']) (l @ map (\<lambda>k. (k, now w')) (newly_settled (at_key a) pc')) w'"
proof -
  let ?e = "\<lparr>co_ctx = ctx, co_attempt = a, co_pc = pc\<rparr>" and ?E = "\<lambda>s. E (set (ra_contenders s)) (ra_world s)"
  have s: "race_reachable now admitted ?E s" "mset (ra_contenders s) = mset (all_contenders ctx ps)" "ra_settled s = l" "ra_world s = w"
    using sim by (simp_all add: simulates_def)
  have e: "contenders ctx (ps ! g) ! n = ?e" "n < length (contenders ctx (ps ! g))" using n at by (simp_all add: contenders_def)
  then have "?e \<in> set (contenders ctx (ps ! g))" by (metis nth_mem)
  then have "?e \<in> set (all_contenders ctx ps)" using g by (force simp: all_contenders_def)
  then obtain i where i: "i < length (ra_contenders s)" "ra_contenders s ! i = ?e"
    using mset_eq_setD [OF s(2)] by (metis in_set_conv_nth)
  have adv: "ra_contenders (advance now i s) = (ra_contenders s)[i := ?e\<lparr>co_pc := pc'\<rparr>]" "ra_world (advance now i s) = w'"
    "ra_settled (advance now i s) = l @ map (\<lambda>k. (k, now w')) (newly_settled (at_key a) pc')"
    using i r s(3,4) by (simp_all add: advance_def co_key_def)
  have "contenders ctx p' = (contenders ctx (ps ! g))[n := ?e\<lparr>co_pc := pc'\<rparr>]" using n by (simp add: contenders_def p' map_update)
  then have "mset (contenders ctx p') + {#?e#} = mset (contenders ctx (ps ! g)) + {#?e\<lparr>co_pc := pc'\<rparr>#}"
    using mset_replaced [OF e(2)] e(1) by simp
  moreover have "mset (ra_contenders (advance now i s)) + {#?e#} = mset (ra_contenders s) + {#?e\<lparr>co_pc := pc'\<rparr>#}"
    using mset_replaced [OF i(1)] i(2) unfolding adv(1) by simp
  ultimately have "mset (ra_contenders (advance now i s)) = mset (all_contenders ctx (ps[g := p']))"
    using all_contenders_update [OF g, of ctx p'] s(2) by (metis mset_balance)
  moreover have "race_reachable now admitted ?E (advance now i s)"
    by (rule race_reachableI(2) [OF s(1)]) (rule race_step.Advance, rule i)
  ultimately have "simulates now admitted E ctx (advance now i s) (ps[g := p']) (l @ map (\<lambda>k. (k, now w')) (newly_settled (at_key a) pc')) w'"
    using adv by (simp add: simulates_def)
  then show ?thesis by blast
qed

lemma simulates_start:
  assumes sim: "simulates now admitted E ctx s ps l w" and g: "g < length ps" and adm: "admitted ctx a"
    and r: "attempt_resume ctx a At_called w = (pc, w')" and p': "pr_attempts p' = pr_attempts (ps ! g) @ [(a, pc)]"
  shows "\<exists>s'. simulates now admitted E ctx s' (ps[g := p']) l w'"
proof -
  let ?E = "\<lambda>s. E (set (ra_contenders s)) (ra_world s)" and ?n = "length (ra_contenders s)"
  let ?s = "advance now ?n (enter_race ctx a s)"
  have s: "race_reachable now admitted ?E s" "mset (ra_contenders s) = mset (all_contenders ctx ps)" "ra_settled s = l" "ra_world s = w"
    using sim by (simp_all add: simulates_def)
  have "newly_settled k pc = []" for k using r by (auto simp: attempt_resume_def map_prod_def split: option.splits prod.splits)
  with r s(3,4) have adv: "ra_contenders ?s = ra_contenders s @ [\<lparr>co_ctx = ctx, co_attempt = a, co_pc = pc\<rparr>]" "ra_settled ?s = l" "ra_world ?s = w'"
    by (simp_all add: advance_def enter_race_def Let_def)
  have "race_reachable now admitted ?E (enter_race ctx a s)"
    by (rule race_reachableI(2) [OF s(1)]) (rule race_step.Enter, rule adm)
  then have "race_reachable now admitted ?E ?s"
    by (rule race_reachableI(2)) (rule race_step.Advance, simp)
  moreover have "mset (contenders ctx p') = mset (contenders ctx (ps ! g)) + {#\<lparr>co_ctx = ctx, co_attempt = a, co_pc = pc\<rparr>#}"
    by (simp add: contenders_def p')
  then have "mset (ra_contenders ?s) = mset (all_contenders ctx (ps[g := p']))"
    using mset_balance [OF all_contenders_update [OF g, of ctx p'], of "{#}"] s(2) unfolding adv(1) by simp
  ultimately have "simulates now admitted E ctx ?s (ps[g := p']) l w'" using adv by (simp add: simulates_def)
  then show ?thesis by blast
qed

lemma request_resume_cases:
  assumes "request_resume ctx i p w = Some (p', w')" "i < length (pr_requests p)"
  obtains "pr_attempts p' = pr_attempts p" "w' = w"
    | payer nonce pc where "snd (pr_requests p ! i) = Rq_verify (Inr (Verified payer nonce))"
        "attempt_resume ctx (attempt_of (fst (pr_requests p ! i)) payer nonce) At_called w = (pc, w')"
        "pr_attempts p' = pr_attempts p @ [(attempt_of (fst (pr_requests p ! i)) payer nonce, pc)]"
proof (cases "snd (pr_requests p ! i)")
  case (Rq_verify x)
  with assms(1) show ?thesis
    by (auto simp: request_resume_def start_attempt_eq registered_def Let_def intro: that
        split: sum.splits verify_result.splits option.splits prod.splits)
qed (use assms(1) that(1) in \<open>auto simp: request_resume_def Let_def\<close>)

text \<open>Every verified request would start an attempt that is one of \<open>A\<close>.\<close>

definition asked :: "('w attempt \<Rightarrow> bool) \<Rightarrow> 'w process \<Rightarrow> bool" where
  "asked A p \<longleftrightarrow> (\<forall>x\<in>set (pr_requests p). \<forall>payer nonce. snd x = Rq_verify (Inr (Verified payer nonce)) \<longrightarrow>
     A (attempt_of (fst x) payer nonce))"

lemma requests_kept:
  assumes "request_resume ctx i p w = Some (p', w')" "i < length (pr_requests p)"
  shows "\<exists>pc. pr_requests p' = (pr_requests p)[i := (fst (pr_requests p ! i), pc)] \<and> (\<forall>x. pc \<noteq> Rq_verify x)"
  using assms
  by (auto simp: request_resume_def start_attempt_eq registered_def Let_def set_request_def
      split: request_pc.splits sum.splits verify_result.splits option.splits prod.splits)

lemma asked_turn:
  assumes turn: "take_turn ctx t (p, w) = Some (p', w')" "may_take P E t w'" and asked: "asked A p"
    and fair: "\<And>rq u payer nonce u'. P rq \<Longrightarrow>
      h_verify (in_handler rq) (in_payment rq) (in_offer rq) u = (Inr (Verified payer nonce), u') \<Longrightarrow> A (attempt_of rq payer nonce)"
  shows "asked A p'"
proof (cases t)
  case (Arrive rq)
  with turn asked fair [of rq w] show ?thesis by (fastforce simp: take_turn_def asked_def split: prod.splits)
next
  case (Attempt n)
  with turn asked show ?thesis by (fastforce simp: take_turn_def asked_def split: prod.splits if_splits)
next
  case (Request i)
  with turn(1) have "\<exists>pc. pr_requests p' = (pr_requests p)[i := (fst (pr_requests p ! i), pc)] \<and> (\<forall>x. pc \<noteq> Rq_verify x)"
    using requests_kept [of ctx i p w p' w'] by (simp add: take_turn_def split: if_splits)
  with asked show ?thesis unfolding asked_def by (fastforce dest!: subsetD [OF set_update_subset_insert])
qed

lemma simulates_step:
  assumes step: "shared_step now P E ctx (ps, l, w) (ps', l', w')" and sim: "simulates now admitted E ctx s ps l w"
    and asked: "\<forall>p\<in>set ps. asked (admitted ctx) p"
  shows "\<exists>s'. simulates now admitted E ctx s' ps' l' w'"
  using step
proof cases
  case (turn g t p')
  show ?thesis
  proof (cases t)
    case (Arrive rq)
    with turn have "E (set (all_contenders ctx ps)) w w'" "pr_attempts p' = pr_attempts (ps ! g)" "l' = l"
      by (auto simp: take_turn_def split: prod.splits)
    with simulates_elsewhere [OF sim this(1) same_attempts [OF turn(3) this(2)]] turn(1) show ?thesis by blast
  next
    case (Attempt n)
    obtain a pc where a: "pr_attempts (ps ! g) ! n = (a, pc)" by (rule prod.exhaust)
    obtain pc' w1 where r: "attempt_resume ctx a pc w = (pc', w1)" by (rule prod.exhaust)
    from turn Attempt a r have n: "n < length (pr_attempts (ps ! g))" "w1 = w'"
      and p': "p' = (ps ! g)\<lparr>pr_attempts := (pr_attempts (ps ! g))[n := (a, pc')]\<rparr>"
      by (auto simp: take_turn_def split: if_splits)
    have "settled_by now t p' w' = map (\<lambda>k. (k, now w')) (newly_settled (at_key a) pc')" using Attempt n p' by simp
    with simulates_attempt [OF sim turn(3) n(1) a r [unfolded n(2)] p'] turn(1,2) show ?thesis by simp
  next
    case (Request i)
    with turn have i: "i < length (pr_requests (ps ! g))" "l' = l" and resume: "request_resume ctx i (ps ! g) w = Some (p', w')"
      by (auto simp: take_turn_def split: if_splits)
    from resume i(1) show ?thesis
    proof (cases rule: request_resume_cases)
      case 1
      with same_attempts [OF turn(3) 1(1)] sim turn(1) i(2) show ?thesis by (auto simp: simulates_def)
    next
      case (2 payer nonce pc)
      have "asked (admitted ctx) (ps ! g)" using asked turn(3) by simp
      with 2(1) i(1) have "admitted ctx (attempt_of (fst (pr_requests (ps ! g) ! i)) payer nonce)" by (simp add: asked_def)
      from simulates_start [OF sim turn(3) this 2(2,3)] turn(1) i(2) show ?thesis by blast
    qed
  qed
next
  case elsewhere
  with simulates_elsewhere [OF sim elsewhere(3), of ps] show ?thesis by blast
qed

lemma gates_simulated:
  assumes "(shared_step now P E ctx)\<^sup>*\<^sup>* (replicate n idle_process, [], w0) (ps, l, w)"
    and fair: "\<And>rq u payer nonce u'. P rq \<Longrightarrow>
      h_verify (in_handler rq) (in_payment rq) (in_offer rq) u = (Inr (Verified payer nonce), u') \<Longrightarrow>
      admitted ctx (attempt_of rq payer nonce)"
  shows "\<exists>s. simulates now admitted E ctx s ps l w"
proof -
  have "case c of (ps, l, w) \<Rightarrow> (\<exists>s. simulates now admitted E ctx s ps l w) \<and> (\<forall>p\<in>set ps. asked (admitted ctx) p)"
    if "(shared_step now P E ctx)\<^sup>*\<^sup>* (replicate n idle_process, [], w0) c" for c
    using that
  proof (induction rule: rtranclp_induct)
    case base
    have "all_contenders ctx (replicate n idle_process) = []" by (simp add: all_contenders_def contenders_def idle_process_def)
    then have "simulates now admitted E ctx (new_race w0) (replicate n idle_process) [] w0"
      by (simp add: simulates_def race_reachableI(1)) (simp add: new_race_def)
    then show ?case by (auto simp: asked_def idle_process_def)
  next
    case (step c c')
    obtain ps l w ps' l' w' where c: "c = (ps, l, w)" "c' = (ps', l', w')" by (metis prod.exhaust)
    with step.IH obtain s where s: "simulates now admitted E ctx s ps l w" "\<forall>p\<in>set ps. asked (admitted ctx) p" by auto
    from step.hyps(2) s(2) have "\<forall>p\<in>set ps'. asked (admitted ctx) p" unfolding c
      by cases (auto dest!: subsetD [OF set_update_subset_insert] intro: asked_turn fair)
    with simulates_step [OF step.hyps(2) [unfolded c] s] show ?case unfolding c by simp
  qed
  from this [OF assms(1)] show ?thesis by simp
qed

subsection \<open>Property\<close>

text \<open>A request whose settlement, with whatever payer and nonce were verified, leaves the server alone and can be issued as a receipt that is read back, and time
  that passes without a lock that expires under its holder.\<close>

definition redis_request ::
  "(string \<Rightarrow> json result) \<Rightarrow> (json \<Rightarrow> issue list + signed_receipt) \<Rightarrow> 'w redis_options \<Rightarrow> ('w \<Rightarrow> int) \<Rightarrow>
   ('w \<Rightarrow> (string, string \<times> int) js_map) \<Rightarrow> 'w settlement_context \<Rightarrow> 'w request \<Rightarrow> bool" where
  "redis_request json_parse safeParse opts now kept ctx rq \<longleftrightarrow>
     (\<forall>w payer nonce w'. h_verify (in_handler rq) (in_payment rq) (in_offer rq) w = (Inr (Verified payer nonce), w') \<longrightarrow>
        redis_contender json_parse safeParse opts now kept ctx (attempt_of rq payer nonce))"

definition locks_outlast ::
  "'w redis_options \<Rightarrow> ('w \<Rightarrow> int) \<Rightarrow> ('w \<Rightarrow> (string, string \<times> int) js_map) \<Rightarrow> 'w contender set \<Rightarrow> 'w \<Rightarrow> 'w \<Rightarrow> bool" where
  "locks_outlast opts now kept es w w' \<longleftrightarrow> now w \<le> now w' \<and> (\<forall>k. kept w' k = unexpired (now w') (kept w k)) \<and>
     (\<forall>e\<in>es. holding (co_pc e) \<longrightarrow> redis_locked opts kept (co_key e) w')"

lemma in_time_locks_outlast: "in_time opts now kept s = locks_outlast opts now kept (set (ra_contenders s)) (ra_world s)"
  by (rule ext) (simp add: in_time_def locks_outlast_def expires_def)

lemma distinct_map_filterI:
  "(\<And>i j. i < length xs \<and> j < length xs \<and> i \<noteq> j \<and> P (xs ! i) \<and> P (xs ! j) \<Longrightarrow> f (xs ! i) \<noteq> f (xs ! j)) \<Longrightarrow>
    distinct (map f (filter P xs))"
proof (induction xs)
  case (Cons x xs)
  have "f x \<noteq> f y" if y: "P x" "y \<in> set xs" "P y" for y
  proof -
    from y(2) obtain j where "j < length xs" "y = xs ! j" by (metis in_set_conv_nth)
    with Cons.prems [of 0 "Suc j"] y show ?thesis by simp
  qed
  moreover have "distinct (map f (filter P xs))" by (rule Cons.IH) (use Cons.prems [of "Suc i" "Suc j" for i j] in simp)
  ultimately show ?case by force
qed simp

text \<open>C4. A payment is settled at most once in the lifetime of its receipt, even across processes. Any number of gates
  share a cache over a Redis server; requests arrive at any of them, and requests and settlement attempts take
  their turns in any order while time passes and entries expire. Two settlements of one payment then start at
  least the configured lifetime apart, and at no time are two of them under way, as long as no lock expires
  under its holder, the commands answer, and receipts can be issued and read back.\<close>

theorem gates_settle_once_across_processes:
  assumes server: "redis_server opts now kept"
    and run: "(shared_step now (redis_request json_parse safeParse opts now kept ctx) (locks_outlast opts now kept) ctx)\<^sup>*\<^sup>*
      (replicate n idle_process, [], w0) (ps, settled, w)"
  shows "sorted_wrt (apart (redis_lifetime opts)) settled \<and>
    distinct (map co_key (filter (\<lambda>e. settling (co_pc e)) (all_contenders ctx ps)))"
proof -
  obtain s where s: "simulates now (redis_contender json_parse safeParse opts now kept) (locks_outlast opts now kept) ctx s ps settled w"
    using gates_simulated [OF run] by (fastforce simp: redis_request_def)
  then have "race_reachable now (redis_contender json_parse safeParse opts now kept) (in_time opts now kept) s"
    unfolding simulates_def by (simp add: in_time_locks_outlast [abs_def])
  note once = redis_settles_once [OF server this]
  have "distinct (map co_key (filter (\<lambda>e. settling (co_pc e)) (ra_contenders s)))"
    by (rule distinct_map_filterI) (use once in blast)
  moreover have "mset (map co_key (filter (\<lambda>e. settling (co_pc e)) (ra_contenders s))) =
      mset (map co_key (filter (\<lambda>e. settling (co_pc e)) (all_contenders ctx ps)))"
    using s by (simp add: simulates_def mset_filter)
  ultimately show ?thesis using once s mset_eq_imp_distinct_iff unfolding simulates_def by blast
qed

subsection \<open>Two gates\<close>

fun shared_turns ::
  "('w \<Rightarrow> int) \<Rightarrow> 'w settlement_context \<Rightarrow> (nat \<times> 'w turn) list \<Rightarrow> 'w process list \<times> (string \<times> int) list \<times> 'w \<Rightarrow>
   ('w process list \<times> (string \<times> int) list \<times> 'w) option" where
  "shared_turns now ctx [] c = Some c"
| "shared_turns now ctx ((g, t) # ts) (ps, l, w) =
     (if g < length ps
      then (case take_turn ctx t (ps ! g, w) of
              None \<Rightarrow> None
            | Some (p', w') \<Rightarrow> shared_turns now ctx ts (ps[g := p'], l @ settled_by now t p' w', w'))
      else None)"

fun no_arrival :: "'w turn \<Rightarrow> bool" where
  "no_arrival (Arrive _) \<longleftrightarrow> False"
| "no_arrival _ \<longleftrightarrow> True"

lemma shared_turns_steps:
  "shared_turns now ctx ts c = Some c' \<Longrightarrow> (\<forall>gt\<in>set ts. no_arrival (snd gt)) \<Longrightarrow> (shared_step now P E ctx)\<^sup>*\<^sup>* c c'"
proof (induction now ctx ts c rule: shared_turns.induct)
  case (2 now ctx g t ts ps l w)
  then obtain p' w' where s: "g < length ps" "take_turn ctx t (ps ! g, w) = Some (p', w')"
    by (auto split: if_splits option.splits)
  have "may_take P (E (set (all_contenders ctx ps)) w) t w'" using 2(3) by (cases t) simp_all
  with s have "shared_step now P E ctx (ps, l, w) (ps[g := p'], l @ settled_by now t p' w', w')" by (rule shared_step.turn)
  moreover have "(shared_step now P E ctx)\<^sup>*\<^sup>* (ps[g := p'], l @ settled_by now t p' w', w') c'"
    by (rule "2.IH") (use s 2(2,3) in auto)
  ultimately show ?case by (rule converse_rtranclp_into_rtranclp)
qed simp

definition shared_request :: "timed_map request" where
  "shared_request =
     \<lparr>in_handler = \<lparr>h_verify = (\<lambda>p offer w. (Inr (Verified ''GA'' ''n1''), w)), h_settle = (\<lambda>p offer payer nonce w. (Inr (Settled ''tx1''), w))\<rparr>,
      in_payment = X402Payment ''sig'', in_offer = x402_offer, in_model = X402\<rparr>"

lemma shared_request_ok:
  "redis_request (pf_json_parse sample_platform) (pf_safeParse sample_platform) map_options snd timed_live (sample_ctx sample_redis) shared_request"
proof -
  have "\<exists>r. issue_receipt (sample_ctx sample_redis) x402_offer X402 ''GA'' ''tx1'' u = Inr r \<and>
      readable (pf_json_parse sample_platform) (pf_safeParse sample_platform) r" for u
  proof -
    from sample_issue [of "''GA''" "''tx1''" sample_redis u]
    obtain r where r: "issue_receipt (sample_ctx sample_redis) x402_offer X402 ''GA'' ''tx1'' u = Inr r" by auto
    from r sample_readable [OF r] show ?thesis by (intro exI conjI)
  qed
  then show ?thesis
    by (simp add: redis_request_def redis_contender_def attempt_of_def shared_request_def sample_ctx_def [of sample_redis] issues_def)
qed

definition arrived :: "timed_map process" where
  "arrived = idle_process\<lparr>pr_requests := [(shared_request, Rq_verify (Inr (Verified ''GA'' ''n1'')))]\<rparr>"

abbreviation shared_redis_step ::
  "timed_map process list \<times> (string \<times> int) list \<times> timed_map \<Rightarrow> timed_map process list \<times> (string \<times> int) list \<times> timed_map \<Rightarrow> bool" where
  "shared_redis_step \<equiv> shared_step snd
     (redis_request (pf_json_parse sample_platform) (pf_safeParse sample_platform) map_options snd timed_live (sample_ctx sample_redis))
     (locks_outlast map_options snd timed_live) (sample_ctx sample_redis)"

lemma both_arrive: "shared_redis_step\<^sup>*\<^sup>* (replicate 2 idle_process, [], (Map.empty, 0)) ([arrived, arrived], [], (Map.empty, 0))"
proof -
  let ?w = "(Map.empty, 0) :: timed_map"
  have one: "shared_redis_step (ps, [], ?w) (ps[g := arrived], [], ?w)"
    if "g < length ps" "ps ! g = idle_process" "all_contenders (sample_ctx sample_redis) ps = []" for g ps
  proof -
    have "take_turn (sample_ctx sample_redis) (Arrive shared_request) (ps ! g, ?w) = Some (arrived, ?w)"
      using that(2) by (simp add: take_turn_def arrived_def idle_process_def shared_request_def)
    moreover have "locks_outlast map_options snd timed_live (set (all_contenders (sample_ctx sample_redis) ps)) ?w ?w"
      by (simp add: that(3) locks_outlast_def timed_live_def)
    ultimately show ?thesis
      using shared_step.turn [of g ps "sample_ctx sample_redis" "Arrive shared_request" ?w arrived ?w] that(1) shared_request_ok by fastforce
  qed
  have none: "all_contenders (sample_ctx sample_redis) ps = []" if "set ps \<subseteq> {idle_process, arrived}" for ps
    using that by (auto simp: all_contenders_def contenders_def arrived_def idle_process_def)
  have "shared_redis_step ([idle_process, idle_process], [], ?w) ([arrived, idle_process], [], ?w)"
    using one [of 0 "[idle_process, idle_process]"] none by simp
  moreover have "shared_redis_step ([arrived, idle_process], [], ?w) ([arrived, arrived], [], ?w)"
    using one [of 1 "[arrived, idle_process]"] none by simp
  ultimately show ?thesis by (simp add: numeral_2_eq_2 converse_rtranclp_into_rtranclp)
qed

text \<open>Both gates look the payment up; the first gets the lock and settles.\<close>

abbreviation both_turns :: "(nat \<times> timed_map turn) list" where
  "both_turns \<equiv> [(0, Request 0), (1, Request 0), (0, Attempt 0), (1, Attempt 0), (0, Attempt 0), (1, Attempt 0), (0, Attempt 0)]"

lemma both_run:
  "\<exists>ps w. shared_turns snd (sample_ctx sample_redis) both_turns ([arrived, arrived], [], (Map.empty, 0)) = Some (ps, [(''x402:n1'', 0)], w)"
  by (simp add: take_turn_def request_resume_def start_attempt_def set_request_def arrived_def idle_process_def shared_request_def sample_run_simps)

theorem gates_settle_once_across_processes_witness:
  "\<exists>ps settled w. shared_redis_step\<^sup>*\<^sup>* (replicate 2 idle_process, [], (Map.empty, 0)) (ps, settled, w) \<and>
     settled = [(''x402:n1'', 0)] \<and> sorted_wrt (apart (redis_lifetime map_options)) settled \<and>
     distinct (map co_key (filter (\<lambda>e. settling (co_pc e)) (all_contenders (sample_ctx sample_redis) ps)))"
proof -
  from both_run obtain ps w where r: "shared_turns snd (sample_ctx sample_redis) both_turns ([arrived, arrived], [], (Map.empty, 0)) =
      Some (ps, [(''x402:n1'', 0)], w)" by blast
  have "shared_redis_step\<^sup>*\<^sup>* ([arrived, arrived], [], (Map.empty, 0)) (ps, [(''x402:n1'', 0)], w)"
    by (rule shared_turns_steps [OF r]) simp
  with both_arrive have steps: "shared_redis_step\<^sup>*\<^sup>* (replicate 2 idle_process, [], (Map.empty, 0)) (ps, [(''x402:n1'', 0)], w)"
    by (rule rtranclp_trans)
  from gates_settle_once_across_processes [OF map_server.redis_server_axioms steps] steps show ?thesis by blast
qed

end
