(* ===== verification/PolicyOverlap.thy ===== *)
theory PolicyOverlap
  imports PolicyHistory
begin

text \<open>
  Payers that overlap. The client checks a payment, pays, and records it, and other payments may be checked and
  recorded in between. \<open>overlap_step\<close> lets at most \<open>n\<close> payments of at most \<open>M\<close> be on their way between check and
  record, in any order, with any of them abandoned; the invariant bounds by how much the limits can be exceeded.
\<close>

definition intent_units :: "payment_intent \<Rightarrow> nat" where
  "intent_units i = BigInt (intent_amount i)"

record payers =
  py_engine :: engine
  py_history :: "entry list"
  py_pending :: "payment_intent list"
  py_clock :: int

definition new_payers :: "int \<Rightarrow> engine \<Rightarrow> payers" where
  "new_payers t st = \<lparr>py_engine = st, py_history = [], py_pending = [], py_clock = t\<rparr>"

definition without :: "nat \<Rightarrow> 'a list \<Rightarrow> 'a list" where
  "without k xs = take k xs @ drop (Suc k) xs"

inductive overlap_step :: "policy \<Rightarrow> nat \<Rightarrow> nat \<Rightarrow> payers \<Rightarrow> payers \<Rightarrow> bool" for pol n M where
  Ask: "length (py_pending s) < n \<Longrightarrow> intent_units i \<le> M \<Longrightarrow> ticks (py_clock s) t0 t1 t2 \<Longrightarrow>
    check pol t0 t1 t2 i (py_engine s) = (d, st) \<Longrightarrow>
    overlap_step pol n M s
      (s\<lparr>py_engine := st, py_pending := py_pending s @ (if d = Inr Allowed then [i] else []), py_clock := t2\<rparr>)"
| Book: "k < length (py_pending s) \<Longrightarrow> ticks (py_clock s) t0 t1 t2 \<Longrightarrow>
    record_payment t0 t1 t2 (py_pending s ! k) (py_engine s) = (r, st) \<Longrightarrow>
    overlap_step pol n M s
      \<lparr>py_engine = st, py_history = py_history s @ [entry_of t0 t1 (py_pending s ! k)], py_pending = without k (py_pending s), py_clock = t2\<rparr>"
| Abandon: "k < length (py_pending s) \<Longrightarrow> overlap_step pol n M s (s\<lparr>py_pending := without k (py_pending s)\<rparr>)"

subsection \<open>Pending amounts\<close>

definition owed :: "(payment_intent \<Rightarrow> bool) \<Rightarrow> payment_intent list \<Rightarrow> nat" where
  "owed P is = sum_list (map intent_units (filter P is))"

lemma owed_simps [simp]: "owed P [] = 0" "owed P (is @ js) = owed P is + owed P js"
  "owed P [i] = (if P i then intent_units i else 0)"
  by (simp_all add: owed_def)

lemma owed_without:
  assumes "k < length is"
  shows "owed P (without k is) + (if P (is ! k) then intent_units (is ! k) else 0) = owed P is"
proof -
  have "owed P is = owed P (take k is @ is ! k # drop (Suc k) is)" using id_take_nth_drop [OF assms] by simp
  then show ?thesis by (simp add: without_def owed_def)
qed

lemma owed_le: "(\<forall>i\<in>set is. intent_units i \<le> M) \<Longrightarrow> owed P is \<le> length is * M"
  by (induction "is") (auto simp: owed_def)

lemma set_without: "set (without k xs) \<subseteq> set xs"
  by (auto simp: without_def dest: in_set_takeD in_set_dropD)

lemma length_without: "k < length xs \<Longrightarrow> length (without k xs) = length xs - 1"
  by (simp add: without_def)

subsection \<open>The invariant\<close>

definition fits_with :: "nat \<Rightarrow> string option \<Rightarrow> nat \<Rightarrow> bool" where
  "fits_with s limit x \<longleftrightarrow> (\<forall>b. limit = Some b \<longrightarrow> x \<le> BigInt b + s)"

lemma fits_withI: "fits limit y \<Longrightarrow> x \<le> y + s \<Longrightarrow> fits_with s limit x"
  by (auto simp: fits_with_def fits_def intro: le_trans)

lemma fits_with_mono: "fits_with s limit y \<Longrightarrow> x \<le> y \<Longrightarrow> fits_with s limit x"
  by (auto simp: fits_with_def intro: le_trans)

lemma fits_with_slack: "x \<le> s \<Longrightarrow> fits_with s limit x"
  by (auto simp: fits_with_def)

text \<open>What is recorded with what is pending, by asset, by service and asset, and by day; what is pending counts for the
  days from the clock's on.\<close>

definition of_asset :: "string \<Rightarrow> entry \<Rightarrow> bool" where "of_asset a e \<longleftrightarrow> entry_asset e = a"
definition of_service :: "payment_intent \<Rightarrow> string \<Rightarrow> entry \<Rightarrow> bool" where
  "of_service j a e \<longleftrightarrow> entry_payee e = intent_payee j \<and> entry_asset e = a"
definition of_day :: "string \<Rightarrow> int \<Rightarrow> entry \<Rightarrow> bool" where "of_day a d e \<longleftrightarrow> entry_asset e = a \<and> entry_day e = d"

definition total_due :: "string \<Rightarrow> payers \<Rightarrow> nat" where
  "total_due a s = spent (of_asset a) (py_history s) + owed (\<lambda>i. intent_asset i = a) (py_pending s)"

definition service_due :: "payment_intent \<Rightarrow> string \<Rightarrow> payers \<Rightarrow> nat" where
  "service_due j a s = spent (of_service j a) (py_history s) +
     owed (\<lambda>i. intent_payee i = intent_payee j \<and> intent_asset i = a) (py_pending s)"

definition daily_due :: "string \<Rightarrow> int \<Rightarrow> payers \<Rightarrow> nat" where
  "daily_due a d s = spent (of_day a d) (py_history s) +
     (if day_of (py_clock s) \<le> d then owed (\<lambda>i. intent_asset i = a) (py_pending s) else 0)"

definition overlap_ok :: "policy \<Rightarrow> nat \<Rightarrow> nat \<Rightarrow> payers \<Rightarrow> bool" where
  "overlap_ok pol n M s \<longleftrightarrow>
     engine_inv (py_history s) (py_clock s) (py_engine s) \<and> length (py_pending s) \<le> n \<and>
     (\<forall>i\<in>set (py_pending s). AMOUNT_RE (intent_amount i) \<and> intent_units i \<le> M) \<and>
     (\<forall>a. fits_with ((n - 1) * M) (Option.bind (budgets pol) cfg_total) (total_due a s)) \<and>
     (\<forall>a j. fits_with ((n - 1) * M) (svcCap pol j) (service_due j a s)) \<and>
     (\<forall>a d. fits_with (n * M) (Option.bind (budgets pol) cfg_daily) (daily_due a d s))"

lemma overlap_ok_less:
  assumes "overlap_ok pol n M s" "engine_inv (py_history s') (py_clock s') (py_engine s')"
    and "length (py_pending s') \<le> n" "set (py_pending s') \<subseteq> set (py_pending s)"
    and "\<And>a. total_due a s' \<le> total_due a s" "\<And>a j. service_due j a s' \<le> service_due j a s"
      "\<And>a d. daily_due a d s' \<le> daily_due a d s"
  shows "overlap_ok pol n M s'"
  using assms unfolding overlap_ok_def by (meson fits_with_mono subsetD)

lemma overlap_ok_abandon:
  assumes "overlap_ok pol n M s" "k < length (py_pending s)"
  shows "overlap_ok pol n M (s\<lparr>py_pending := without k (py_pending s)\<rparr>)"
proof (rule overlap_ok_less [OF assms(1)])
  have le: "owed P (without k (py_pending s)) \<le> owed P (py_pending s)" for P using owed_without [OF assms(2), of P] by simp
  let ?s = "s\<lparr>py_pending := without k (py_pending s)\<rparr>"
  show "total_due a ?s \<le> total_due a s" "service_due j a ?s \<le> service_due j a s" "daily_due a d ?s \<le> daily_due a d s" for a j d
    using le by (simp_all add: total_due_def service_due_def daily_due_def)
qed (use assms in \<open>auto simp: overlap_ok_def length_without dest!: subsetD [OF set_without]\<close>)

lemma overlap_ok_book:
  assumes ok: "overlap_ok pol n M s" and k: "k < length (py_pending s)" and tk: "ticks (py_clock s) t0 t1 t2"
    and r: "record_payment t0 t1 t2 (py_pending s ! k) (py_engine s) = (r, st)"
  shows "overlap_ok pol n M \<lparr>py_engine = st, py_history = py_history s @ [entry_of t0 t1 (py_pending s ! k)],
    py_pending = without k (py_pending s), py_clock = t2\<rparr>" (is "overlap_ok pol n M ?s")
proof (rule overlap_ok_less [OF ok])
  have le: "py_clock s \<le> t0" "t0 \<le> t1" "t1 \<le> t2" "ok_clock t0" using tk by (simp_all add: ticks_def)
  have am: "AMOUNT_RE (intent_amount (py_pending s ! k))" using ok k by (simp add: overlap_ok_def)
  have inv: "engine_inv (py_history s) (py_clock s) (py_engine s)" using ok by (simp add: overlap_ok_def)
  from record_inv [OF inv le am] r show "engine_inv (py_history ?s) (py_clock ?s) (py_engine ?s)" by auto
  have o: "owed P (without k (py_pending s)) + (if P (py_pending s ! k) then intent_units (py_pending s ! k) else 0) = owed P (py_pending s)" for P
    by (rule owed_without [OF k])
  show "total_due a ?s \<le> total_due a s" for a
    using o [of "\<lambda>i. intent_asset i = a"] by (simp add: total_due_def of_asset_def intent_units_def split: if_splits)
  show "service_due j a ?s \<le> service_due j a s" for a j
    using o [of "\<lambda>i. intent_payee i = intent_payee j \<and> intent_asset i = a"]
    by (auto simp: service_due_def of_service_def intent_units_def split: if_splits)
  have day: "day_of (py_clock s) \<le> day_of t0" "day_of t0 \<le> day_of t2" using le by (auto intro: day_of_mono)
  show "daily_due a d ?s \<le> daily_due a d s" for a d
    using o [of "\<lambda>i. intent_asset i = a"] day by (auto simp: daily_due_def of_day_def intent_units_def split: if_splits)
qed (use ok k in \<open>auto simp: overlap_ok_def length_without dest!: subsetD [OF set_without]\<close>)

lemma overlap_ok_asked:
  assumes ok: "overlap_ok pol n M s" and n: "length (py_pending s) < n" and i: "intent_units i \<le> M" "AMOUNT_RE (intent_amount i)"
    and tk: "ticks (py_clock s) t0 t1 t2" and inv: "engine_inv (py_history s) t2 st"
    and spec: "spec_allows pol (py_history s) t0 t1 t2 i"
  shows "overlap_ok pol n M (s\<lparr>py_engine := st, py_pending := py_pending s @ [i], py_clock := t2\<rparr>)" (is "overlap_ok pol n M ?s")
proof -
  let ?h = "py_history s" and ?is = "py_pending s"
  have old: "\<And>a. fits_with ((n - 1) * M) (Option.bind (budgets pol) cfg_total) (total_due a s)"
    "\<And>a j. fits_with ((n - 1) * M) (svcCap pol j) (service_due j a s)"
    "\<And>a d. fits_with (n * M) (Option.bind (budgets pol) cfg_daily) (daily_due a d s)"
    and h: "engine_inv ?h (py_clock s) (py_engine s)" and p: "\<forall>i\<in>set ?is. AMOUNT_RE (intent_amount i) \<and> intent_units i \<le> M"
    using ok by (simp_all add: overlap_ok_def)
  have "owed P ?is \<le> length ?is * M" for P by (rule owed_le) (use p in blast)
  moreover have "length ?is * M \<le> (n - 1) * M" using n by (intro mult_right_mono) simp_all
  ultimately have others: "owed P ?is \<le> (n - 1) * M" for P by (rule order_trans)
  have "(n - 1) * M + M = n * M" using n by (cases n) simp_all
  then have all: "owed P (?is @ [i]) \<le> n * M" for P using others [of P] i(1) by (simp add: add_mono)
  have day: "day_of (py_clock s) \<le> day_of t0" "day_of t0 \<le> day_of t2" using tk by (auto simp: ticks_def intro: day_of_mono)
  have none: "spent (of_day a d) ?h = 0" if "day_of t0 < d" for a d
    using engine_inv_days [OF h, of t0] tk that by (intro spent_none) (auto simp: of_day_def ticks_def)
  have fits: "fits (Option.bind (budgets pol) cfg_total) (spent (of_asset (intent_asset i)) ?h + intent_units i)"
    "fits (Option.bind (budgets pol) cfg_daily) (spent (of_day (intent_asset i) (day_of t0)) ?h + intent_units i)"
    "fits (svcCap pol i) (spent (\<lambda>e. entry_key e = svcKey (intent_payee i) (intent_asset i)) ?h + intent_units i)"
    using spec by (simp_all add: spec_allows_def Let_def of_asset_def [abs_def] of_day_def [abs_def] intent_units_def)
  have "fits_with ((n - 1) * M) (Option.bind (budgets pol) cfg_total) (total_due a ?s)" for a
    using old(1) [of a] fits_withI [OF fits(1)] others [of "\<lambda>i. intent_asset i = a"]
    by (cases "a = intent_asset i") (auto simp: total_due_def)
  moreover have "fits_with ((n - 1) * M) (svcCap pol j) (service_due j a ?s)" for a j
  proof (cases "intent_payee i = intent_payee j \<and> intent_asset i = a")
    case True
    have "spent (of_service j a) ?h \<le> spent (\<lambda>e. entry_key e = svcKey (intent_payee i) (intent_asset i)) ?h"
      by (rule spent_mono) (use True in \<open>simp add: of_service_def entry_key_def\<close>)
    moreover have "svcCap pol j = svcCap pol i" using True by (simp add: svcCap_def)
    ultimately show ?thesis
      using fits_withI [OF fits(3)] others [of "\<lambda>i. intent_payee i = intent_payee j \<and> intent_asset i = a"] True
      by (simp add: service_due_def add_mono)
  qed (use old(2) [of j a] in \<open>auto simp: service_due_def\<close>)
  moreover have "fits_with (n * M) (Option.bind (budgets pol) cfg_daily) (daily_due a d ?s)" for a d
  proof (cases "day_of t2 \<le> d")
    case now: True
    show ?thesis
    proof (cases "d = day_of t0 \<and> a \<noteq> intent_asset i")
      case True
      with now day old(3) [of a d] show ?thesis by (auto simp: daily_due_def)
    next
      case False
      then consider "d = day_of t0" "a = intent_asset i" | "day_of t0 < d" using now day by linarith
      then show ?thesis
      proof cases
        case 1
        then show ?thesis using now others [of "\<lambda>i. intent_asset i = a"] \<open>(n - 1) * M + M = n * M\<close>
          by (intro fits_withI [OF fits(2)]) (simp add: daily_due_def)
      next
        case 2
        with now none [of d a] all [of "\<lambda>i. intent_asset i = a"] show ?thesis
          by (intro fits_with_slack) (simp add: daily_due_def)
      qed
    qed
  next
    case False
    with old(3) [of a d] show ?thesis by (auto simp: daily_due_def elim: fits_with_mono)
  qed
  ultimately show ?thesis using n i p inv by (simp add: overlap_ok_def)
qed

lemma overlap_ok_step:
  assumes "policy_wf pol" "overlap_ok pol n M s" "overlap_step pol n M s s'"
  shows "overlap_ok pol n M s'"
  using assms(3)
proof cases
  case (Ask i t0 t1 t2 d st)
  have h: "engine_inv (py_history s) (py_clock s) (py_engine s)" using assms(2) by (simp add: overlap_ok_def)
  have le: "py_clock s \<le> t0" "t0 \<le> t1" "t1 \<le> t2" "ok_clock t0" "day_of (py_clock s) \<le> day_of t2"
    using Ask(4) by (auto simp: ticks_def intro: day_of_mono)
  have inv: "engine_inv (py_history s) t2 st"
    using check_refines(1) [OF assms(1) h _ le(1-4), of i] malformed_inv(1) [OF h Ask(4), of i pol] Ask(5) by (metis snd_conv)
  show ?thesis
  proof (cases "d = Inr Allowed")
    case True
    have am: "AMOUNT_RE (intent_amount i)" using malformed_inv(3) [OF h Ask(4), of i pol] Ask(5) True by fastforce
    have "spec_allows pol (py_history s) t0 t1 t2 i"
      using check_refines(2) [OF assms(1) h am le(1-4)] Ask(5) True by auto
    from overlap_ok_asked [OF assms(2) Ask(2,3) am Ask(4) inv this] Ask(1) True show ?thesis by simp
  next
    case False
    show ?thesis unfolding Ask(1)
      by (rule overlap_ok_less [OF assms(2)])
        (use False inv assms(2) le(5) in \<open>auto simp: overlap_ok_def total_due_def service_due_def daily_due_def\<close>)
  qed
qed (use overlap_ok_book [OF assms(2)] overlap_ok_abandon [OF assms(2)] in blast)+

lemma overlap_ok_reachable:
  assumes "policy_wf pol" "(overlap_step pol n M)\<^sup>*\<^sup>* s s'" "overlap_ok pol n M s"
  shows "overlap_ok pol n M s'"
  using assms(2,3) by (induction rule: rtranclp_induct) (auto intro: overlap_ok_step [OF assms(1)])

subsection \<open>Property\<close>

text \<open>C18. How far overlapping payments can exceed the limits: with at most \<open>n\<close> payments of at most \<open>M\<close> at a time between
  their check and their record, in any order and with any of them given up, an asset's recorded total stays
  within the total budget plus \<open>(n - 1) * M\<close>, a service's within its cap plus the same, and a day's within
  the daily budget plus \<open>n * M\<close>, for payments checked before midnight. One at a time keeps total and cap exactly.\<close>

theorem overlap_bounds_overspending:
  assumes "createPolicyEngine t = Inr st0" "ok_clock t" "policy_wf pol"
    and "(overlap_step pol n M)\<^sup>*\<^sup>* (new_payers t st0) s"
  shows "(\<forall>a. fits_with ((n - 1) * M) (Option.bind (budgets pol) cfg_total) (spent (\<lambda>e. entry_asset e = a) (py_history s))) \<and>
    (\<forall>a i. fits_with ((n - 1) * M) (svcCap pol i)
       (spent (\<lambda>e. entry_payee e = intent_payee i \<and> entry_asset e = a) (py_history s))) \<and>
    (\<forall>a d. fits_with (n * M) (Option.bind (budgets pol) cfg_daily)
       (spent (\<lambda>e. entry_asset e = a \<and> entry_day e = d) (py_history s)))"
proof -
  have "overlap_ok pol n M (new_payers t st0)"
    using engine_inv_initial [OF assms(2,1)]
    by (simp add: overlap_ok_def new_payers_def total_due_def service_due_def daily_due_def fits_with_def)
  from overlap_ok_reachable [OF assms(3,4) this] have ok: "overlap_ok pol n M s" .
  have "fits_with ((n - 1) * M) (Option.bind (budgets pol) cfg_total) (spent (of_asset a) (py_history s))" for a
    by (rule fits_with_mono [of _ _ "total_due a s"]) (use ok in \<open>simp_all add: overlap_ok_def total_due_def\<close>)
  moreover have "fits_with ((n - 1) * M) (svcCap pol i) (spent (of_service i a) (py_history s))" for a i
    by (rule fits_with_mono [of _ _ "service_due i a s"]) (use ok in \<open>simp_all add: overlap_ok_def service_due_def\<close>)
  moreover have "fits_with (n * M) (Option.bind (budgets pol) cfg_daily) (spent (of_day a d) (py_history s))" for a d
    by (rule fits_with_mono [of _ _ "daily_due a d s"]) (use ok in \<open>simp_all add: overlap_ok_def daily_due_def\<close>)
  ultimately show ?thesis unfolding of_asset_def [abs_def] of_service_def [abs_def] of_day_def [abs_def] by blast
qed

definition after_overlap :: payers where
  "after_overlap =
     \<lparr>py_engine = snd (record_payment 0 0 0 (sample_intent ''60'') (snd (record_payment 0 0 0 (sample_intent ''60'') fresh_engine))),
      py_history = [entry_of 0 0 (sample_intent ''60''), entry_of 0 0 (sample_intent ''60'')], py_pending = [], py_clock = 0\<rparr>"

lemma budget_100_allows: "check budget_100 0 0 0 (sample_intent ''60'') fresh_engine = (Inr Allowed, fresh_engine)"
  by (simp add: check_def resetDailyIfNeeded_def utcDate_ok fresh_engine_def parseAmount_def sample_intent_def static_rules_def
      or_else_def check_model_def check_daily_def check_total_def check_service_def check_rate_def check_anomaly_def
      budget_100_def svcCap_def decide_def Let_def)

lemma after_overlap_reachable: "(overlap_step budget_100 2 60)\<^sup>*\<^sup>* (new_payers 0 fresh_engine) after_overlap"
proof -
  let ?i = "sample_intent ''60''" and ?S = "overlap_step budget_100 2 60"
  have tk: "ticks 0 0 0 0" by (simp add: ticks_def)
  have u: "intent_units ?i \<le> 60" by (simp add: intent_units_def sample_intent_def)
  let ?s0 = "new_payers 0 fresh_engine"
  let ?s1 = "?s0\<lparr>py_pending := [?i]\<rparr>" and ?s2 = "?s0\<lparr>py_pending := [?i, ?i]\<rparr>"
  let ?s3 = "\<lparr>py_engine = snd (record_payment 0 0 0 ?i fresh_engine), py_history = [entry_of 0 0 ?i], py_pending = [?i], py_clock = 0\<rparr>"
  have "?S ?s0 ?s1" using overlap_step.Ask [of ?s0 2 ?i 60 0 0 0 budget_100 "Inr Allowed" fresh_engine] tk u budget_100_allows
    by (simp add: new_payers_def)
  moreover have "?S ?s1 ?s2" using overlap_step.Ask [of ?s1 2 ?i 60 0 0 0 budget_100 "Inr Allowed" fresh_engine] tk u budget_100_allows
    by (simp add: new_payers_def)
  moreover have "?S ?s2 ?s3"
    using overlap_step.Book [of 0 ?s2 0 0 0 "fst (record_payment 0 0 0 ?i fresh_engine)" "snd (record_payment 0 0 0 ?i fresh_engine)" budget_100 2 60] tk
    by (simp add: new_payers_def without_def)
  moreover have "?S ?s3 after_overlap"
    using overlap_step.Book [of 0 ?s3 0 0 0 "fst (record_payment 0 0 0 ?i (py_engine ?s3))" "snd (record_payment 0 0 0 ?i (py_engine ?s3))" budget_100 2 60] tk
    by (simp add: without_def after_overlap_def)
  ultimately show ?thesis by (meson converse_rtranclp_into_rtranclp rtranclp.rtrancl_refl)
qed

theorem overlap_bounds_overspending_witness:
  "(overlap_step budget_100 2 60)\<^sup>*\<^sup>* (new_payers 0 fresh_engine) after_overlap \<and>
   spent (\<lambda>e. entry_asset e = ''USDC'') (py_history after_overlap) = 120 \<and> 120 \<le> BigInt ''100'' + (2 - 1) * (60 :: nat)"
proof -
  have wf: "policy_wf budget_100" by (simp add: policy_wf_def budget_100_def svcCap_def)
  have total: "spent (\<lambda>e. entry_asset e = ''USDC'') (py_history after_overlap) = 120"
    by (simp add: after_overlap_def spent_def sample_intent_def)
  from overlap_bounds_overspending [OF fresh_engine _ wf after_overlap_reachable]
  have "fits_with ((2 - 1) * 60) (Some ''100'') (spent (\<lambda>e. entry_asset e = ''USDC'') (py_history after_overlap))"
    by (simp add: budget_100_def)
  with total after_overlap_reachable show ?thesis unfolding fits_with_def by (metis (no_types, lifting))
qed

end
