(* ===== verification/DemoOutcome.thy ===== *)
theory DemoOutcome
  imports DemoProofs
begin

text \<open>
  The demo in either mode, with any facilitator, payer and packages: whenever it ends with a result, the agent was
  asked to sign for exactly the configured price, and the receipt it was sent is for the offer of that price.
\<close>

definition priced_offer :: "demo_paywall \<Rightarrow> payment_offer" where
  "priced_offer p =
     \<lparr>offer_resource = ''/quotes/latest'', offer_amount = DEMO_AMOUNT, offer_asset = dp_asset p, offer_payTo = dp_payTo p,
      offer_network = dp_network p, offer_models = [X402], offer_mppSessionSupported = None, offer_facilitatorUrl = None\<rparr>"

lemma priced_offer_of_config: "rq_url q = ''/quotes/latest'' \<Longrightarrow> offer_of_config (demo_paywall_config p) q = priced_offer p"
  by (simp add: offer_of_config_def demo_paywall_config_def priced_offer_def or_default_def)

lemma priced_challenge:
  assumes "unpaid_headers pf"
  shows "quote_service (demo_gate pf f p) (pf_agent_headers pf) w =
    (\<lparr>sv_status = 402, sv_headers = set_headers [(PAYMENT_REQUIRED_HEADER, encodeHeader (offer_json (priced_offer p)))] [],
      sv_text = json_stringify (offer_json (priced_offer p))\<rparr>, w)"
proof -
  have "readHeader (pf_agent_headers pf) PAYMENT_SIGNATURE_HEADER = None"
    by (rule readHeader_append(2)) (use assms in \<open>simp add: unpaid_headers_def\<close>)
  then show ?thesis by (simp add: quote_service_def expressPaywall_def demo_gate_def gate_def priced_offer_of_config Let_def)
qed

text \<open>No rejection has the status of a success.\<close>

definition refused :: "settlement_result \<Rightarrow> bool" where
  "refused r \<longleftrightarrow> (\<forall>s x. r = Settlement_not_ok s x \<longrightarrow> s \<noteq> 200)"

lemma refused_simps [simp]:
  "refused (Settlement_ok r replayed ce)" "refused (Settlement_not_ok s x) \<longleftrightarrow> s \<noteq> 200" "refused SETTLEMENT_IN_PROGRESS"
  by (simp_all add: refused_def SETTLEMENT_IN_PROGRESS_def)

lemma settleAndRecord_refused:
  assumes "settleAndRecord ctx h p offer m payer nonce key w = (Inr res, w')" shows "refused res"
  using assms
  by (auto simp: settleAndRecord_def record_settlement_def split: prod.splits sum.splits settle_result.splits option.splits)

lemma settleOnce_refused:
  assumes "settleOnce ctx h p offer m payer nonce key w = (Inr res, w')" shows "refused res"
  using assms
  by (auto simp: settleOnce_def release_after_def releaseOrThrow_def dest: settleAndRecord_refused
      split: prod.splits sum.splits option.splits bool.splits settlement_result.splits if_splits)

lemma toOutcome_rejected: "toOutcome res offer m waited = Inr (Rejected s x) \<Longrightarrow> refused res \<Longrightarrow> s \<noteq> 200"
  by (cases res) (auto simp: toOutcome_simps settled_with_def OFFER_MISMATCH_def split: if_splits)

lemma settleWithHandler_rejected:
  assumes "settleWithHandler ctx Map.empty h p offer m w = (Inr (Rejected s x), w')" shows "s \<noteq> 200"
  using assms
  by (auto simp: settleWithHandler_def Let_def dest: settleOnce_refused toOutcome_rejected
      split: prod.splits sum.splits verify_result.splits)

lemma gate_rejected:
  assumes "gate ctx Map.empty deps config request w = (Inr (Rejected s x), w')" shows "s \<noteq> 200"
  using assms
  by (auto simp: gate_def Let_def dest: settleWithHandler_rejected
      split: option.splits list.splits sum.splits settlement_model.splits)

lemma priced_payment:
  assumes "quote_service (demo_gate pf f p) headers w = (paid, w')" "sv_status paid = 200"
  shows "\<exists>r. matches (receipt r) (priced_offer p) X402 \<and>
    response_header PAYMENT_RESPONSE_HEADER paid = encodeHeader (signed_json r)"
proof -
  let ?q = "\<lparr>rq_method = ''GET'', rq_url = ''/quotes/latest'', rq_headers = headers\<rparr>"
  obtain x w1 where g: "demo_gate pf f p ?q w = (x, w1)" by (rule prod.exhaust)
  have "\<exists>hs r replayed ce. x = Inr (Gate_settled hs r replayed ce) \<and> sv_headers paid = set_headers hs []"
  proof (cases x)
    case (Inl e)
    with assms g show ?thesis by (auto simp: quote_service_def expressPaywall_def)
  next
    case (Inr outcome)
    show ?thesis
    proof (cases outcome)
      case (Rejected s reason)
      with g Inr have "s \<noteq> 200" unfolding demo_gate_def by (intro gate_rejected) simp
      with assms g Inr Rejected show ?thesis by (auto simp: quote_service_def expressPaywall_def)
    qed (use assms g Inr in \<open>auto simp: quote_service_def expressPaywall_def\<close>)
  qed
  then obtain hs r replayed ce where s: "x = Inr (Gate_settled hs r replayed ce)" "sv_headers paid = set_headers hs []" by blast
  from gate_settled [OF g [unfolded demo_gate_def s(1)]] obtain m where m: "matches (receipt r) (priced_offer p) m"
    "gate_model None (priced_offer p) = Inr (Some m)" "hs = [(PAYMENT_RESPONSE_HEADER, encodeHeader (signed_json r))]"
    by (auto simp: priced_offer_of_config)
  have "m = X402" using m(2) by (simp add: gate_model_def priced_offer_def)
  moreover have "response_header PAYMENT_RESPONSE_HEADER paid = encodeHeader (signed_json r)"
    using s(2) m(3) by (simp add: response_header_def set_headers_def set_header_def or_default_def)
  ultimately show ?thesis using m(1) by blast
qed

subsection \<open>Property\<close>

text \<open>C14. The demo pays what is asked and is given a receipt for it, in mock and live mode alike. Whenever a run ends
  with a result, on a platform with working codecs, the payer was asked to sign for the configured amount, asset,
  recipient and network before any payment, the result shows that amount and asset for the quoted resource, and
  what it shows as the receipt was decoded from a receipt for exactly that offer.\<close>

theorem demo_receipt_is_for_the_price:
  assumes "runDemo sdk x402 pf env payer clock h = Inr d" and "codecs_ok pf" and "unpaid_headers pf"
  shows "\<exists>su r auth w'. setUp sdk x402 env payer = Inr su \<and>
    su_payer su
      \<lparr>dr_scheme = ''exact'', dr_network = xp_caip2 x402 (dp_network (su_paywall su)), dr_asset = Some (dp_asset (su_paywall su)),
       dr_amount = Some DEMO_AMOUNT, dr_payTo = Some (dp_payTo (su_paywall su)), dr_maxTimeoutSeconds = MAX_TIMEOUT_SECONDS,
       dr_extra = SPONSORED_FEES\<rparr> (\<lparr>cache_entries = Map.empty, cache_clock = clock\<rparr>, h) = (Inr auth, w') \<and>
    demo_mock d = su_mock su \<and> demo_amount d = Some DEMO_AMOUNT \<and> demo_asset d = Some (dp_asset (su_paywall su)) \<and>
    demo_resource d = Some ''/quotes/latest'' \<and> matches (receipt r) (priced_offer (su_paywall su)) X402 \<and>
    decodeHeader (pf_text_decode pf) (pf_json_parse pf) (encodeHeader (signed_json r)) = Inr (demo_receipt d)"
proof -
  define w where "w = (\<lparr>cache_entries = Map.empty, cache_clock = clock\<rparr>, h)"
  from assms(1) obtain su w9 where su: "setUp sdk x402 env payer = Inr su" and
    run: "demo_rounds pf (xp_caip2 x402) su w = (Inr d, w9)"
    by (cases "setUp sdk x402 env payer"; cases "demo_rounds pf (xp_caip2 x402) (projr (setUp sdk x402 env payer)) w")
      (auto simp: runDemo_def w_def map_sum_def split: sum.splits)
  let ?p = "su_paywall su" and ?o = "priced_offer (su_paywall su)"
  have "encodeHeader (offer_json ?o) = encodeHeader (plain_offer ?o)"
    by (simp add: encodeHeader_def stringify_offer priced_offer_def)
  note asked = decode_sent [OF assms(2) offer_json_data this]
  let ?req = "\<lparr>dr_scheme = ''exact'', dr_network = xp_caip2 x402 (dp_network ?p), dr_asset = Some (dp_asset ?p),
       dr_amount = Some DEMO_AMOUNT, dr_payTo = Some (dp_payTo ?p), dr_maxTimeoutSeconds = MAX_TIMEOUT_SECONDS, dr_extra = SPONSORED_FEES\<rparr>"
  have req: "demo_toRequirements (xp_caip2 x402) (plain_offer ?o) = Inr ?req"
    by (cases "dp_network ?p") (simp_all add: demo_toRequirements_def json_text_def plain_offer_def priced_offer_def isStellarNetwork_def)
  have shown: "json_text ''amount'' (plain_offer ?o) = Some DEMO_AMOUNT" "json_text ''asset'' (plain_offer ?o) = Some (dp_asset ?p)"
    "json_text ''resource'' (plain_offer ?o) = Some ''/quotes/latest''"
    by (simp_all add: json_text_def plain_offer_def priced_offer_def)
  note run = run [unfolded demo_rounds_def Let_def priced_challenge [OF assms(3)], simplified, unfolded header_sent asked, simplified,
    unfolded req shown, simplified]
  from run obtain auth w2 where pay: "su_payer su ?req w = (Inr auth, w2)"
    by (auto split: prod.splits sum.splits)
  obtain paid w3 where q: "quote_service (demo_gate pf (su_facilitator su) ?p)
      (pf_agent_headers pf @ [(PAYMENT_SIGNATURE_HEADER, Header_single auth)]) w2 = (paid, w3)" by (rule prod.exhaust)
  from run pay q have ok: "sv_status paid = 200" by (auto split: if_splits)
  from priced_payment [OF q ok] obtain r where r: "matches (receipt r) ?o X402"
    "response_header PAYMENT_RESPONSE_HEADER paid = encodeHeader (signed_json r)" by blast
  from run pay q ok r(2) have "decodeHeader (pf_text_decode pf) (pf_json_parse pf) (encodeHeader (signed_json r)) = Inr (demo_receipt d) \<and>
      demo_mock d = su_mock su \<and> demo_amount d = Some DEMO_AMOUNT \<and> demo_asset d = Some (dp_asset ?p) \<and> demo_resource d = Some ''/quotes/latest''"
    by (auto simp: shown split: sum.splits)
  with su pay r(1) show ?thesis unfolding w_def by blast
qed

theorem demo_receipt_is_for_the_price_witness:
  "\<forall>sdk x402. \<exists>d r. runDemo sdk x402 sample_platform [''MOCK_MODE'' \<mapsto> ''true''] None 0 () = Inr d \<and>
     demo_receiptValid d \<and> demo_amount d = Some ''10000'' \<and> matches (receipt r) (priced_offer MOCK_PAYWALL) X402 \<and>
     decodeHeader (pf_text_decode sample_platform) (pf_json_parse sample_platform) (encodeHeader (signed_json r)) = Inr (demo_receipt d)"
proof (intro allI)
  fix sdk x402
  let ?env = "[''MOCK_MODE'' \<mapsto> ''true'']"
  obtain d where d: "runDemo sdk x402 sample_platform ?env None 0 () = Inr d" "demo_receiptValid d"
    using mock_demo_run [of ?env sample_platform sdk x402 0 "()"] sample_platform_ok by auto
  have ok: "codecs_ok sample_platform" "unpaid_headers sample_platform" using sample_platform_ok by (simp_all add: platform_ok_def)
  from demo_receipt_is_for_the_price [OF d(1) ok] obtain su r where r: "setUp sdk x402 ?env None = Inr su"
    "demo_amount d = Some DEMO_AMOUNT" "matches (receipt r) (priced_offer (su_paywall su)) X402"
    "decodeHeader (pf_text_decode sample_platform) (pf_json_parse sample_platform) (encodeHeader (signed_json r)) = Inr (demo_receipt d)"
    by blast
  have "su_paywall su = MOCK_PAYWALL" using r(1) by (simp add: setUp_def resolveDemoConfig_def) (auto simp: or_default_def)
  with d r(2-4) show "\<exists>d r. runDemo sdk x402 sample_platform ?env None 0 () = Inr d \<and>
     demo_receiptValid d \<and> demo_amount d = Some ''10000'' \<and> matches (receipt r) (priced_offer MOCK_PAYWALL) X402 \<and>
     decodeHeader (pf_text_decode sample_platform) (pf_json_parse sample_platform) (encodeHeader (signed_json r)) = Inr (demo_receipt d)"
    by (auto simp: DEMO_AMOUNT_def)
qed

end
