(* ===== verification/DemoMain.thy ===== *)
theory DemoMain
  imports DemoProofs
begin

text \<open>
  The demo's command, \<open>apps/demo/src/main.ts\<close>: what it prints for a run of \<open>runDemo\<close> and the exit code it sets.
  A line on the standard output is \<open>Out_line\<close>; \<open>console.error\<close> prints a text or, with a label, an error. How the console
  renders an error, and what the engine says when a property of \<open>undefined\<close> is read, is not said here.

  The receipt comes off the wire, so its properties are read from a JSON value, where they may be missing.
  A challenge's amount and asset that are no strings count as missing, as in \<open>Demo\<close>.
\<close>

subsection \<open>\<open>JSON.stringify\<close> with an indent of two\<close>

definition newline :: string where
  "newline = [CHR 0x0A]"

definition lay_out :: "string \<Rightarrow> string \<Rightarrow> string \<Rightarrow> string list \<Rightarrow> string" where
  "lay_out opening closing ind parts =
     (if parts = [] then opening @ closing
      else opening @ newline @ ind @ ''  '' @ join_with ('','' @ newline @ ind @ ''  '') parts @ newline @ ind @ closing)"

primrec stringify_indented :: "json \<Rightarrow> string \<Rightarrow> string" where
  "stringify_indented JNull ind = ''null''"
| "stringify_indented (JBool b) ind = (if b then ''true'' else ''false'')"
| "stringify_indented (JInt i) ind = int_toString i"
| "stringify_indented (JNonFinite name) ind = ''null''"
| "stringify_indented (JStr s) ind = json_quote s"
| "stringify_indented (JArr vs) ind =
     lay_out ''['' '']'' ind (map (\<lambda>f. f (ind @ ''  '')) (map stringify_indented vs))"
| "stringify_indented (JObj fs) ind =
     lay_out ''{'' ''}'' ind (map (\<lambda>(key, f). json_quote key @ '': '' @ f (ind @ ''  ''))
       (present (map (map_prod id (map_option stringify_indented)) fs)))"

subsection \<open>Reading a received value\<close>

text \<open>A property of a value that may be \<open>undefined\<close>: \<open>undefined\<close> and \<open>null\<close> have none and throw.\<close>

definition property_of :: "(string \<Rightarrow> string) \<Rightarrow> string \<Rightarrow> json option \<Rightarrow> json option result" where
  "property_of engine name v =
     (case v of
        None \<Rightarrow> Inl (PlatformError ''TypeError'' (engine name))
      | Some JNull \<Rightarrow> Inl (PlatformError ''TypeError'' (engine name))
      | Some (JObj fs) \<Rightarrow> Inr (Option.bind (map_of fs name) id)
      | Some _ \<Rightarrow> Inr None)"

text \<open>A value in a template.\<close>

fun template_text :: "json \<Rightarrow> string" where
  "template_text JNull = ''null''"
| "template_text (JBool b) = (if b then ''true'' else ''false'')"
| "template_text (JInt i) = int_toString i"
| "template_text (JNonFinite name) = name"
| "template_text (JStr s) = s"
| "template_text (JArr vs) = join_with '','' (map (\<lambda>v. if v = JNull then [] else template_text v) vs)"
| "template_text (JObj fs) = ''[object Object]''"

definition undefined_or :: "('a \<Rightarrow> string) \<Rightarrow> 'a option \<Rightarrow> string" where
  "undefined_or show_it v = (case v of None \<Rightarrow> ''undefined'' | Some x \<Rightarrow> show_it x)"

subsection \<open>The command\<close>

datatype console_line = Out_line string | Error_line string | Error_value string js_error

definition demo_report :: "demo_result \<Rightarrow> console_line list" where
  "demo_report d = map Out_line
     [''Tollway x402 demo ('' @ (if demo_mock d then ''MOCK_MODE'' else ''live facilitator'') @ '')'', [],
      ''1. Agent requests '' @ undefined_or id (demo_resource d),
      ''   Service answers 402, asking '' @ undefined_or id (demo_amount d) @ '' '' @ undefined_or id (demo_asset d),
      ''2. Agent pays and retries'',
      ''3. Service settles and returns the resource with a signed receipt'', [],
      ''Receipt:'', stringify_indented (demo_receipt d) [], [],
      ''Receipt signature valid: '' @ (if demo_receiptValid d then ''true'' else ''false'')]"

text \<open>The line about the settlement, which the report has for a transaction in live mode.\<close>

definition settlement_lines :: "(string \<Rightarrow> string) \<Rightarrow> demo_result \<Rightarrow> console_line list result" where
  "settlement_lines engine d =
     (case property_of engine ''receipt'' (Some (demo_receipt d)) of
        Inl e \<Rightarrow> Inl e
      | Inr body \<Rightarrow>
          (case property_of engine ''settlement'' body of
             Inl e \<Rightarrow> Inl e
           | Inr settlement \<Rightarrow>
               if demo_mock d then Inr []
               else
                 (case property_of engine ''kind'' settlement of
                    Inl e \<Rightarrow> Inl e
                  | Inr kind \<Rightarrow>
                      if kind = Some (JStr ''transaction'')
                      then map_sum id (\<lambda>txHash. [Out_line (''Settlement transaction: '' @ undefined_or template_text txHash)])
                        (property_of engine ''txHash'' settlement)
                      else Inr [])))"

definition report_failure :: "demo_error \<Rightarrow> console_line list" where
  "report_failure e =
     (case e of
        Demo_config_error problems \<Rightarrow>
          Error_line ''Live mode is not configured. Set MOCK_MODE=true to run offline, or fix:'' #
          map (\<lambda>problem. Error_line (''  - '' @ problem)) problems
      | Demo_error error \<Rightarrow> [Error_value ''Demo failed:'' error])"

text \<open>What is printed, and the exit code.\<close>

definition demo_command :: "(string \<Rightarrow> string) \<Rightarrow> demo_error + demo_result \<Rightarrow> console_line list \<times> nat" where
  "demo_command engine run =
     (case run of
        Inl e \<Rightarrow> (report_failure e, 1)
      | Inr d \<Rightarrow>
          (case settlement_lines engine d of
             Inl e \<Rightarrow> (demo_report d @ report_failure (Demo_error e), 1)
           | Inr settled_as \<Rightarrow> (demo_report d @ settled_as, if demo_receiptValid d then 0 else 1)))"

subsection \<open>The printed receipt\<close>

text \<open>A text without its layout: outside of string literals, blanks and line ends are dropped.\<close>

datatype scan = Outside | In_literal | After_escape

fun compact :: "scan \<Rightarrow> string \<Rightarrow> string" where
  "compact m [] = []"
| "compact Outside (c # cs) =
     (if c \<in> {CHR '' '', CHR 0x0A} then compact Outside cs
      else c # compact (if c = CHR 0x22 then In_literal else Outside) cs)"
| "compact In_literal (c # cs) =
     c # compact (if c = CHR 0x5C then After_escape else if c = CHR 0x22 then Outside else In_literal) cs"
| "compact After_escape (c # cs) = c # compact In_literal cs"

definition carries :: "string \<Rightarrow> string \<Rightarrow> bool" where
  "carries laid_out text \<longleftrightarrow> (\<forall>x. compact Outside (laid_out @ x) = text @ compact Outside x)"

lemma carries_append: "carries p t \<Longrightarrow> carries q u \<Longrightarrow> carries (p @ q) (t @ u)"
  by (simp add: carries_def)

lemma carries_Nil [simp]: "carries [] []"
  by (simp add: carries_def)

lemma carries_blank: "list_all (\<lambda>c. c \<in> {CHR '' '', CHR 0x0A}) p \<Longrightarrow> carries p []"
  by (induction p) (auto simp: carries_def)

lemma carries_plain: "list_all (\<lambda>c. c \<notin> {CHR '' '', CHR 0x0A, CHR 0x22}) p \<Longrightarrow> carries p p"
  by (induction p) (auto simp: carries_def)

lemma compact_literal_plain:
  "list_all (\<lambda>c. c \<notin> {CHR 0x22, CHR 0x5C}) p \<Longrightarrow> compact In_literal (p @ x) = p @ compact In_literal x"
  by (induction p) auto

lemma hex_digit_plain: "n < 16 \<Longrightarrow> hex_digit n \<notin> {CHR 0x22, CHR 0x5C}"
proof -
  assume "n < 16"
  then have "(of_char (hex_digit n) :: nat) \<notin> {34, 92}" by (auto simp: hex_digit_def)
  then show ?thesis by auto
qed

lemma compact_escape: "compact In_literal (json_escape c @ x) = json_escape c @ compact In_literal x"
proof -
  have "c \<noteq> CHR 0x22" if "(of_char c :: nat) \<noteq> 34" using that by auto
  moreover have "c \<noteq> CHR 0x5C" if "(of_char c :: nat) \<noteq> 92" using that by auto
  moreover have "hex_digit (of_char c mod 16) \<notin> {CHR 0x22, CHR 0x5C}"
    "(of_char c :: nat) < 32 \<Longrightarrow> hex_digit (of_char c div 16) \<notin> {CHR 0x22, CHR 0x5C}"
    by (rule hex_digit_plain, simp)+
  ultimately show ?thesis by (simp add: json_escape_def Let_def)
qed

lemma compact_escapes:
  "compact In_literal (concat (map json_escape s) @ CHR 0x22 # x) = concat (map json_escape s) @ CHR 0x22 # compact Outside x"
  by (induction s) (simp_all add: compact_escape)

lemma carries_quote: "carries (json_quote s) (json_quote s)"
  by (simp add: carries_def json_quote_def compact_escapes)

lemma carries_int: "carries (int_toString i) (int_toString i)"
proof (rule carries_plain)
  show "list_all (\<lambda>c. c \<notin> {CHR '' '', CHR 0x0A, CHR 0x22}) (int_toString i)"
    using int_toString_chars [of i] by (auto simp: list_all_iff number_char_def is_digit_def)
qed

lemma carries_join:
  assumes "carries sep sep'" "list_all2 carries ps ts"
  shows "carries (join_with sep ps) (join_with sep' ts)"
  using assms(2,1)
proof (induction ps ts rule: list_all2_induct)
  case (Cons p ps t ts)
  then show ?case by (cases ps; cases ts) (simp_all add: carries_append)
qed simp

lemma carries_lay_out:
  assumes "list_all2 carries ps ts" "carries opening opening" "carries closing closing" "list_all (\<lambda>c. c = CHR '' '') ind"
  shows "carries (lay_out opening closing ind ps) (opening @ join_with '','' ts @ closing)"
proof (cases "ps = []")
  case False
  have "list_all (\<lambda>c. c \<in> {CHR '' '', CHR 0x0A}) ind" using assms(4) by (rule list.pred_mono_strong) simp
  then have sp: "carries (newline @ ind) []" "carries (newline @ ind @ ''  '') []"
    by (auto intro!: carries_blank simp: newline_def)
  have "carries ('','' @ newline @ ind @ ''  '') ('','' @ [])"
    by (intro carries_append sp(2)) (rule carries_plain, simp)
  with assms(1) have "carries (join_with ('','' @ newline @ ind @ ''  '') ps) (join_with '','' ts)"
    by (intro carries_join) simp_all
  from carries_append [OF assms(2) carries_append [OF sp(2) carries_append [OF this carries_append [OF sp(1) assms(3)]]]]
  show ?thesis using False by (simp add: lay_out_def)
qed (use assms in \<open>simp add: lay_out_def carries_append\<close>)

lemma carries_stringify:
  "list_all (\<lambda>c. c = CHR '' '') ind \<Longrightarrow> carries (stringify_indented v ind) (json_stringify v)"
proof (induction v arbitrary: ind)
  case (JArr vs)
  have "list_all2 carries (map (\<lambda>f. f (ind @ ''  '')) (map stringify_indented vs)) (map json_stringify vs)"
    using JArr by (auto simp: list_all2_conv_all_nth list_all_iff)
  from carries_lay_out [OF this, of "''[''" "'']''" ind] JArr.prems show ?case by (simp add: carries_plain)
next
  case (JObj fs)
  let ?f = "filter (\<lambda>f. snd f \<noteq> None) fs"
  have part: "carries (json_quote k @ '': '' @ stringify_indented v (ind @ ''  '')) (json_quote k @ '':'' @ json_stringify v)"
    if "(k, Some v) \<in> set fs" for k v
  proof -
    have "carries (stringify_indented v (ind @ ''  '')) (json_stringify v)"
      by (rule JObj.IH [OF that]) (use JObj.prems in simp_all)
    moreover have "carries '': '' '':''" by (simp add: carries_def)
    ultimately show ?thesis by (intro carries_append carries_quote)
  qed
  have parts: "map (\<lambda>(key, f). g key f) (present (map (map_prod id (map_option h)) fs)) =
      map (\<lambda>f. g (fst f) (h (the (snd f)))) ?f" for g :: "string \<Rightarrow> 'x \<Rightarrow> string" and h :: "json \<Rightarrow> 'x"
    by (simp only: present_def filter_map_option) (auto simp: comp_def map_prod_def case_prod_beta)
  have "list_all2 carries
      (map (\<lambda>f. json_quote (fst f) @ '': '' @ stringify_indented (the (snd f)) (ind @ ''  '')) ?f)
      (map (\<lambda>f. json_quote (fst f) @ '':'' @ json_stringify (the (snd f))) ?f)"
    by (auto simp: list_all2_map1 list_all2_map2 intro!: list.rel_refl_strong part [simplified])
  from carries_lay_out [OF this, of "''{''" "''}''" ind] JObj.prems show ?case
    by (simp only: stringify_indented.simps json_stringify.simps
        parts [of "\<lambda>key f. json_quote key @ '': '' @ f (ind @ ''  '')" stringify_indented]
        parts [of "\<lambda>key part. json_quote key @ '':'' @ part" json_stringify]) (simp add: carries_plain)
qed (simp_all add: carries_plain carries_quote carries_int)

lemma printed_receipt: "compact Outside (stringify_indented v []) = json_stringify v"
  using carries_stringify [of "[]" v, unfolded carries_def, rule_format, of "[]"] by simp

subsection \<open>A run that is reported\<close>

text \<open>Parsing an object with the schema keeps its values: what was parsed has the receipt's settlement.\<close>

definition schema_reads :: "(json \<Rightarrow> issue list + signed_receipt) \<Rightarrow> bool" where
  "schema_reads safeParse \<longleftrightarrow> (\<forall>v r. safeParse v = Inr r \<longrightarrow>
     (\<exists>fs bs ss qs. v = JObj fs \<and> map_of fs ''receipt'' = Some (Some (JObj bs)) \<and>
       map_of bs ''settlement'' = Some (Some (JObj ss)) \<and> settlement_json (body_settlement (receipt r)) = JObj qs \<and>
       set qs \<subseteq> set ss \<and> distinct (map fst ss)))"

definition transaction_lines :: "bool \<Rightarrow> settlement_ref \<Rightarrow> console_line list" where
  "transaction_lines mock q =
     (case q of Transaction_ref tx \<Rightarrow> if mock then [] else [Out_line (''Settlement transaction: '' @ tx)] | _ \<Rightarrow> [])"

lemma settlement_lines_read:
  assumes "schema_reads safeParse" "safeParse (demo_receipt d) = Inr r"
  shows "settlement_lines engine d = Inr (transaction_lines (demo_mock d) (body_settlement (receipt r)))"
proof -
  from assms obtain fs bs ss qs where v: "demo_receipt d = JObj fs" "map_of fs ''receipt'' = Some (Some (JObj bs))"
      "map_of bs ''settlement'' = Some (Some (JObj ss))" and q: "settlement_json (body_settlement (receipt r)) = JObj qs"
      "set qs \<subseteq> set ss" "distinct (map fst ss)"
    unfolding schema_reads_def by blast
  have kept: "map_of ss k = Some t" if "(k, t) \<in> set qs" for k t using that q(2,3) by (simp add: subset_iff)
  show ?thesis
    using q(1) kept
    by (cases "body_settlement (receipt r)")
      (auto simp: settlement_lines_def property_of_def v transaction_lines_def undefined_or_def)
qed

lemma valid_run_parses:
  assumes "runDemo sdk x402 pf env payer clock h = Inr d" "demo_receiptValid d"
  shows "\<exists>r. pf_safeParse pf (demo_receipt d) = Inr r"
proof -
  have "\<exists>r. safeParse v = Inr r" if "verifyReceipt safeParse v ver = Inr Valid" for safeParse and v :: json and ver
    using that by (auto simp: verifyReceipt_def split: sum.splits)
  with assms show ?thesis
    by (auto simp: runDemo_def demo_rounds_def Let_def map_sum_def split: sum.splits prod.splits if_splits)
qed

lemma unconfigured_run:
  assumes "env ''MOCK_MODE'' \<noteq> Some ''true''" "demo_problems sdk env \<noteq> []"
  shows "runDemo sdk x402 pf env payer clock h = Inl (Demo_config_error (demo_problems sdk env))"
  using assms by (simp add: runDemo_def setUp_def resolveDemoConfig_def)

subsection \<open>Property\<close>

text \<open>C37. The command reports the run truthfully. It exits with 0 exactly if the run ended with a receipt that verifies,
  else with 1. What it prints as the receipt is, without its layout, the JSON text of what was received. With a
  valid receipt the report is complete and names the settlement transaction of the receipt that was verified, in
  live mode. If live mode is not configured, exactly the problems of the configuration are listed, and nothing
  else is printed.\<close>

theorem demo_command_reports_the_run:
  assumes "schema_reads (pf_safeParse pf)" and run: "run = runDemo sdk x402 pf env payer clock h"
  shows "snd (demo_command engine run) = (if \<exists>d. run = Inr d \<and> demo_receiptValid d then 0 else 1) \<and>
    (\<forall>d. run = Inr d \<longrightarrow> (\<exists>t. Out_line t \<in> set (fst (demo_command engine run)) \<and> compact Outside t = json_stringify (demo_receipt d))) \<and>
    (\<forall>d. run = Inr d \<and> demo_receiptValid d \<longrightarrow> (\<exists>r. pf_safeParse pf (demo_receipt d) = Inr r \<and>
      fst (demo_command engine run) = demo_report d @ transaction_lines (demo_mock d) (body_settlement (receipt r)))) \<and>
    (env ''MOCK_MODE'' \<noteq> Some ''true'' \<and> demo_problems sdk env \<noteq> [] \<longrightarrow> fst (demo_command engine run) =
      Error_line ''Live mode is not configured. Set MOCK_MODE=true to run offline, or fix:'' #
      map (\<lambda>problem. Error_line (''  - '' @ problem)) (demo_problems sdk env))"
proof (intro conjI)
  have valid: "\<exists>r. pf_safeParse pf (demo_receipt d) = Inr r \<and>
      settlement_lines engine d = Inr (transaction_lines (demo_mock d) (body_settlement (receipt r)))"
    if "run = Inr d" "demo_receiptValid d" for d
    using valid_run_parses [OF that(1) [unfolded run] that(2)] settlement_lines_read [OF assms(1)] by blast
  show "snd (demo_command engine run) = (if \<exists>d. run = Inr d \<and> demo_receiptValid d then 0 else 1)"
    by (cases run) (auto simp: demo_command_def dest: valid split: sum.split)
  show "\<forall>d. run = Inr d \<and> demo_receiptValid d \<longrightarrow> (\<exists>r. pf_safeParse pf (demo_receipt d) = Inr r \<and>
      fst (demo_command engine run) = demo_report d @ transaction_lines (demo_mock d) (body_settlement (receipt r)))"
    using valid by (fastforce simp: demo_command_def)
  have "Out_line (stringify_indented (demo_receipt d) []) \<in> set (fst (demo_command engine (Inr d)))" for d
    by (simp add: demo_command_def demo_report_def split: sum.split)
  then show "\<forall>d. run = Inr d \<longrightarrow>
      (\<exists>t. Out_line t \<in> set (fst (demo_command engine run)) \<and> compact Outside t = json_stringify (demo_receipt d))"
    using printed_receipt by blast
  show "env ''MOCK_MODE'' \<noteq> Some ''true'' \<and> demo_problems sdk env \<noteq> [] \<longrightarrow> fst (demo_command engine run) =
      Error_line ''Live mode is not configured. Set MOCK_MODE=true to run offline, or fix:'' #
      map (\<lambda>problem. Error_line (''  - '' @ problem)) (demo_problems sdk env)"
    by (simp add: run unconfigured_run demo_command_def report_failure_def)
qed

text \<open>The sample platform with a schema that accepts nothing but receipts.\<close>

definition strict_platform :: "(unit, unit) demo_platform" where
  "strict_platform = sample_platform
     \<lparr>pf_safeParse := \<lambda>j. if j \<in> range signed_json then pf_safeParse sample_platform j else Inl []\<rparr>"

lemma strict_platform_ok: "platform_ok strict_platform" "schema_reads (pf_safeParse strict_platform)"
proof -
  show "platform_ok strict_platform"
    using sample_platform_ok
    by (simp add: platform_ok_def codecs_ok_def keys_ok_def clock_ok_def unpaid_headers_def strict_platform_def)
  have "\<exists>qs. settlement_json q = JObj qs \<and> distinct (map fst qs)" for q by (cases q) simp_all
  moreover have "j = signed_json r" if "pf_safeParse strict_platform j = Inr r" for j r
    using that by (auto simp: strict_platform_def sample_platform_def Let_def inv_f_f [OF signed_json_inj] split: if_splits)
  ultimately show "schema_reads (pf_safeParse strict_platform)"
    unfolding schema_reads_def by (fastforce simp: signed_json_def body_json_def)
qed

theorem demo_command_reports_the_run_witness:
  "\<forall>sdk x402 engine. \<exists>t lines. demo_command engine
      (runDemo sdk x402 strict_platform [''MOCK_MODE'' \<mapsto> ''true''] None 0 ()) = (lines, 0) \<and> Out_line t \<in> set lines \<and>
    (\<exists>r. compact Outside t = json_stringify (signed_json r))"
proof (intro allI)
  fix sdk x402 engine
  let ?env = "[''MOCK_MODE'' \<mapsto> ''true'']"
  let ?run = "runDemo sdk x402 strict_platform ?env None 0 ()"
  obtain d r where d: "?run = Inr d" "demo_receiptValid d" "demo_receipt d = signed_json r"
    using mock_demo_run [of ?env strict_platform sdk x402 0 "()"] strict_platform_ok(1) by auto
  note t = demo_command_reports_the_run [OF strict_platform_ok(2) refl, of engine sdk x402 ?env None 0 "()"]
  from t d(1,2) have "snd (demo_command engine ?run) = 0" by auto
  moreover from t d(1) obtain s where "Out_line s \<in> set (fst (demo_command engine ?run))"
    "compact Outside s = json_stringify (demo_receipt d)" by blast
  ultimately show "\<exists>t lines. demo_command engine ?run = (lines, 0) \<and> Out_line t \<in> set lines \<and>
      (\<exists>r. compact Outside t = json_stringify (signed_json r))"
    using d(3) by (metis prod.collapse)
qed

end
