(* ===== verification/Markup.thy ===== *)
theory Markup
  imports Prelude
begin

text \<open>
  The dashboard's markup: HTML trees, the building blocks of \<open>apps/dashboard/src/components/ui\<close>, and the frame of
  \<open>components/shell\<close> with its navigation and theme toggle. A component is the tree it renders. Attributes of style
  (\<open>className\<close>, colours, the paths of drawings) and event handlers are left out; what the handlers do is in
  \<open>Pages\<close>. \<open>next/link\<close> renders an anchor.
\<close>

subsection \<open>Trees\<close>

datatype html = Text string | Tag string "(string \<times> string) list" "html list"

text \<open>The elements of a tree, itself first, and the text a reader sees.\<close>

fun elements :: "html \<Rightarrow> html list" where
  "elements (Text s) = []"
| "elements (Tag n as hs) = Tag n as hs # concat (map elements hs)"

fun text_content :: "html \<Rightarrow> string" where
  "text_content (Text s) = s"
| "text_content (Tag n as hs) = concat (map text_content hs)"

fun tag_name :: "html \<Rightarrow> string" where
  "tag_name (Text s) = []"
| "tag_name (Tag n as hs) = n"

fun attr :: "string \<Rightarrow> html \<Rightarrow> string option" where
  "attr a (Text s) = None"
| "attr a (Tag n as hs) = map_of as a"

fun children_of :: "html \<Rightarrow> html list" where
  "children_of (Text s) = []"
| "children_of (Tag n as hs) = hs"

definition page_elements :: "html list \<Rightarrow> html list" where
  "page_elements hs = concat (map elements hs)"

lemma page_elements_simps [simp]:
  "page_elements [] = []" "page_elements (h # hs) = elements h @ page_elements hs"
  "page_elements (hs @ hs') = page_elements hs @ page_elements hs'"
  by (simp_all add: page_elements_def)

lemma elements_Tag [simp]: "elements (Tag n as hs) = Tag n as hs # page_elements hs"
  by (simp add: page_elements_def)

declare elements.simps(2) [simp del]

text \<open>\<open>text && node\<close>: nothing when the text is absent or empty.\<close>

definition when_text :: "string option \<Rightarrow> (string \<Rightarrow> html) \<Rightarrow> html list" where
  "when_text s f = (case s of Some (c # cs) \<Rightarrow> [f (c # cs)] | _ \<Rightarrow> [])"

lemma when_text_simps [simp]: "when_text None f = []" "when_text (Some []) f = []" "when_text (Some (c # cs)) f = [f (c # cs)]"
  by (simp_all add: when_text_def)

subsection \<open>Building blocks\<close>

definition Badge :: "html list \<Rightarrow> html" where
  "Badge content = Tag ''span'' [] content"

definition EmptyState :: "string \<Rightarrow> string \<Rightarrow> string option \<Rightarrow> html list \<Rightarrow> html" where
  "EmptyState title body source icon = Tag ''div'' []
     ((if icon = [] then [] else [Tag ''span'' [] icon]) @
      [Tag ''p'' [] [Text title], Tag ''p'' [] [Text body]] @
      when_text source (\<lambda>s. Tag ''code'' [] [Text s]))"

definition PageHeader :: "string \<Rightarrow> string option \<Rightarrow> html list \<Rightarrow> html" where
  "PageHeader title lead action = Tag ''header'' []
     (Tag ''div'' [] (Tag ''h1'' [] [Text title] # when_text lead (\<lambda>s. Tag ''p'' [] [Text s])) # action)"

definition Panel :: "string \<Rightarrow> string option \<Rightarrow> html list \<Rightarrow> html list \<Rightarrow> html" where
  "Panel title description action content = Tag ''section'' []
     [Tag ''div'' [] (Tag ''div'' [] (Tag ''h2'' [] [Text title] # when_text description (\<lambda>s. Tag ''p'' [] [Text s])) # action),
      Tag ''div'' [] content]"

definition StatCard :: "string \<Rightarrow> html \<Rightarrow> string option \<Rightarrow> html" where
  "StatCard label v hint = Tag ''div'' []
     ([Tag ''p'' [] [Text label], Tag ''p'' [] [v]] @ when_text hint (\<lambda>s. Tag ''p'' [] [Text s]))"

definition drawing :: html where
  "drawing = Tag ''svg'' [(''aria-hidden'', ''true'')] []"

subsection \<open>Navigation\<close>

record nav_item =
  nav_label :: string
  nav_href :: string
  nav_icon :: string
  nav_summary :: string

definition navItems :: "nav_item list" where
  "navItems =
     [\<lparr>nav_label = ''Overview'', nav_href = ''/'', nav_icon = ''overview'',
       nav_summary = ''Spend, model mix, failures, and open channels at a glance.''\<rparr>,
      \<lparr>nav_label = ''Agents'', nav_href = ''/agents'', nav_icon = ''agents'',
       nav_summary = ''Per-agent spend over time and budget usage.''\<rparr>,
      \<lparr>nav_label = ''Services'', nav_href = ''/services'', nav_icon = ''services'',
       nav_summary = ''Per-service revenue, model mix, and latency.''\<rparr>,
      \<lparr>nav_label = ''Channels'', nav_href = ''/channels'', nav_icon = ''channels'',
       nav_summary = ''Open MPP channels and their remaining budget.''\<rparr>,
      \<lparr>nav_label = ''Receipts'', nav_href = ''/receipts'', nav_icon = ''receipts'',
       nav_summary = ''The canonical signed receipt archive, searchable.''\<rparr>,
      \<lparr>nav_label = ''Anomalies'', nav_href = ''/anomalies'', nav_icon = ''anomalies'',
       nav_summary = ''Spend spikes and policy stops as they fire.''\<rparr>,
      \<lparr>nav_label = ''Exports'', nav_href = ''/exports'', nav_icon = ''exports'',
       nav_summary = ''JSON and CSV exports and outgoing webhooks.''\<rparr>]"

definition isActive :: "string \<Rightarrow> string \<Rightarrow> bool" where
  "isActive pathname href = (if href = ''/'' then pathname = ''/'' else take (length href) pathname = href)"

definition nav_link :: "string \<Rightarrow> nav_item \<Rightarrow> html" where
  "nav_link pathname item =
     Tag ''a'' ((''href'', nav_href item) # (if isActive pathname (nav_href item) then [(''aria-current'', ''page'')] else []))
       [drawing, Text (nav_label item)]"

text \<open>The centre dot of the footer is character \<open>B7\<close>.\<close>

definition Sidebar :: "string \<Rightarrow> html" where
  "Sidebar pathname = Tag ''aside'' []
     [Tag ''a'' [(''href'', ''/'')]
        [drawing, Tag ''span'' [] [Tag ''span'' [] [Text ''Tollway''], Tag ''span'' [] [Text ''Dashboard'']]],
      Tag ''nav'' [(''aria-label'', ''Dashboard sections'')] (map (nav_link pathname) navItems),
      Tag ''div'' [] [Tag ''p'' [] [Text (''Scaffold '' @ [CHR 0xB7] @ '' pre-release'')]]]"

text \<open>The theme toggle before and after it is mounted; \<open>resolved\<close> is the theme in force. Its click sets a theme.\<close>

definition is_dark :: "bool \<Rightarrow> string option \<Rightarrow> bool" where
  "is_dark mounted resolved \<longleftrightarrow> mounted \<and> resolved = Some ''dark''"

definition toggled_theme :: "bool \<Rightarrow> string option \<Rightarrow> string" where
  "toggled_theme mounted resolved = (if is_dark mounted resolved then ''light'' else ''dark'')"

definition ThemeToggle :: "bool \<Rightarrow> string option \<Rightarrow> html" where
  "ThemeToggle mounted resolved =
     Tag ''button'' [(''type'', ''button''), (''aria-label'', ''Toggle color theme''),
         (''aria-pressed'', if is_dark mounted resolved then ''true'' else ''false'')]
       [drawing, drawing]"

definition Topbar :: "bool \<Rightarrow> string option \<Rightarrow> html" where
  "Topbar mounted resolved = Tag ''header'' []
     [Tag ''a'' [(''href'', ''/'')] [drawing, Tag ''span'' [] [Text ''Tollway'']],
      Tag ''div'' [] [Badge [Text ''Observability'']],
      Tag ''div'' [] [Tag ''a'' [(''href'', ''https://github.com/vegaforge/tollway'')] [Text ''GitHub''], ThemeToggle mounted resolved]]"

definition DashboardShell :: "string \<Rightarrow> bool \<Rightarrow> string option \<Rightarrow> html list \<Rightarrow> html" where
  "DashboardShell pathname mounted resolved content = Tag ''div'' []
     [Sidebar pathname, Tag ''div'' [] [Topbar mounted resolved, Tag ''main'' [] content]]"

text \<open>The document around every page: the theme provider hands its options to the library's.\<close>

record theme_options =
  theme_attribute :: string
  theme_default :: string
  theme_enableSystem :: bool
  theme_disableTransitionOnChange :: bool

definition ThemeProvider :: "(theme_options \<Rightarrow> html list \<Rightarrow> html list) \<Rightarrow> html list \<Rightarrow> html list" where
  "ThemeProvider next_themes content = next_themes
     \<lparr>theme_attribute = ''class'', theme_default = ''system'', theme_enableSystem = True, theme_disableTransitionOnChange = True\<rparr>
     content"

definition RootLayout ::
  "(theme_options \<Rightarrow> html list \<Rightarrow> html list) \<Rightarrow> string \<Rightarrow> bool \<Rightarrow> string option \<Rightarrow> html list \<Rightarrow> html" where
  "RootLayout next_themes pathname mounted resolved content = Tag ''html'' [(''lang'', ''en'')]
     [Tag ''body'' [] (ThemeProvider next_themes [DashboardShell pathname mounted resolved content])]"

lemmas block_defs = Badge_def EmptyState_def PageHeader_def Panel_def StatCard_def drawing_def
lemmas shell_defs = nav_link_def Sidebar_def ThemeToggle_def Topbar_def DashboardShell_def

subsection \<open>One section at a time\<close>

definition active_items :: "string \<Rightarrow> nav_item list" where
  "active_items pathname = filter (\<lambda>i. isActive pathname (nav_href i)) navItems"

text \<open>No section's path starts like another's, so no two of them start the same path.\<close>

lemma sections_clash:
  "\<forall>x\<in>set navItems. \<forall>y\<in>set navItems. nav_href x \<noteq> ''/'' \<longrightarrow> nav_href y \<noteq> ''/'' \<longrightarrow>
    take (length (nav_href x)) (nav_href y) = take (length (nav_href y)) (nav_href x) \<longrightarrow> x = y"
  by code_simp

lemma hrefs_distinct: "inj_on nav_href (set navItems)"
  by (simp add: inj_on_def navItems_def)

lemma sections_apart:
  assumes "i \<in> set navItems" "j \<in> set navItems" "isActive p (nav_href i)" "isActive p (nav_href j)"
  shows "i = j"
proof -
  show ?thesis
  proof (cases "nav_href i = ''/'' \<or> nav_href j = ''/''")
    case True
    have long: "nav_href x = ''/''" if "x \<in> set navItems" "isActive ''/'' (nav_href x)" for x
      using that by (auto simp: navItems_def isActive_def)
    from True assms(3,4) have "p = ''/''" by (auto simp: isActive_def)
    with assms long [of i] long [of j] have "nav_href i = nav_href j" by simp
    with assms(1,2) show ?thesis using hrefs_distinct by (auto dest: inj_onD)
  next
    case False
    with assms(3,4) have "take (length (nav_href i)) p = nav_href i" "take (length (nav_href j)) p = nav_href j"
      by (simp_all add: isActive_def)
    then have "take (length (nav_href i)) (nav_href j) = take (length (nav_href j)) (nav_href i)"
      by (metis min.commute take_take)
    with sections_clash assms(1,2) False show ?thesis by blast
  qed
qed

lemma filter_at_most_one: "distinct xs \<Longrightarrow> (\<And>x y. x \<in> set xs \<Longrightarrow> y \<in> set xs \<Longrightarrow> P x \<Longrightarrow> P y \<Longrightarrow> x = y) \<Longrightarrow> length (filter P xs) \<le> 1"
proof (induction xs)
  case (Cons a xs)
  show ?case
  proof (cases "P a")
    case True
    with Cons.prems have "filter P xs = []" by (auto simp: filter_empty_conv)
    with True show ?thesis by simp
  qed (use Cons in auto)
qed simp

lemma current_links:
  "filter (\<lambda>e. attr ''aria-current'' e = Some ''page'') (page_elements (map (nav_link p) is)) =
    map (nav_link p) (filter (\<lambda>i. isActive p (nav_href i)) is)"
  by (induction "is") (simp_all add: nav_link_def drawing_def)

text \<open>The navigation marks the section one is in and no other: at every path at most one item of the sidebar is
  current, at every path that starts with an item's own exactly that item is, and the sidebar marks as the current
  page the links of the active items and nothing else. The overview is current only on its own path.\<close>

theorem one_section_is_current:
  "length (active_items p) \<le> 1 \<and>
   (\<forall>i\<in>set navItems. nav_href i \<noteq> ''/'' \<longrightarrow> active_items (nav_href i @ rest) = [i]) \<and>
   filter (\<lambda>e. attr ''aria-current'' e = Some ''page'') (elements (Sidebar p)) = map (nav_link p) (active_items p)"
proof (intro conjI ballI impI)
  have d: "distinct navItems" by (simp add: navItems_def)
  show "length (active_items p) \<le> 1"
    unfolding active_items_def by (rule filter_at_most_one [OF d]) (rule sections_apart)
  show "active_items (nav_href i @ rest) = [i]" if i: "i \<in> set navItems" "nav_href i \<noteq> ''/''" for i
  proof -
    let ?p = "nav_href i @ rest"
    have active: "i \<in> set (active_items ?p)" using i by (simp add: active_items_def isActive_def)
    moreover have "length (active_items ?p) \<le> 1"
      unfolding active_items_def by (rule filter_at_most_one [OF d]) (rule sections_apart)
    ultimately show ?thesis by (cases "active_items ?p") auto
  qed
  show "filter (\<lambda>e. attr ''aria-current'' e = Some ''page'') (elements (Sidebar p)) = map (nav_link p) (active_items p)"
    by (simp add: Sidebar_def drawing_def current_links active_items_def)
qed

theorem one_section_is_current_witness:
  "map nav_label (active_items ''/channels/ch-1'') = [''Channels'']"
proof -
  have "navItems ! 3 \<in> set navItems" "nav_href (navItems ! 3) = ''/channels''" "nav_label (navItems ! 3) = ''Channels''"
    by (simp_all add: navItems_def)
  with one_section_is_current [of "[]" "''/ch-1''"] show ?thesis by fastforce
qed

end
