(* ===== verification/Pages.thy ===== *)
theory Pages
  imports Views Markup
begin

text \<open>
  The pages of the dashboard as HTML trees: \<open>agents-view.tsx\<close>, \<open>channels-view.tsx\<close> and \<open>receipts-view.tsx\<close> in
  each state of their subscriptions, the pages that place them, and the placeholders. Rendering throws where an
  amount is no integer, which is \<open>None\<close>. Characters above 255 are arguments, and so is the text of a fractional
  number in the style of the drawdown bar.

  \<open>Dashboard\<close> and \<open>Views\<close> say what the views show as values; here it is shown that the markup shows that.
\<close>

record glyphs =
  gl_ellipsis :: string
  gl_up :: string
  gl_down :: string
  gl_dash :: string
  gl_dot :: string

definition p_text :: "string \<Rightarrow> html" where
  "p_text s = Tag ''p'' [] [Text s]"

definition column_head :: "string \<Rightarrow> html" where
  "column_head s = Tag ''th'' [(''scope'', ''col'')] [Text s]"

definition table_of :: "html list \<Rightarrow> html list \<Rightarrow> html" where
  "table_of head rows = Tag ''div'' []
     [Tag ''table'' [] [Tag ''thead'' [] [Tag ''tr'' [] head], Tag ''tbody'' [] rows]]"

definition skeleton :: "string \<Rightarrow> html" where
  "skeleton testid = Tag ''div'' [(''data-testid'', testid)] (replicate 3 (Tag ''div'' [] []))"

definition alert_of :: "string \<Rightarrow> js_error \<Rightarrow> html" where
  "alert_of headline e = Tag ''div'' [(''role'', ''alert'')] [p_text headline, p_text (error_message e)]"

definition rows_of :: "'a list remote \<Rightarrow> 'a list" where
  "rows_of state = (case state of Ready rows \<Rightarrow> rows | _ \<Rightarrow> [])"

definition when_ready :: "'a remote \<Rightarrow> string \<Rightarrow> html" where
  "when_ready state s = Text (case state of Ready _ \<Rightarrow> s | _ \<Rightarrow> ''-'')"

text \<open>The body of a panel: skeleton, alert, a line for no rows, or the content.\<close>

definition remote_body :: "'a list remote \<Rightarrow> html \<Rightarrow> (js_error \<Rightarrow> html) \<Rightarrow> string \<Rightarrow> html \<Rightarrow> html list" where
  "remote_body state loading failure none_yet content =
     (case state of
        Loading \<Rightarrow> [loading]
      | Failed e \<Rightarrow> [failure e]
      | Ready rows \<Rightarrow> [if rows = [] then p_text none_yet else content])"

subsection \<open>Agents\<close>

definition AgentsTableSkeleton :: html where
  "AgentsTableSkeleton = skeleton ''agents-skeleton''"

definition AgentsTableError :: "js_error \<Rightarrow> html" where
  "AgentsTableError e = alert_of ''Could not load agent spend'' e"

definition agent_tr :: "agent_row \<Rightarrow> html" where
  "agent_tr row = Tag ''tr'' []
     [Tag ''td'' [] [Tag ''span'' [] [Text (ag_label row)], Tag ''span'' [] [Text (ag_id row)]],
      Tag ''td'' [] [Text (formatAmount (ag_spend row) (ag_asset row))],
      Tag ''td'' [] [Text (formatAmount (ag_budget row) (ag_asset row))]]"

definition AgentsTable :: "glyphs \<Rightarrow> agent_row list \<Rightarrow> sort_direction \<Rightarrow> html" where
  "AgentsTable g rows direction = table_of
     [column_head ''Agent'',
      Tag ''th'' [(''scope'', ''col''), (''aria-sort'', if direction = Asc then ''ascending'' else ''descending'')]
        [Tag ''button'' [(''type'', ''button'')]
           [Text ''Spend'', Tag ''span'' [(''aria-hidden'', ''true'')] [Text (if direction = Asc then gl_up g else gl_down g)]]],
      column_head ''Remaining budget'']
     (map agent_tr rows)"

text \<open>The total of a column; it is not computed for no rows.\<close>

definition column_total :: "('r \<Rightarrow> string) \<Rightarrow> ('r \<Rightarrow> string) \<Rightarrow> 'r list \<Rightarrow> string option" where
  "column_total pick asset rows =
     (if rows = [] then Some (formatAmount ''0'' ''USDC'')
      else map_option (\<lambda>s. formatAmount (int_toString s) (headlineAsset asset rows)) (sumAmounts pick rows))"

definition AgentsView :: "glyphs \<Rightarrow> agent_row list remote \<Rightarrow> sort_direction \<Rightarrow> html list option" where
  "AgentsView g state direction =
     (let rows = rows_of state
      in Option.bind (sort_agents direction rows) (\<lambda>sortedRows.
         Option.bind (column_total ag_spend ag_asset rows) (\<lambda>spend.
         map_option (\<lambda>budget.
           [Tag ''div'' []
              [StatCard ''Total spend'' (when_ready state spend) (Some ''Cumulative across all agents''),
               StatCard ''Total budget'' (when_ready state budget) (Some ''Remaining across all agents''),
               StatCard ''Agents'' (when_ready state (nat_toString (length rows))) (Some ''Tracked by the observability hub'')],
            Panel ''Per-agent spend'' (Some ''Sorted by spend. Reads from @tollway/observability once the hub lands.'') []
              (remote_body state AgentsTableSkeleton AgentsTableError
                 ''No agents have spent yet. Wire one up and reload.'' (AgentsTable g sortedRows direction))])
           (column_total ag_budget ag_asset rows))))"

subsection \<open>Channels\<close>

definition ChannelsTableSkeleton :: html where
  "ChannelsTableSkeleton = skeleton ''channels-skeleton''"

definition ChannelsTableError :: "js_error \<Rightarrow> html" where
  "ChannelsTableError e = alert_of ''Could not load open channels'' e"

definition clamp_percent :: "rat \<Rightarrow> rat" where
  "clamp_percent ratio = min 100 (max 0 (nearest (ratio * 100)))"

definition DrawdownCell :: "(rat \<Rightarrow> string) \<Rightarrow> channel_row \<Rightarrow> rat \<Rightarrow> html" where
  "DrawdownCell show_number row ratio = Tag ''div'' []
     [Tag ''div'' []
        [Tag ''span'' [] [Text (formatAmount (cr_committed row) (cr_asset row))],
         Tag ''span'' [] [Text (''/ '' @ formatAmount (cr_deposit row) (cr_asset row))],
         Tag ''span'' [] [Text (formatPercent ratio)]],
      Tag ''div'' [] [Tag ''div'' [(''style'', ''width: '' @ show_number (clamp_percent ratio) @ ''%'')] []]]"

definition StatusPill :: "channel_status \<Rightarrow> html" where
  "StatusPill status = Tag ''span'' [(''data-testid'', ''status-pill-'' @ status_str status)] [Text (status_str status)]"

definition channel_tr :: "(rat \<Rightarrow> string) \<Rightarrow> rat \<Rightarrow> channel_row \<Rightarrow> html option" where
  "channel_tr show_number threshold row =
     Option.bind (drawdownRatio row) (\<lambda>ratio. map_option (\<lambda>nearing.
       Tag ''tr'' ((''data-testid'', ''channel-row-'' @ cr_id row) # (if nearing then [(''data-nearing-close'', ''true'')] else []))
         [Tag ''td'' []
            [Tag ''div'' [] (Tag ''span'' [] [Text (cr_counterparty row)] #
               (if nearing then [Tag ''span'' [(''data-testid'', ''nearing-close-'' @ cr_id row)] [Text ''Nearing close'']] else [])),
             Tag ''span'' [] [Text (cr_id row)]],
          Tag ''td'' [] [DrawdownCell show_number row ratio],
          Tag ''td'' [] [Text (int_toString (cr_sequence row))],
          Tag ''td'' [] [StatusPill (cr_status row)]]) (isNearingClose row threshold))"

definition ChannelsTable :: "(rat \<Rightarrow> string) \<Rightarrow> channel_row list \<Rightarrow> rat \<Rightarrow> html option" where
  "ChannelsTable show_number rows threshold =
     map_option (table_of [column_head ''Counterparty'', column_head ''Committed / Deposit'', column_head ''Sequence'', column_head ''Status''])
       (those (map (channel_tr show_number threshold) rows))"

text \<open>The table is an element of the page only when there are rows; without rows none of it is rendered.\<close>

definition ChannelsView :: "(rat \<Rightarrow> string) \<Rightarrow> channel_row list remote \<Rightarrow> rat \<Rightarrow> html list option" where
  "ChannelsView show_number state threshold =
     (let rows = rows_of state
      in Option.bind (sort_channels rows) (\<lambda>sortedRows.
         Option.bind (column_total cr_deposit cr_asset rows) (\<lambda>deposit.
         Option.bind (column_total cr_committed cr_asset rows) (\<lambda>committed.
         map_option (\<lambda>table.
           [Tag ''div'' []
              [StatCard ''Open channels'' (when_ready state (nat_toString (length (filter (\<lambda>r. cr_status r = Status_open) rows))))
                 (Some ''Status open, excluding closing and closed''),
               StatCard ''Total deposited'' (when_ready state deposit) (Some ''Cumulative across all tracked channels''),
               StatCard ''Total committed'' (when_ready state committed) (Some ''Off-chain commitments awaiting close'')],
            Panel ''Open channels'' (Some ''Sorted by drawdown. Nearing-close rows are highlighted.'') []
              (remote_body state ChannelsTableSkeleton ChannelsTableError
                 ''No open channels. Open one and reload.'' table)])
           (ChannelsTable show_number sortedRows threshold)))))"

subsection \<open>Receipts\<close>

definition ReceiptsTableSkeleton :: html where
  "ReceiptsTableSkeleton = skeleton ''receipts-skeleton''"

definition ReceiptsTableError :: "js_error \<Rightarrow> html" where
  "ReceiptsTableError e = alert_of ''Could not load receipts'' e"

definition receipt_tr :: "glyphs \<Rightarrow> string option \<Rightarrow> signed_receipt \<Rightarrow> html" where
  "receipt_tr g selectedId row =
     (let b = receipt row
      in Tag ''tr'' ((''data-testid'', ''receipt-row-'' @ body_id b) #
           (if Some (body_id b) = selectedId then [(''data-selected'', ''true'')] else []))
         [Tag ''td'' [] [Tag ''span'' [] [Text (truncate_text (gl_ellipsis g) 8 6 (body_payer b))]],
          Tag ''td'' [] [Tag ''span'' [] [Text (truncate_text (gl_ellipsis g) 8 6 (body_payee b))]],
          Tag ''td'' [] [Text (receipt_formatAmount (body_amount b) (body_asset b))],
          Tag ''td'' [] [Tag ''span'' [] [Text (MODEL_LABEL (body_model b))]],
          Tag ''td'' [] [Text (settlementSummary (gl_ellipsis g) (body_settlement b))]])"

definition ReceiptsTable :: "glyphs \<Rightarrow> signed_receipt list \<Rightarrow> string option \<Rightarrow> html" where
  "ReceiptsTable g rows selectedId = table_of
     [column_head ''Payer'', column_head ''Payee'', column_head ''Amount'', column_head ''Model'', column_head ''Settlement'']
     (map (receipt_tr g selectedId) rows)"

definition Detail :: "string \<Rightarrow> string \<Rightarrow> html" where
  "Detail label v = Tag ''div'' [] [Tag ''dt'' [] [Text label], Tag ''dd'' [] [Text v]]"

definition channel_href :: "string \<Rightarrow> string" where
  "channel_href channelId = ''/channels#channel-row-'' @ channelId"

fun SettlementDetail :: "glyphs \<Rightarrow> settlement_ref \<Rightarrow> html" where
  "SettlementDetail g (Transaction_ref txHash) = Detail ''Settlement (tx)'' txHash"
| "SettlementDetail g (Channel_commitment_ref channelId sequence) = Tag ''div'' []
     [Tag ''dt'' [] [Text ''Settlement (channel)''],
      Tag ''dd'' []
        [Tag ''a'' [(''href'', channel_href channelId), (''data-testid'', ''receipt-channel-link'')] [Text channelId],
         Tag ''span'' [] [Text (gl_dot g @ '' seq '' @ int_toString sequence)]]]"

fun VerificationPill :: "glyphs \<Rightarrow> receipt_verification remote \<Rightarrow> html" where
  "VerificationPill g Loading =
     Tag ''span'' [(''data-testid'', ''receipt-verification-verifying'')] [Text (''Verifying'' @ gl_ellipsis g)]"
| "VerificationPill g (Failed e) =
     Tag ''span'' [(''data-testid'', ''receipt-verification-error''), (''title'', error_message e)] [Text ''Verification error'']"
| "VerificationPill g (Ready Valid) =
     Tag ''span'' [(''data-testid'', ''receipt-verification-valid'')] [Text ''Signature valid'']"
| "VerificationPill g (Ready (Invalid reason)) =
     Tag ''span'' [(''data-testid'', ''receipt-verification-invalid''), (''title'', reason)] [Text ''Signature invalid'']"

definition ReceiptDetail :: "glyphs \<Rightarrow> signed_receipt \<Rightarrow> receipt_verification remote \<Rightarrow> html" where
  "ReceiptDetail g r verification =
     (let b = receipt r; s = signature r
      in Tag ''section'' [(''data-testid'', ''receipt-detail-'' @ body_id b)]
        [Tag ''header'' [] [Tag ''div'' [] [p_text ''Receipt'', p_text (body_id b)], VerificationPill g verification],
         Tag ''dl'' []
           [Detail ''Payer'' (body_payer b), Detail ''Payee'' (body_payee b),
            Detail ''Amount'' (receipt_formatAmount (body_amount b) (body_asset b)), Detail ''Model'' (MODEL_LABEL (body_model b)),
            Detail ''Resource'' (body_resource b), Detail ''Network'' (network_str (body_network b)),
            Detail ''Issued at'' (body_issuedAt b), SettlementDetail g (body_settlement b)],
         Tag ''footer'' []
           [p_text ''Signature'',
            Tag ''dl'' [] [Detail ''Key id'' (sig_keyId s), Detail ''Algorithm'' (sig_algorithm s)],
            Tag ''p'' [(''data-testid'', ''receipt-signature-value'')] [Text (sig_value s)]]])"

text \<open>\<open>verification\<close> is the state of the opened receipt, the view of \<open>Views\<close>.\<close>

definition ReceiptsView :: "glyphs \<Rightarrow> signed_receipt list remote \<Rightarrow> string option \<Rightarrow> receipt_verification remote \<Rightarrow> html" where
  "ReceiptsView g state selectedId verification =
     Panel ''Receipts'' (Some ''Payer, payee, amount, model, and settlement reference'') []
       (remote_body state ReceiptsTableSkeleton ReceiptsTableError
          ''No receipts yet. Wire a paid route and the archive will populate.''
          (Tag ''div'' []
             [ReceiptsTable g (rows_of state) selectedId,
              case selected_receipt (rows_of state) selectedId of
                Some r \<Rightarrow> ReceiptDetail g r verification
              | None \<Rightarrow> p_text ''Select a row to expand the signed receipt, verify its signature, and follow the settlement reference.'']))"

subsection \<open>Pages\<close>

definition AgentsPage :: "html list \<Rightarrow> html list" where
  "AgentsPage view = PageHeader ''Agents''
     (Some ''Per-agent spend over time, model mix, and budget usage, with anomaly stops surfaced inline.'') [] # view"

definition ChannelsPage :: "html list \<Rightarrow> html list" where
  "ChannelsPage view = PageHeader ''Channels''
     (Some ''Open MPP channels, their cumulative commitments, and remaining budget before close.'') [] # view"

definition ReceiptsPage :: "html list \<Rightarrow> html list" where
  "ReceiptsPage view = PageHeader ''Receipts''
     (Some ''The canonical signed receipt archive: searchable, filterable, and exportable.'') [] # view"

definition AnomaliesPage :: "glyphs \<Rightarrow> html list" where
  "AnomaliesPage g =
     [PageHeader ''Anomalies'' (Some ''Spend spikes and policy stops as they fire, with the records that triggered them.'') [],
      Panel ''Anomaly events'' (Some ''Type, counterparty, and the rule that tripped'') []
        [EmptyState ''Nothing flagged''
           ''Build the anomaly feed here: budget stops, sudden spend spikes, and reconciliation drift, newest first.''
           (Some (''@tollway/observability '' @ gl_dot g @ '' anomaly.detected'')) []]]"

definition ServicesPage :: "glyphs \<Rightarrow> html list" where
  "ServicesPage g =
     [PageHeader ''Services'' (Some ''Per-service revenue, the mix of settlement models in use, and latency per model.'') [],
      Panel ''Services'' (Some ''One row per service, with revenue and model mix'') []
        [EmptyState ''No service data yet''
           ''Build the per-service table and latency breakdown here, grouped by settlement model.''
           (Some (''@tollway/observability '' @ gl_dot g @ '' summarize({ payee })'')) []]]"

definition ExportsPage :: "glyphs \<Rightarrow> html list" where
  "ExportsPage g =
     [PageHeader ''Exports'' (Some ''Machine-readable exports and outgoing webhooks for downstream accounting and integration.'') [],
      Tag ''div'' []
        [Panel ''Exports'' (Some ''Download a range as JSON or CSV'') []
           [EmptyState ''No exports configured''
              ''Build the export controls here: pick a range and format, then stream the receipts out.''
              (Some (''@tollway/observability '' @ gl_dot g @ '' export()'')) []],
         Panel ''Webhooks'' (Some ''Push events to your own endpoints'') []
           [EmptyState ''No webhooks configured''
              ''Build webhook management here for receipt.created, channel.opened and closed, budget.warning, and anomaly.detected.''
              (Some (''@tollway/observability '' @ gl_dot g @ '' WebhookEvent'')) []]]]"

text \<open>The overview's cards and its list of models.\<close>

definition overview_stats :: "(string \<times> string) list" where
  "overview_stats =
     [(''Total spend'', ''across all models''), (''Payments settled'', ''this period''),
      (''Open channels'', ''with remaining budget''), (''Failure rate'', ''verify and settle'')]"

definition modelLabels :: "(string \<times> string) list" where
  "modelLabels = [(''x402'', ''x402 per-request''), (''mpp-charge'', ''MPP charge''), (''mpp-channel'', ''MPP channel'')]"

definition OverviewPage :: "glyphs \<Rightarrow> html list" where
  "OverviewPage g =
     [PageHeader ''Overview''
        (Some ''Spend, model mix, failures, and open channels at a glance. Wire the widgets to @tollway/observability to replace the placeholders.'') [],
      Tag ''section'' [] (map (\<lambda>(label, hint). StatCard label (Text (gl_dash g)) (Some hint)) overview_stats),
      Tag ''div'' []
        [Panel ''Model mix'' (Some ''Share of spend by settlement model'') []
           [Tag ''ul'' [] (map (\<lambda>m. Tag ''li'' []
              [p_text (or_default (map_of modelLabels (model_str m)) (model_str m)), p_text (gl_dash g)]) settlementModels)],
         Panel ''Spend over time'' (Some ''Per-agent and per-service totals'') []
           [EmptyState ''No spend data yet'' ''A time series of spend by agent and service will render here.''
              (Some (''@tollway/observability '' @ gl_dot g @ '' summarize()'')) []],
         Panel ''Recent receipts'' (Some ''The canonical signed receipt stream'') []
           [EmptyState ''No receipts yet'' ''Settled payments appear here as canonical receipts, newest first.''
              (Some (''@tollway/core '' @ gl_dot g @ '' SignedReceipt'')) []],
         Panel ''Anomalies'' (Some ''Spend spikes and policy stops'') []
           [EmptyState ''Nothing flagged'' ''Anomaly events and budget stops surface here as they fire.''
              (Some (''@tollway/observability '' @ gl_dot g @ '' anomaly.detected'')) []]]]"

lemmas remote_defs = AgentsTableSkeleton_def AgentsTableError_def ChannelsTableSkeleton_def ChannelsTableError_def
  ReceiptsTableSkeleton_def ReceiptsTableError_def

lemmas page_defs = p_text_def column_head_def table_of_def skeleton_def alert_of_def remote_body_def AgentsTable_def AgentsView_def
  agent_tr_def DrawdownCell_def StatusPill_def ChannelsTable_def ChannelsView_def receipt_tr_def ReceiptsTable_def Detail_def
  ReceiptDetail_def ReceiptsView_def

end
