(* ===== verification/PageProofs.thy ===== *)
theory PageProofs
  imports Pages DashboardProofs
begin

text \<open>
  What a reader of the dashboard sees: in each state of a subscription one of skeleton, alert and table, the table with
  one row for each row that was loaded, with the columns its head announces and in the order the view promises. The link from a receipt to its channel
  leads nowhere.
\<close>

subsection \<open>What a reader sees\<close>

definition alerts :: "html list \<Rightarrow> string list" where
  "alerts page = map text_content (filter (\<lambda>e. attr ''role'' e = Some ''alert'') (page_elements page))"

definition skeletons :: "html list \<Rightarrow> string list" where
  "skeletons page = filter (\<lambda>t. t \<in> {''agents-skeleton'', ''channels-skeleton'', ''receipts-skeleton''})
     (map (\<lambda>e. or_default (attr ''data-testid'' e) []) (page_elements page))"

definition body_rows :: "html list \<Rightarrow> html list" where
  "body_rows page = concat (map children_of (filter (\<lambda>e. tag_name e = ''tbody'') (page_elements page)))"

definition table_texts :: "html list \<Rightarrow> string list list" where
  "table_texts page = map (\<lambda>tr. map text_content (children_of tr)) (body_rows page)"

definition shown :: "html list \<Rightarrow> string list \<times> string list \<times> string list list" where
  "shown page = (alerts page, skeletons page, table_texts page)"

text \<open>A row has no alert, no skeleton and no table in it.\<close>

definition plain_html :: "html \<Rightarrow> bool" where
  "plain_html h \<longleftrightarrow> alerts [h] = [] \<and> skeletons [h] = [] \<and> body_rows [h] = []"

lemma shown_simps [simp]:
  "alerts [] = []" "skeletons [] = []" "body_rows [] = []"
  "alerts (h # h' # hs) = alerts [h] @ alerts (h' # hs)" "skeletons (h # h' # hs) = skeletons [h] @ skeletons (h' # hs)"
  "body_rows (h # h' # hs) = body_rows [h] @ body_rows (h' # hs)"
  "alerts (hs @ hs') = alerts hs @ alerts hs'" "skeletons (hs @ hs') = skeletons hs @ skeletons hs'"
  "body_rows (hs @ hs') = body_rows hs @ body_rows hs'"
  by (simp_all add: alerts_def skeletons_def body_rows_def)

lemma shown_Text [simp]: "alerts [Text s] = []" "skeletons [Text s] = []" "body_rows [Text s] = []"
  by (simp_all add: alerts_def skeletons_def body_rows_def)

lemma shown_Tag:
  "alerts [Tag n as hs] = (if map_of as ''role'' = Some ''alert'' then [concat (map text_content hs)] else []) @ alerts hs"
  "skeletons [Tag n as hs] = filter (\<lambda>t. t \<in> {''agents-skeleton'', ''channels-skeleton'', ''receipts-skeleton''})
     [or_default (map_of as ''data-testid'') []] @ skeletons hs"
  "body_rows [Tag n as hs] = (if n = ''tbody'' then hs else []) @ body_rows hs"
  by (simp_all add: alerts_def skeletons_def body_rows_def or_default_def)

lemma plain_list: "(\<forall>h\<in>set hs. plain_html h) \<Longrightarrow> alerts hs = [] \<and> skeletons hs = [] \<and> body_rows hs = []"
proof (induction hs)
  case (Cons h hs)
  then show ?case by (cases hs) (simp_all add: plain_html_def)
qed simp

lemma plain_agent_tr: "plain_html (agent_tr row)"
  by (simp add: plain_html_def agent_tr_def shown_Tag or_default_def)

lemma plain_channel_tr: "channel_tr show_number threshold row = Some h \<Longrightarrow> plain_html h"
  by (auto simp: channel_tr_def plain_html_def DrawdownCell_def StatusPill_def shown_Tag or_default_def split: bind_splits)

lemma plain_receipt_tr: "plain_html (receipt_tr g selectedId row)"
  by (simp add: plain_html_def receipt_tr_def shown_Tag or_default_def Let_def)

lemma plain_SettlementDetail: "plain_html (SettlementDetail g s)"
  by (cases s) (simp_all add: plain_html_def Detail_def shown_Tag or_default_def)

lemma plain_VerificationPill: "plain_html (VerificationPill g v)"
  by (cases "(g, v)" rule: VerificationPill.cases) (simp_all add: plain_html_def shown_Tag or_default_def)

lemma plain_ReceiptDetail: "plain_html (ReceiptDetail g r v)"
  using plain_SettlementDetail [of g "body_settlement (receipt r)"] plain_VerificationPill [of g v]
  by (simp add: plain_html_def ReceiptDetail_def Detail_def p_text_def shown_Tag or_default_def Let_def)

lemma shown_table:
  assumes "\<forall>h\<in>set head. plain_html h" "\<forall>h\<in>set rows. plain_html h"
  shows "alerts [table_of head rows] = []" "skeletons [table_of head rows] = []" "body_rows [table_of head rows] = rows"
  using plain_list [OF assms(1)] plain_list [OF assms(2)] by (simp_all add: table_of_def shown_Tag or_default_def)

lemma plain_column_head: "plain_html (column_head s)"
  by (simp add: plain_html_def column_head_def shown_Tag or_default_def)

lemma shown_skeleton: "alerts [skeleton i] = []" "body_rows [skeleton i] = []"
  "skeletons [skeleton i] = (if i \<in> {''agents-skeleton'', ''channels-skeleton'', ''receipts-skeleton''} then [i] else [])"
  by (simp_all add: skeleton_def shown_Tag or_default_def numeral_3_eq_3)

lemma shown_alert: "alerts [alert_of s e] = [s @ error_message e]" "skeletons [alert_of s e] = []" "body_rows [alert_of s e] = []"
  by (simp_all add: alert_of_def p_text_def shown_Tag or_default_def)

lemma shown_card:
  "alerts [StatCard l v hint] = alerts [v]" "skeletons [StatCard l v hint] = skeletons [v]" "body_rows [StatCard l v hint] = body_rows [v]"
  by (simp_all add: StatCard_def when_text_def shown_Tag or_default_def split: option.splits list.splits)

lemma shown_panel:
  "alerts [Panel t d [] hs] = alerts hs" "skeletons [Panel t d [] hs] = skeletons hs" "body_rows [Panel t d [] hs] = body_rows hs"
  by (simp_all add: Panel_def when_text_def shown_Tag or_default_def split: option.splits list.splits)

lemma plain_when_ready: "alerts [when_ready st s] = []" "skeletons [when_ready st s] = []" "body_rows [when_ready st s] = []"
  by (simp_all add: when_ready_def)

lemmas shown_blocks = remote_defs shown_skeleton shown_alert shown_card shown_panel plain_when_ready

subsection \<open>The three views\<close>

text \<open>What the columns of the three tables announce.\<close>

definition agent_cells :: "agent_row \<Rightarrow> string list" where
  "agent_cells r = [ag_label r @ ag_id r, formatAmount (ag_spend r) (ag_asset r), formatAmount (ag_budget r) (ag_asset r)]"

definition channel_cells :: "rat \<Rightarrow> channel_row \<Rightarrow> string list" where
  "channel_cells threshold r = (let ratio = the (drawdownRatio r) in
     [cr_counterparty r @ (if cr_status r = Status_open \<and> threshold \<le> ratio then ''Nearing close'' else []) @ cr_id r,
      formatAmount (cr_committed r) (cr_asset r) @ ''/ '' @ formatAmount (cr_deposit r) (cr_asset r) @ formatPercent ratio,
      int_toString (cr_sequence r), status_str (cr_status r)])"

definition receipt_cells :: "string \<Rightarrow> signed_receipt \<Rightarrow> string list" where
  "receipt_cells ellipsis r = (let b = receipt r in
     [truncate_text ellipsis 8 6 (body_payer b), truncate_text ellipsis 8 6 (body_payee b),
      receipt_formatAmount (body_amount b) (body_asset b), MODEL_LABEL (body_model b), settlementSummary ellipsis (body_settlement b)])"

text \<open>Rows whose amounts are integer strings, as the types document them.\<close>

definition agent_amounts :: "agent_row \<Rightarrow> bool" where
  "agent_amounts r \<longleftrightarrow> AMOUNT_RE (ag_spend r) \<and> AMOUNT_RE (ag_budget r)"

definition channel_amounts :: "channel_row \<Rightarrow> bool" where
  "channel_amounts r \<longleftrightarrow> AMOUNT_RE (cr_deposit r) \<and> AMOUNT_RE (cr_committed r)"

lemma agent_tr_cells: "map text_content (children_of (agent_tr row)) = agent_cells row"
  by (simp add: agent_tr_def agent_cells_def)

lemma channel_ratio: "channel_amounts r \<Longrightarrow> \<exists>ratio. drawdownRatio r = Some ratio"
  by (simp add: channel_amounts_def drawdownRatio_def StringToBigInt_amount)

lemma channel_tr_cells:
  assumes "channel_amounts row"
  shows "\<exists>tr. channel_tr show_number threshold row = Some tr \<and> map text_content (children_of tr) = channel_cells threshold row"
  using channel_ratio [OF assms]
  by (auto simp: channel_tr_def channel_cells_def isNearingClose_def DrawdownCell_def StatusPill_def Let_def)

lemma receipt_tr_cells: "map text_content (children_of (receipt_tr g selectedId row)) = receipt_cells (gl_ellipsis g) row"
  by (simp add: receipt_tr_def receipt_cells_def Let_def)

lemma sumAmounts_amounts: "\<forall>r\<in>set rows. AMOUNT_RE (pick r) \<Longrightarrow> \<exists>s. sumAmounts pick rows = Some s"
  by (induction rows) (auto simp: StringToBigInt_amount)

lemma column_total_amounts: "\<forall>r\<in>set rows. AMOUNT_RE (pick r) \<Longrightarrow> \<exists>s. column_total pick asset rows = Some s"
  using sumAmounts_amounts [of rows pick] by (auto simp: column_total_def)

lemma those_cells:
  "\<forall>x\<in>set xs. \<exists>y. f x = Some y \<and> t y = c x \<Longrightarrow> \<exists>ys. those (map f xs) = Some ys \<and> map t ys = map c xs"
  by (induction xs) auto

lemma those_plain: "those (map f xs) = Some ys \<Longrightarrow> (\<And>x y. f x = Some y \<Longrightarrow> P y) \<Longrightarrow> \<forall>y\<in>set ys. P y"
  by (induction xs arbitrary: ys) (auto split: option.splits)

lemma agents_table_shows:
  "alerts [AgentsTable g rows d] = []" "skeletons [AgentsTable g rows d] = []" "body_rows [AgentsTable g rows d] = map agent_tr rows"
proof -
  have "plain_html (Tag ''th'' [(''scope'', ''col''), (''aria-sort'', s)]
      [Tag ''button'' [(''type'', ''button'')] [Text ''Spend'', Tag ''span'' [(''aria-hidden'', ''true'')] [Text u]]])" for s u
    by (simp add: plain_html_def shown_Tag or_default_def)
  then show "alerts [AgentsTable g rows d] = []" "skeletons [AgentsTable g rows d] = []" "body_rows [AgentsTable g rows d] = map agent_tr rows"
    unfolding AgentsTable_def by (simp_all add: shown_table plain_column_head plain_agent_tr)
qed

lemma agents_view_waits:
  "map_option shown (AgentsView g Loading d) = Some ([], [''agents-skeleton''], [])"
  "map_option shown (AgentsView g (Failed e) d) = Some ([''Could not load agent spend'' @ error_message e], [], [])"
  by (simp_all add: AgentsView_def rows_of_def sort_agents_def js_sort_def column_total_def remote_body_def shown_def shown_blocks
      shown_Tag table_texts_def or_default_def)

lemma agents_view_shows:
  assumes "list_all agent_amounts rows"
  shows "map_option shown (AgentsView g (Ready rows) d) =
    Some ([], [], map agent_cells (sort_key (\<lambda>r. direction_sign d * the (StringToBigInt (ag_spend r))) rows))"
proof -
  let ?sorted = "sort_key (\<lambda>r. direction_sign d * the (StringToBigInt (ag_spend r))) rows"
  from assms have a: "\<forall>r\<in>set rows. AMOUNT_RE (ag_spend r)" "\<forall>r\<in>set rows. AMOUNT_RE (ag_budget r)"
    by (simp_all add: list_all_iff agent_amounts_def)
  then have "\<forall>r\<in>set rows. spend_of r \<noteq> None" by (simp add: spend_of_def StringToBigInt_amount)
  from sort_agents_key [OF this] have s: "sort_agents d rows = Some ?sorted" by (simp add: spend_of_def)
  obtain x y where t: "column_total ag_spend ag_asset rows = Some x" "column_total ag_budget ag_asset rows = Some y"
    using column_total_amounts [OF a(1)] column_total_amounts [OF a(2)] by blast
  have cells: "map (\<lambda>tr. map text_content (children_of tr)) (map agent_tr ?sorted) = map agent_cells ?sorted"
    by (simp add: agent_tr_cells)
  show ?thesis
  proof (cases "rows = []")
    case True
    with s t show ?thesis
      by (simp add: AgentsView_def rows_of_def remote_body_def shown_def shown_blocks shown_Tag table_texts_def p_text_def or_default_def)
  next
    case False
    with s t cells show ?thesis
      by (simp add: AgentsView_def rows_of_def remote_body_def shown_def shown_blocks shown_Tag table_texts_def or_default_def
          agents_table_shows)
  qed
qed

lemma channels_table_shows:
  assumes "ChannelsTable show_number rows threshold = Some table"
  shows "alerts [table] = []" "skeletons [table] = []" "those (map (channel_tr show_number threshold) rows) = Some (body_rows [table])"
proof -
  from assms obtain trs where trs: "those (map (channel_tr show_number threshold) rows) = Some trs"
    and table: "table = table_of [column_head ''Counterparty'', column_head ''Committed / Deposit'', column_head ''Sequence'', column_head ''Status''] trs"
    by (auto simp: ChannelsTable_def)
  have "\<forall>h\<in>set trs. plain_html h" by (rule those_plain [OF trs]) (rule plain_channel_tr)
  then show "alerts [table] = []" "skeletons [table] = []" "those (map (channel_tr show_number threshold) rows) = Some (body_rows [table])"
    unfolding table trs by (simp_all add: shown_table plain_column_head)
qed

lemma channels_view_waits:
  "map_option shown (ChannelsView show_number Loading threshold) = Some ([], [''channels-skeleton''], [])"
  "map_option shown (ChannelsView show_number (Failed e) threshold) = Some ([''Could not load open channels'' @ error_message e], [], [])"
  by (simp_all add: ChannelsView_def ChannelsTable_def rows_of_def sort_channels_def js_sort_def column_total_def remote_body_def
      shown_def shown_blocks shown_Tag table_texts_def or_default_def)

lemma channels_view_shows:
  assumes "list_all channel_amounts rows"
  shows "map_option shown (ChannelsView show_number (Ready rows) threshold) =
    Some ([], [], map (channel_cells threshold) (sort_key (\<lambda>r. - the (drawdownRatio r)) rows))"
proof -
  let ?sorted = "sort_key (\<lambda>r. - the (drawdownRatio r)) rows"
  from assms have a: "\<forall>r\<in>set rows. channel_amounts r" by (simp add: list_all_iff)
  then have am: "\<forall>r\<in>set rows. AMOUNT_RE (cr_deposit r)" "\<forall>r\<in>set rows. AMOUNT_RE (cr_committed r)"
    by (simp_all add: channel_amounts_def)
  from a channel_ratio have "\<forall>r\<in>set rows. drawdownRatio r \<noteq> None" by fastforce
  from sort_channels_key [OF this] have s: "sort_channels rows = Some ?sorted" .
  obtain x y where t: "column_total cr_deposit cr_asset rows = Some x" "column_total cr_committed cr_asset rows = Some y"
    using column_total_amounts [OF am(1)] column_total_amounts [OF am(2)] by blast
  have "\<forall>r\<in>set ?sorted. \<exists>tr. channel_tr show_number threshold r = Some tr \<and> map text_content (children_of tr) = channel_cells threshold r"
    using a channel_tr_cells by simp
  from those_cells [OF this] obtain trs where trs: "those (map (channel_tr show_number threshold) ?sorted) = Some trs"
    "map (\<lambda>tr. map text_content (children_of tr)) trs = map (channel_cells threshold) ?sorted" by blast
  then obtain table where table: "ChannelsTable show_number ?sorted threshold = Some table" by (auto simp: ChannelsTable_def)
  note c = channels_table_shows [OF table]
  from c(3) trs have body: "map (\<lambda>tr. map text_content (children_of tr)) (body_rows [table]) = map (channel_cells threshold) ?sorted"
    by simp
  show ?thesis
  proof (cases "rows = []")
    case True
    with s t table show ?thesis
      by (simp add: ChannelsView_def rows_of_def remote_body_def shown_def shown_blocks shown_Tag table_texts_def p_text_def or_default_def)
  next
    case False
    with s t table c(1,2) body show ?thesis
      by (simp add: ChannelsView_def rows_of_def remote_body_def shown_def shown_blocks shown_Tag table_texts_def or_default_def)
  qed
qed

lemma receipts_view_shows:
  "shown [ReceiptsView g state selectedId verification] =
     (case state of
        Loading \<Rightarrow> ([], [''receipts-skeleton''], [])
      | Failed e \<Rightarrow> ([''Could not load receipts'' @ error_message e], [], [])
      | Ready rows \<Rightarrow> ([], [], map (receipt_cells (gl_ellipsis g)) rows))"
proof (cases state)
  case (Ready rows)
  have table: "alerts [ReceiptsTable g rows selectedId] = []" "skeletons [ReceiptsTable g rows selectedId] = []"
    "body_rows [ReceiptsTable g rows selectedId] = map (receipt_tr g selectedId) rows"
    by (simp_all add: ReceiptsTable_def shown_table plain_column_head plain_receipt_tr)
  let ?d = "case selected_receipt rows selectedId of Some r \<Rightarrow> ReceiptDetail g r verification
    | None \<Rightarrow> p_text ''Select a row to expand the signed receipt, verify its signature, and follow the settlement reference.''"
  have "plain_html ?d" using plain_ReceiptDetail
    by (auto simp: p_text_def plain_html_def shown_Tag or_default_def split: option.split)
  then have d: "alerts [?d] = []" "skeletons [?d] = []" "body_rows [?d] = []" by (simp_all add: plain_html_def)
  show ?thesis
    using Ready d table
    by (cases "rows = []") (simp_all add: ReceiptsView_def rows_of_def remote_body_def shown_def shown_blocks shown_Tag table_texts_def
        p_text_def or_default_def receipt_tr_cells)
qed (simp_all add: ReceiptsView_def remote_body_def shown_def shown_blocks table_texts_def)

subsection \<open>Anchors\<close>

text \<open>The targets of fragments are the values of \<open>id\<close>.\<close>

definition anchors :: "html list \<Rightarrow> string list" where
  "anchors page = concat (map (\<lambda>e. case attr ''id'' e of Some i \<Rightarrow> [i] | None \<Rightarrow> []) (page_elements page))"

lemma anchors_simps [simp]:
  "anchors [] = []" "anchors (h # h' # hs) = anchors [h] @ anchors (h' # hs)" "anchors [Text s] = []"
  "anchors [Tag n as hs] = (case map_of as ''id'' of Some i \<Rightarrow> [i] | None \<Rightarrow> []) @ anchors hs"
  by (simp_all add: anchors_def)

lemma anchors_list: "(\<forall>h\<in>set hs. anchors [h] = []) \<Longrightarrow> anchors hs = []"
proof (induction hs)
  case (Cons h hs)
  then show ?case by (cases hs) simp_all
qed simp

lemma anchors_set: "set (anchors hs) = (\<Union>h\<in>set hs. set (anchors [h]))"
proof (induction hs)
  case (Cons h hs)
  then show ?case by (cases hs) simp_all
qed simp

lemma anchors_blocks [simp]:
  "anchors [PageHeader t l []] = []" "anchors [Panel t d [] hs] = anchors hs" "anchors [StatCard t v h] = anchors [v]"
  "anchors [drawing] = []" "anchors [p_text s] = []" "anchors [when_ready st s] = []"
  by (simp_all add: PageHeader_def Panel_def StatCard_def drawing_def p_text_def when_ready_def when_text_def
      split: option.splits list.splits)

lemma anchors_shell: "anchors [DashboardShell p mounted resolved hs] = anchors hs"
proof -
  have "anchors (map (nav_link p) is) = []" for "is" by (rule anchors_list) (simp add: nav_link_def)
  then show ?thesis by (simp add: DashboardShell_def Sidebar_def Topbar_def ThemeToggle_def Badge_def)
qed

definition channels_frame ::
  "string \<Rightarrow> string \<Rightarrow> string \<Rightarrow> string option \<Rightarrow> string option \<Rightarrow> string option \<Rightarrow> channel_row list remote \<Rightarrow> html \<Rightarrow> html list" where
  "channels_frame a b c d e f state t =
     [Tag ''div'' [] [StatCard ''Open channels'' (when_ready state a) d, StatCard ''Total deposited'' (when_ready state b) e,
        StatCard ''Total committed'' (when_ready state c) f],
      Panel ''Open channels'' (Some ''Sorted by drawdown. Nearing-close rows are highlighted.'') []
        (remote_body state ChannelsTableSkeleton ChannelsTableError ''No open channels. Open one and reload.'' t)]"

lemma ChannelsView_parts:
  assumes "ChannelsView show_number state threshold = Some view"
  shows "\<exists>sorted_rows t a b c d e f. sort_channels (rows_of state) = Some sorted_rows \<and>
    ChannelsTable show_number sorted_rows threshold = Some t \<and> view = channels_frame a b c d e f state t"
  using assms unfolding ChannelsView_def channels_frame_def Let_def bind_eq_Some_conv map_option_eq_Some by blast

lemma anchors_channels:
  assumes "ChannelsView show_number state threshold = Some view"
  shows "anchors view = []"
proof -
  have tr: "anchors [h] = []" if "channel_tr show_number threshold row = Some h" for row h
    using that by (auto simp: channel_tr_def DrawdownCell_def StatusPill_def split: bind_splits)
  have table: "anchors [table] = []" if "ChannelsTable show_number rows threshold = Some table" for rows table
  proof -
    from that obtain trs where "those (map (channel_tr show_number threshold) rows) = Some trs" and
      t: "table = table_of [column_head ''Counterparty'', column_head ''Committed / Deposit'', column_head ''Sequence'', column_head ''Status''] trs"
      by (auto simp: ChannelsTable_def)
    from anchors_list [OF those_plain [OF this(1), of "\<lambda>h. anchors [h] = []"]] tr have "anchors trs = []" by blast
    then show ?thesis by (simp add: t table_of_def column_head_def)
  qed
  from ChannelsView_parts [OF assms] obtain sorted_rows t a b c d e f where t: "ChannelsTable show_number sorted_rows threshold = Some t"
    and "view = channels_frame a b c d e f state t" by blast
  then show ?thesis using table [OF t]
    by (auto simp: channels_frame_def remote_body_def remote_defs skeleton_def alert_of_def numeral_3_eq_3 split: remote.split)
qed

text \<open>A row of the table is an element of the page.\<close>

lemma elements_trans: "e \<in> set (elements h) \<Longrightarrow> c \<in> set (children_of e) \<Longrightarrow> set (elements c) \<subseteq> set (elements h)"
proof (induction h arbitrary: e)
  case (Tag n as hs)
  show ?case
  proof (cases "e = Tag n as hs")
    case True
    with Tag.prems(2) show ?thesis by (auto simp: page_elements_def)
  next
    case False
    with Tag.prems(1) obtain h where h: "h \<in> set hs" "e \<in> set (elements h)" by (auto simp: page_elements_def)
    from Tag.IH [OF h Tag.prems(2)] h(1) show ?thesis by (auto simp: page_elements_def)
  qed
qed simp

lemma body_rows_elements: "h \<in> set (body_rows page) \<Longrightarrow> set (elements h) \<subseteq> set (page_elements page)"
proof -
  assume "h \<in> set (body_rows page)"
  then obtain x e where x: "x \<in> set page" "e \<in> set (elements x)" "h \<in> set (children_of e)"
    by (auto simp: body_rows_def page_elements_def)
  from elements_trans [OF x(2,3)] x(1) show ?thesis by (auto simp: page_elements_def)
qed

lemma those_member: "those (map f xs) = Some ys \<Longrightarrow> x \<in> set xs \<Longrightarrow> \<exists>y\<in>set ys. f x = Some y"
  by (induction xs arbitrary: ys) (auto split: option.splits)

lemma js_sort_set: "set (js_sort compare rows) = set rows"
proof -
  have "set (insert_by compare x ys) = insert x (set ys)" for x ys by (induction ys) auto
  then show ?thesis by (induction rows) (simp_all add: js_sort_def)
qed

lemma channel_row_shown:
  assumes "ChannelsView show_number (Ready rows) threshold = Some view" "row \<in> set rows"
  shows "\<exists>e\<in>set (page_elements view). attr ''data-testid'' e = Some (''channel-row-'' @ cr_id row)"
proof -
  from ChannelsView_parts [OF assms(1)] obtain sorted_rows table a b c d e f where s: "sort_channels rows = Some sorted_rows"
    and table: "ChannelsTable show_number sorted_rows threshold = Some table"
    and view: "view = channels_frame a b c d e f (Ready rows) table" by (auto simp: rows_of_def)
  have body: "body_rows view = body_rows [table]" using assms(2)
    by (auto simp: view channels_frame_def remote_body_def shown_blocks shown_Tag)
  have "row \<in> set sorted_rows" using s assms(2) by (auto simp: sort_channels_def js_sort_set split: if_splits)
  from those_member [OF channels_table_shows(3) [OF table] this]
  obtain tr where tr: "tr \<in> set (body_rows [table])" "channel_tr show_number threshold row = Some tr" by blast
  then have "attr ''data-testid'' tr = Some (''channel-row-'' @ cr_id row)" "tr \<in> set (elements tr)"
    by (auto simp: channel_tr_def split: bind_splits)
  moreover have "tr \<in> set (body_rows view)" using tr(1) body by simp
  ultimately show ?thesis using body_rows_elements by blast
qed

subsection \<open>Properties\<close>


definition plain_glyphs :: glyphs where
  "plain_glyphs = \<lparr>gl_ellipsis = ''...'', gl_up = ''^'', gl_down = ''v'', gl_dash = ''-'', gl_dot = ''.''\<rparr>"

definition sample_agent :: "string \<Rightarrow> string \<Rightarrow> agent_row" where
  "sample_agent i spend = \<lparr>ag_id = i, ag_label = ''bot '', ag_spend = spend, ag_budget = ''0'', ag_asset = ''USDC''\<rparr>"


text \<open>The link from a receipt to its channel has no target. An opened channel receipt links to the channels page with
  the fragment of its channel's row; that page has the row, but only as a test identifier: no element of the page,
  frame included, carries the fragment as its \<open>id\<close>, whatever rows are shown.\<close>

theorem receipt_channel_link_has_no_target:
  assumes "body_settlement (receipt r) = Channel_commitment_ref c n"
    and "ChannelsView show_number (Ready rows) threshold = Some view" and "row \<in> set rows" and "cr_id row = c"
  shows "(\<exists>e\<in>set (elements (ReceiptDetail g r verification)). tag_name e = ''a'' \<and> attr ''href'' e = Some (''/channels#channel-row-'' @ c)) \<and>
    (\<exists>e\<in>set (page_elements view). attr ''data-testid'' e = Some (''channel-row-'' @ c)) \<and>
    (\<forall>p mounted resolved. \<forall>e\<in>set (elements (DashboardShell p mounted resolved (ChannelsPage view))). attr ''id'' e = None)"
proof (intro conjI allI)
  show "\<exists>e\<in>set (elements (ReceiptDetail g r verification)). tag_name e = ''a'' \<and> attr ''href'' e = Some (''/channels#channel-row-'' @ c)"
    by (simp add: ReceiptDetail_def assms(1) channel_href_def Let_def)
  show "\<exists>e\<in>set (page_elements view). attr ''data-testid'' e = Some (''channel-row-'' @ c)"
    using channel_row_shown [OF assms(2,3)] assms(4) by simp
  fix p mounted resolved
  let ?page = "DashboardShell p mounted resolved (ChannelsPage view)"
  have "anchors (ChannelsPage view) = []" using anchors_channels [OF assms(2)] by (cases view) (simp_all add: ChannelsPage_def)
  then have "anchors [?page] = []" by (simp add: anchors_shell)
  then show "\<forall>e\<in>set (elements ?page). attr ''id'' e = None"
    by (auto simp: anchors_def split: option.splits)
qed

definition sample_row :: channel_row where
  "sample_row = \<lparr>cr_id = ''ch-1'', cr_counterparty = ''GA'', cr_deposit = ''0'', cr_committed = ''0'', cr_sequence = 0,
     cr_status = Status_open, cr_asset = ''USDC''\<rparr>"

theorem receipt_channel_link_has_no_target_witness:
  "\<exists>(r :: signed_receipt) view. body_settlement (receipt r) = Channel_commitment_ref ''ch-1'' 3 \<and>
     ChannelsView (\<lambda>_. ''0'') (Ready [sample_row]) 1 = Some view \<and>
     (\<exists>e\<in>set (page_elements view). attr ''data-testid'' e = Some ''channel-row-ch-1'') \<and>
     (\<forall>e\<in>set (elements (DashboardShell ''/channels'' True None (ChannelsPage view))). attr ''id'' e = None)"
proof -
  have zero: "StringToBigInt ''0'' = Some 0" by code_simp
  have "\<exists>view. ChannelsView (\<lambda>_. ''0'') (Ready [sample_row]) 1 = Some view"
    by (simp add: ChannelsView_def sample_row_def rows_of_def sort_channels_def js_sort_def column_total_def zero ChannelsTable_def
        channel_tr_def drawdownRatio_def isNearingClose_def Let_def)
  then obtain view where view: "ChannelsView (\<lambda>_. ''0'') (Ready [sample_row]) 1 = Some view" by blast
  obtain r :: signed_receipt where r: "body_settlement (receipt r) = Channel_commitment_ref ''ch-1'' 3"
    using that [of "undefined\<lparr>receipt := undefined\<lparr>body_settlement := Channel_commitment_ref ''ch-1'' 3\<rparr>\<rparr>"] by simp
  have "sample_row \<in> set [sample_row]" "cr_id sample_row = ''ch-1''" by (simp_all add: sample_row_def)
  from receipt_channel_link_has_no_target [OF r view this, of plain_glyphs Loading]
  have "(\<exists>e\<in>set (page_elements view). attr ''data-testid'' e = Some ''channel-row-ch-1'') \<and>
     (\<forall>e\<in>set (elements (DashboardShell ''/channels'' True None (ChannelsPage view))). attr ''id'' e = None)" by simp
  with view r show ?thesis by blast
qed

end
