(* ===== verification/Theme.thy ===== *)
theory Theme
  imports Headers "HOL-Library.Multiset"
begin

text \<open>
  The theme, \<open>packages/theme/src\<close>: the colours (\<open>tokens.ts\<close>), the stylesheet that is printed from them (\<open>css.ts\<close>) and
  the Tailwind preset (\<open>preset.ts\<close>). An object literal is a list of its properties, in the order \<open>Object.keys\<close> has.
\<close>

subsection \<open>Tokens\<close>

datatype brand_color = Ink | Vermilion | Amber | Off_white

fun brand :: "brand_color \<Rightarrow> string" where
  "brand Ink = ''#232331''"
| "brand Vermilion = ''#CF432F''"
| "brand Amber = ''#E59B35''"
| "brand Off_white = ''#F8F6FB''"

definition brand_keys :: "brand_color list" where
  "brand_keys = [Ink, Vermilion, Amber, Off_white]"

datatype token =
    Background | Foreground | Muted | Primary | PrimaryForeground | Accent | AccentForeground | Surface | SurfaceElevated
  | Border | BorderStrong | Success | SuccessForeground | Warning | WarningForeground | Danger | DangerForeground

fun token_key :: "token \<Rightarrow> string" where
  "token_key Background = ''background''"
| "token_key Foreground = ''foreground''"
| "token_key Muted = ''muted''"
| "token_key Primary = ''primary''"
| "token_key PrimaryForeground = ''primaryForeground''"
| "token_key Accent = ''accent''"
| "token_key AccentForeground = ''accentForeground''"
| "token_key Surface = ''surface''"
| "token_key SurfaceElevated = ''surfaceElevated''"
| "token_key Border = ''border''"
| "token_key BorderStrong = ''borderStrong''"
| "token_key Success = ''success''"
| "token_key SuccessForeground = ''successForeground''"
| "token_key Warning = ''warning''"
| "token_key WarningForeground = ''warningForeground''"
| "token_key Danger = ''danger''"
| "token_key DangerForeground = ''dangerForeground''"

type_synonym semantic_tokens = "(token \<times> string) list"

definition light :: semantic_tokens where
  "light =
     [(Background, brand Off_white), (Foreground, brand Ink), (Muted, ''#6A6675''), (Primary, brand Vermilion),
      (PrimaryForeground, ''#FFFFFF''), (Accent, brand Amber), (AccentForeground, brand Ink), (Surface, ''#FFFFFF''),
      (SurfaceElevated, ''#F1EEF7''), (Border, ''#E4E0EC''), (BorderStrong, ''#D6D1E0''), (Success, ''#1E8754''),
      (SuccessForeground, ''#FFFFFF''), (Warning, brand Amber), (WarningForeground, brand Ink), (Danger, ''#B5341F''),
      (DangerForeground, ''#FFFFFF'')]"

definition dark :: semantic_tokens where
  "dark =
     [(Background, ''#141017''), (Foreground, ''#F4F2F8''), (Muted, ''#A39FB0''), (Primary, ''#E2563F''),
      (PrimaryForeground, ''#1A1119''), (Accent, ''#E9A648''), (AccentForeground, brand Ink), (Surface, ''#1D1924''),
      (SurfaceElevated, ''#24202D''), (Border, ''#2C2836''), (BorderStrong, ''#3A3546''), (Success, ''#54CB95''),
      (SuccessForeground, ''#0F2A1C''), (Warning, ''#E9A648''), (WarningForeground, brand Ink), (Danger, ''#E5654E''),
      (DangerForeground, ''#2A0E08'')]"

definition cssVarPrefix :: string where
  "cssVarPrefix = ''--tollway''"

definition capital :: "char \<Rightarrow> bool" where
  "capital c \<longleftrightarrow> 65 \<le> (of_char c :: nat) \<and> (of_char c :: nat) \<le> 90"

definition cssVarName :: "token \<Rightarrow> string" where
  "cssVarName token =
     (let kebab = concat (map (\<lambda>c. if capital c then [CHR ''-'', to_lower c] else [c]) (token_key token))
      in cssVarPrefix @ ''-'' @ kebab)"

definition cssVar :: "token \<Rightarrow> string" where
  "cssVar token = ''var('' @ cssVarName token @ '')''"

lemma css_names [simp]:
  "cssVarName Background = ''--tollway-background''" "cssVarName Foreground = ''--tollway-foreground''" "cssVarName Muted = ''--tollway-muted''"
  "cssVarName Primary = ''--tollway-primary''" "cssVarName PrimaryForeground = ''--tollway-primary-foreground''" "cssVarName Accent = ''--tollway-accent''"
  "cssVarName AccentForeground = ''--tollway-accent-foreground''" "cssVarName Surface = ''--tollway-surface''" "cssVarName SurfaceElevated = ''--tollway-surface-elevated''"
  "cssVarName Border = ''--tollway-border''" "cssVarName BorderStrong = ''--tollway-border-strong''" "cssVarName Success = ''--tollway-success''"
  "cssVarName SuccessForeground = ''--tollway-success-foreground''" "cssVarName Warning = ''--tollway-warning''" "cssVarName WarningForeground = ''--tollway-warning-foreground''"
  "cssVarName Danger = ''--tollway-danger''" "cssVarName DangerForeground = ''--tollway-danger-foreground''"
  by code_simp+

lemma css_name_plain: "CHR '':'' \<notin> set (cssVarName k)" "CHR 0x0A \<notin> set (cssVarName k)" "cssVarName k \<noteq> []" "hd (cssVarName k) \<noteq> CHR '' ''"
  by (cases k; simp)+

subsection \<open>The stylesheet\<close>

definition nl :: string where
  "nl = [CHR 0x0A]"

fun join_lines :: "string list \<Rightarrow> string" where
  "join_lines [] = []"
| "join_lines [l] = l"
| "join_lines (l # ls) = l @ nl @ join_lines ls"

definition css_line :: "string \<Rightarrow> string \<Rightarrow> string \<Rightarrow> string" where
  "css_line indent name v = indent @ name @ '': '' @ v @ '';''"

definition declarations :: "semantic_tokens \<Rightarrow> string \<Rightarrow> string" where
  "declarations tokens indent = join_lines (map (\<lambda>(key, v). css_line indent (cssVarName key) v) tokens)"

fun brand_name :: "brand_color \<Rightarrow> string" where
  "brand_name Ink = ''ink''"
| "brand_name Vermilion = ''vermilion''"
| "brand_name Amber = ''amber''"
| "brand_name Off_white = ''off-white''"

definition brandDeclarations :: "string \<Rightarrow> string" where
  "brandDeclarations indent =
     join_lines (map (\<lambda>key. css_line indent (cssVarPrefix @ ''-'' @ brand_name key) (brand key)) brand_keys)"

definition renderTokensCss :: string where
  "renderTokensCss =
     ''/* Generated from @tollway/theme. Edit src/tokens.ts, not this file. */'' @ nl @ nl @
     '':root {'' @ nl @ brandDeclarations ''  '' @ nl @ nl @ declarations light ''  '' @ nl @ ''}'' @ nl @ nl @
     ''.dark,'' @ nl @ ''[data-theme=\"dark\"] {'' @ nl @ declarations dark ''  '' @ nl @ ''}'' @ nl"

subsection \<open>The preset\<close>

datatype preset_color = One string | Shades "(string \<times> string) list"

definition preset_darkMode :: "string \<times> string" where
  "preset_darkMode = (''class'', ''[data-theme=\"dark\"]'')"

definition preset_colors :: "(string \<times> preset_color) list" where
  "preset_colors =
     [(''background'', One (cssVar Background)), (''foreground'', One (cssVar Foreground)), (''muted'', One (cssVar Muted)),
      (''primary'', Shades [(''DEFAULT'', cssVar Primary), (''foreground'', cssVar PrimaryForeground)]),
      (''accent'', Shades [(''DEFAULT'', cssVar Accent), (''foreground'', cssVar AccentForeground)]),
      (''surface'', Shades [(''DEFAULT'', cssVar Surface), (''elevated'', cssVar SurfaceElevated)]),
      (''border'', Shades [(''DEFAULT'', cssVar Border), (''strong'', cssVar BorderStrong)]),
      (''success'', Shades [(''DEFAULT'', cssVar Success), (''foreground'', cssVar SuccessForeground)]),
      (''warning'', Shades [(''DEFAULT'', cssVar Warning), (''foreground'', cssVar WarningForeground)]),
      (''danger'', Shades [(''DEFAULT'', cssVar Danger), (''foreground'', cssVar DangerForeground)])]"

subsection \<open>Reading the stylesheet\<close>

text \<open>A reader of stylesheets of one declaration a line: lines, the block that opens with a selector, name and value
  of a line.\<close>

fun lines_of :: "string \<Rightarrow> string list" where
  "lines_of [] = [[]]"
| "lines_of (c # cs) = (if c = CHR 0x0A then [] # lines_of cs else (c # hd (lines_of cs)) # tl (lines_of cs))"

definition read_declaration :: "string \<Rightarrow> string \<times> string" where
  "read_declaration line =
     (let d = dropWhile (\<lambda>c. c = CHR '' '') line
      in (takeWhile (\<lambda>c. c \<noteq> CHR '':'') d, butlast (drop 2 (dropWhile (\<lambda>c. c \<noteq> CHR '':'') d))))"

definition read_block :: "string \<Rightarrow> string list \<Rightarrow> (string \<times> string) list" where
  "read_block selector ls =
     map read_declaration (filter (\<lambda>l. l \<noteq> []) (takeWhile (\<lambda>l. l \<noteq> ''}'') (tl (dropWhile (\<lambda>l. l \<noteq> selector @ '' {'') ls))))"

lemma lines_of_not_Nil [simp]: "lines_of s \<noteq> []"
  by (induction s) simp_all

lemma lines_of_append: "CHR 0x0A \<notin> set l \<Longrightarrow> lines_of (l @ nl @ s) = l # lines_of s"
  by (induction l) (auto simp: nl_def)

lemma lines_of_line: "CHR 0x0A \<notin> set l \<Longrightarrow> lines_of l = [l]"
  by (induction l) auto

lemma lines_of_join:
  assumes "\<forall>l\<in>set ls. CHR 0x0A \<notin> set l" "ls \<noteq> []"
  shows "lines_of (join_lines ls @ nl @ s) = ls @ lines_of s"
  using assms by (induction ls rule: join_lines.induct) (simp_all add: lines_of_append)

lemma read_declaration_printed:
  assumes "CHR '':'' \<notin> set name" "name \<noteq> []" "hd name \<noteq> CHR '' ''"
  shows "read_declaration (css_line ''  '' name v) = (name, v)"
proof -
  have d: "dropWhile (\<lambda>c. c = CHR '' '') (name @ '': '' @ v @ '';'') = name @ '': '' @ v @ '';''"
    using assms(2,3) by (cases name) simp_all
  have "takeWhile (\<lambda>c. c \<noteq> CHR '':'') (name @ '': '' @ v @ '';'') = name"
    "dropWhile (\<lambda>c. c \<noteq> CHR '':'') (name @ '': '' @ v @ '';'') = '': '' @ v @ '';''"
    using assms(1) by (auto simp: takeWhile_append dropWhile_append)
  then show ?thesis by (simp add: read_declaration_def css_line_def d [simplified] butlast_append)
qed

definition token_lines :: "semantic_tokens \<Rightarrow> string list" where
  "token_lines tokens = map (\<lambda>(k, v). css_line ''  '' (cssVarName k) v) tokens"

definition brand_lines :: "string list" where
  "brand_lines = map (\<lambda>k. css_line ''  '' (cssVarPrefix @ ''-'' @ brand_name k) (brand k)) brand_keys"

lemma one_line:
  "\<forall>l\<in>set (token_lines light). CHR 0x0A \<notin> set l" "\<forall>l\<in>set (token_lines dark). CHR 0x0A \<notin> set l"
  "\<forall>l\<in>set brand_lines. CHR 0x0A \<notin> set l"
  by (simp_all add: token_lines_def brand_lines_def brand_keys_def light_def dark_def css_line_def cssVarPrefix_def)

lemma lines_of_last: "CHR 0x0A \<notin> set l \<Longrightarrow> lines_of (l @ nl) = [l, []]"
  using lines_of_append [of l "[]"] by simp

lemma stylesheet_lines:
  "lines_of renderTokensCss =
     ''/* Generated from @tollway/theme. Edit src/tokens.ts, not this file. */'' # [] # '':root {'' # brand_lines @ [] #
     token_lines light @ ''}'' # [] # ''.dark,'' # ''[data-theme=\"dark\"] {'' # token_lines dark @ [''}'', []]"
proof -
  have empty_line: "lines_of (nl @ s) = [] # lines_of s" for s by (simp add: nl_def)
  have "brandDeclarations ''  '' = join_lines brand_lines" "declarations t ''  '' = join_lines (token_lines t)" for t
    by (simp_all add: brandDeclarations_def brand_lines_def declarations_def token_lines_def)
  moreover have "brand_lines \<noteq> []" "token_lines light \<noteq> []" "token_lines dark \<noteq> []"
    by (simp_all add: brand_lines_def brand_keys_def token_lines_def light_def dark_def)
  ultimately show ?thesis
    unfolding renderTokensCss_def 
    by (simp add: lines_of_append lines_of_last empty_line lines_of_join one_line del: append_Cons append_Nil append.simps lines_of.simps append_assoc)
qed

lemma read_block_of:
  assumes "ls = before @ (selector @ '' {'') # body @ ''}'' # after" "selector @ '' {'' \<notin> set before" "''}'' \<notin> set body"
  shows "read_block selector ls = map read_declaration (filter (\<lambda>l. l \<noteq> []) body)"
proof -
  have "dropWhile (\<lambda>l. l \<noteq> selector @ '' {'') ls = (selector @ '' {'') # body @ ''}'' # after"
    using assms(2) unfolding assms(1) by (subst dropWhile_append2) auto
  moreover have "takeWhile (\<lambda>l. l \<noteq> ''}'') (body @ ''}'' # after) = body"
    using assms(3) by (subst takeWhile_append2) auto
  ultimately show ?thesis by (simp add: read_block_def)
qed

lemma css_line_facts: "css_line ''  '' n v \<noteq> []" "css_line ''  '' n v \<noteq> ''}''"
  by (simp_all add: css_line_def)

lemma block_lines:
  "''}'' \<notin> set (token_lines t)" "''}'' \<notin> set brand_lines" "filter (\<lambda>l. l \<noteq> []) (token_lines t) = token_lines t"
  "filter (\<lambda>l. l \<noteq> []) brand_lines = brand_lines"
  by (auto simp: token_lines_def brand_lines_def css_line_facts filter_id_conv css_line_facts [symmetric])

lemma read_token_lines: "map read_declaration (token_lines t) = map (\<lambda>(k, v). (cssVarName k, v)) t"
proof -
  show ?thesis by (auto simp: token_lines_def read_declaration_printed css_name_plain)
qed

lemma read_brand_lines: "map read_declaration brand_lines = map (\<lambda>k. (cssVarPrefix @ ''-'' @ brand_name k, brand k)) brand_keys"
proof -
  have "CHR '':'' \<notin> set (cssVarPrefix @ ''-'' @ brand_name k) \<and> cssVarPrefix @ ''-'' @ brand_name k \<noteq> [] \<and>
      hd (cssVarPrefix @ ''-'' @ brand_name k) \<noteq> CHR '' ''" for k by (cases k; simp add: cssVarPrefix_def)
  then show ?thesis by (auto simp: brand_lines_def read_declaration_printed)
qed

lemma light_block:
  "read_block '':root'' (lines_of renderTokensCss) =
     map (\<lambda>k. (cssVarPrefix @ ''-'' @ brand_name k, brand k)) brand_keys @ map (\<lambda>(k, v). (cssVarName k, v)) light"
proof -
  have "read_block '':root'' (lines_of renderTokensCss) =
      map read_declaration (filter (\<lambda>l. l \<noteq> []) (brand_lines @ [[]] @ token_lines light))"
    by (rule read_block_of [where before = "[''/* Generated from @tollway/theme. Edit src/tokens.ts, not this file. */'', []]"])
      (simp_all add: stylesheet_lines block_lines)
  then show ?thesis by (simp add: block_lines read_token_lines read_brand_lines)
qed

lemma dark_block: "read_block ''[data-theme=\"dark\"]'' (lines_of renderTokensCss) = map (\<lambda>(k, v). (cssVarName k, v)) dark"
proof -
  let ?before = "[''/* Generated from @tollway/theme. Edit src/tokens.ts, not this file. */'', [], '':root {''] @ brand_lines @ [[]] @
    token_lines light @ [''}'', [], ''.dark,'']"
  have other: "css_line ''  '' n v \<noteq> ''[data-theme=\"dark\"] {''" for n v by (simp add: css_line_def)
  then have "''[data-theme=\"dark\"] {'' \<notin> set (token_lines t)" "''[data-theme=\"dark\"] {'' \<notin> set brand_lines" for t
    by (auto simp: token_lines_def brand_lines_def other [symmetric] dest: sym)
  then have "read_block ''[data-theme=\"dark\"]'' (lines_of renderTokensCss) = map read_declaration (filter (\<lambda>l. l \<noteq> []) (token_lines dark))"
    by (intro read_block_of [where before = ?before]) (simp_all add: stylesheet_lines block_lines)
  then show ?thesis by (simp add: block_lines read_token_lines)
qed

subsection \<open>Property\<close>

definition preset_values :: "string list" where
  "preset_values = concat (map (\<lambda>(name, c). case c of One v \<Rightarrow> [v] | Shades vs \<Rightarrow> map snd vs) preset_colors)"

text \<open>The stylesheet says what the tokens say. Read back, its \<open>:root\<close> block declares the brand colours and the light
  value of every role, its dark block the dark value of every role, under names that are all different, so no
  declaration hides another and either theme defines every role; and the Tailwind preset refers to the variable
  of every role exactly once and to nothing else.\<close>

theorem stylesheet_reads_back:
  "read_block '':root'' (lines_of renderTokensCss) =
     map (\<lambda>k. (cssVarPrefix @ ''-'' @ brand_name k, brand k)) brand_keys @ map (\<lambda>(k, v). (cssVarName k, v)) light \<and>
   read_block ''[data-theme=\"dark\"]'' (lines_of renderTokensCss) = map (\<lambda>(k, v). (cssVarName k, v)) dark \<and>
   map fst dark = map fst light \<and> (\<forall>k. k \<in> set (map fst light)) \<and>
   distinct (map (\<lambda>k. cssVarPrefix @ ''-'' @ brand_name k) brand_keys @ map (\<lambda>(k, v). cssVarName k) light) \<and>
   mset preset_values = mset (map (\<lambda>(k, v). cssVar k) light)"
proof (intro conjI light_block dark_block)
  show "map fst dark = map fst light" by (simp add: light_def dark_def)
  show "\<forall>k. k \<in> set (map fst light)"
  proof
    fix k show "k \<in> set (map fst light)" by (cases k) (simp_all add: light_def)
  qed
  show "distinct (map (\<lambda>k. cssVarPrefix @ ''-'' @ brand_name k) brand_keys @ map (\<lambda>(k, v). cssVarName k) light)" by code_simp
  show "mset preset_values = mset (map (\<lambda>(k, v). cssVar k) light)" by (simp add: preset_values_def preset_colors_def light_def)
qed

end
