(* ===== verification/ChannelQueues.thy ===== *)
theory ChannelQueues
  imports ChannelSteps "HOL-Library.Multiset"
begin

text \<open>
  Callers that wait: no two unfinished calls of \<open>commit\<close> and \<open>close\<close> are on the same channel, while calls on different
  channels overlap in any way. Then every channel keeps agreeing with its stream, every commit that returned is in the
  stream exactly once, and a close settles the committed total, whatever the adapters answer and however late.
  \<open>ChannelSteps\<close> shows that this fails when two calls on one channel overlap.
\<close>

subsection \<open>One call at a time on each channel\<close>

fun finished :: "call \<Rightarrow> bool" where
  "finished (Commit_call i amount (Commit_settled r)) \<longleftrightarrow> True"
| "finished (Close_call i (Close_settled r)) \<longleftrightarrow> True"
| "finished _ \<longleftrightarrow> False"

definition one_each :: "call list \<Rightarrow> bool" where
  "one_each calls \<longleftrightarrow> (\<forall>j k. j < length calls \<and> k < length calls \<and> j \<noteq> k \<and> \<not> finished (calls ! j) \<and> \<not> finished (calls ! k) \<longrightarrow>
     call_channel (calls ! j) \<noteq> call_channel (calls ! k))"

definition queued_step :: "'s store_ops \<Rightarrow> 's \<times> call list \<Rightarrow> 's \<times> call list \<Rightarrow> bool" where
  "queued_step S p q \<longleftrightarrow> pool_step S p q \<and> one_each (snd q)"

text \<open>The commitment that a call has appended, when it is on the given channel.\<close>

fun landed_on :: "string \<Rightarrow> call \<Rightarrow> commitment list" where
  "landed_on j (Commit_call i amount (Commit_awaiting_append cm)) = (if i = j then [cm] else [])"
| "landed_on j (Commit_call i amount (Commit_awaiting_update cm)) = (if i = j then [cm] else [])"
| "landed_on j (Commit_call i amount (Commit_settled (Inr cm))) = (if i = j then [cm] else [])"
| "landed_on j _ = []"

definition landed :: "string \<Rightarrow> call list \<Rightarrow> commitment multiset" where
  "landed i calls = mset (concat (map (landed_on i) calls))"

lemma landed_simps [simp]:
  "landed i [] = {#}" "landed i (calls @ [c]) = landed i calls + mset (landed_on i c)"
  by (simp_all add: landed_def)

lemma landed_update:
  assumes "k < length calls"
  shows "landed i (calls[k := c]) + mset (landed_on i (calls ! k)) = landed i calls + mset (landed_on i c)"
proof -
  obtain xs x ys where "calls = xs @ x # ys" "k = length xs" using id_take_nth_drop [OF assms] assms by (metis length_take min.absorb4)
  then show ?thesis by (simp add: landed_def ac_simps)
qed

lemma landed_balance:
  fixes a a' c l l' u :: "'a multiset"
  assumes "a' + l = a + l'" "u + l = c + l'" shows "a' + c = a + u"
proof -
  have "(a' + c) + l' = a' + (u + l)" by (simp only: assms(2) add.assoc)
  also have "\<dots> = (a' + l) + u" by (simp only: ac_simps)
  also have "\<dots> = (a + u) + l'" by (simp only: assms(1) ac_simps)
  finally show ?thesis by simp
qed

text \<open>A resumed call stays on its channel, and stays finished.\<close>

lemma finished_commit_stays:
  "commit_resume S answer now i amount call s = (call', s') \<Longrightarrow> finished (Commit_call i amount call) \<Longrightarrow> call' = call \<and> s' = s"
  by (cases call) (auto simp: commit_resume_def)

lemma finished_close_stays:
  "close_resume S answer i call s = (call', s') \<Longrightarrow> finished (Close_call i call) \<Longrightarrow> call' = call \<and> s' = s"
  by (cases call) (auto simp: close_resume_def)

lemma one_eachD:
  "one_each calls \<Longrightarrow> j < length calls \<Longrightarrow> k < length calls \<Longrightarrow> j \<noteq> k \<Longrightarrow> \<not> finished (calls ! j) \<Longrightarrow> \<not> finished (calls ! k) \<Longrightarrow>
    call_channel (calls ! j) \<noteq> call_channel (calls ! k)"
  by (simp add: one_each_def)

lemma one_each_Nil [simp]: "one_each []"
  by (simp add: one_each_def)

lemma one_each_snoc_other:
  assumes "one_each (calls @ [c])" "\<not> finished c" "e \<in> set calls" "\<not> finished e" shows "call_channel e \<noteq> call_channel c"
proof -
  from assms(3) obtain j where "j < length calls" "e = calls ! j" by (auto simp: in_set_conv_nth)
  with one_eachD [OF assms(1), of j "length calls"] assms(2,4) show ?thesis by (simp add: nth_append)
qed

lemma one_each_other:
  assumes "one_each calls" "k < length calls" "\<not> finished (calls ! k)" "e \<in> set (calls[k := c])" "\<not> finished e" "e \<noteq> c"
  shows "e \<in> set calls \<and> call_channel e \<noteq> call_channel (calls ! k)"
proof -
  from assms(4) obtain j where j: "j < length calls" "e = calls[k := c] ! j" by (auto simp: in_set_conv_nth)
  with assms(6) have "j \<noteq> k" by auto
  with j have "e = calls ! j" by simp
  with one_eachD [OF assms(1) j(1) assms(2) \<open>j \<noteq> k\<close>] j(1) assms(3,5) show ?thesis by simp
qed

lemma one_each_update:
  assumes "one_each calls" "k < length calls" "call_channel c = call_channel (calls ! k)" "finished (calls ! k) \<Longrightarrow> finished c"
  shows "one_each (calls[k := c])"
proof -
  have "call_channel (calls[k := c] ! j) = call_channel (calls ! j) \<and> (finished (calls ! j) \<longrightarrow> finished (calls[k := c] ! j))"
    if "j < length calls" for j using assms(2-4) that by (simp add: nth_list_update)
  with one_eachD [OF assms(1)] show ?thesis unfolding one_each_def by (metis length_list_update)
qed

subsection \<open>The invariant\<close>

fun chan_agrees :: "string \<Rightarrow> channel option \<Rightarrow> commitment list \<Rightarrow> bool" where
  "chan_agrees i None st \<longleftrightarrow> st = []"
| "chan_agrees i (Some c) st \<longleftrightarrow> ch_id c = i \<and> channel_ok c st"

context commitment_store
begin

definition agrees :: "string \<Rightarrow> 's \<Rightarrow> bool" where
  "agrees i s \<longleftrightarrow> chan_agrees i (getChannel S i s) (stream_of i s)"

fun phase_ok :: "'s \<Rightarrow> call \<Rightarrow> bool" where
  "phase_ok s (Commit_call i amount (Commit_awaiting_channel delta found)) \<longleftrightarrow>
     agrees i s \<and> 0 < delta \<and> found = getChannel S i s"
| "phase_ok s (Commit_call i amount (Commit_awaiting_signature n q network)) \<longleftrightarrow> agrees i s \<and>
     (\<exists>c. getChannel S i s = Some c \<and> BigInt (ch_committed c) < n \<and> n \<le> BigInt (ch_deposit c) \<and> q = ch_sequence c + 1)"
| "phase_ok s (Commit_call i amount (Commit_awaiting_append cm)) \<longleftrightarrow>
     (\<exists>c st. getChannel S i s = Some c \<and> ch_id c = i \<and> channel_ok c st \<and> stream_of i s = st @ [cm] \<and>
       stream_ok i (BigInt (ch_deposit c)) (st @ [cm]))"
| "phase_ok s (Commit_call i amount _) \<longleftrightarrow> agrees i s"
| "phase_ok s (Close_call i (Close_awaiting_channel found)) \<longleftrightarrow> agrees i s \<and> found = getChannel S i s"
| "phase_ok s (Close_call i (Close_awaiting_stream current stream)) \<longleftrightarrow>
     agrees i s \<and> getChannel S i s = Some current \<and> stream = stream_of i s"
| "phase_ok s (Close_call i (Close_awaiting_mark input)) \<longleftrightarrow>
     agrees i s \<and> (\<exists>c. getChannel S i s = Some c \<and> ca_cumulativeAmount input = ch_committed c)"
| "phase_ok s (Close_call i (Close_awaiting_adapter input)) \<longleftrightarrow>
     agrees i s \<and> (\<exists>c. getChannel S i s = Some c \<and> ca_cumulativeAmount input = ch_committed c)"
| "phase_ok s (Close_call i _) \<longleftrightarrow> agrees i s"

definition queues_ok :: "'s \<Rightarrow> call list \<Rightarrow> bool" where
  "queues_ok s calls \<longleftrightarrow> one_each calls \<and> (\<forall>c\<in>set calls. \<not> finished c \<longrightarrow> phase_ok s c) \<and>
     (\<forall>i. (\<forall>c\<in>set calls. call_channel c = i \<longrightarrow> finished c) \<longrightarrow> agrees i s)"

lemma inv_agrees: "manager_inv s \<Longrightarrow> agrees i s"
  by (cases "getChannel S i s") (simp_all add: manager_inv_def agrees_def)

text \<open>A call depends on its own channel only.\<close>

lemma agrees_frame: "getChannel S i s' = getChannel S i s \<Longrightarrow> stream_of i s' = stream_of i s \<Longrightarrow> agrees i s' = agrees i s"
  by (simp add: agrees_def)

lemma phase_frame:
  "getChannel S (call_channel c) s' = getChannel S (call_channel c) s \<Longrightarrow> stream_of (call_channel c) s' = stream_of (call_channel c) s \<Longrightarrow>
    phase_ok s' c = phase_ok s c"
  by (cases "(s, c)" rule: phase_ok.cases) (simp_all add: agrees_def)

lemma commit_resume_frame:
  assumes "commit_resume S answer now i amount call s = (call', s')" "j \<noteq> i" "phase_ok s (Commit_call i amount call)"
  shows "getChannel S j s' = getChannel S j s \<and> stream_of j s' = stream_of j s"
  using assms
  by (cases call) (auto simp: commit_resume_def store_laws Let_def split: sum.splits if_splits option.splits)

lemma close_resume_frame:
  assumes "close_resume S answer i call s = (call', s')" "j \<noteq> i"
  shows "getChannel S j s' = getChannel S j s \<and> stream_of j s' = stream_of j s"
  using assms
  by (cases call) (auto simp: close_resume_def settle_close_def set_status_def store_laws split: sum.splits if_splits option.splits)

lemma agrees_Some: "agrees i s \<Longrightarrow> getChannel S i s = Some c \<Longrightarrow> ch_id c = i \<and> channel_ok c (stream_of i s)"
  by (simp add: agrees_def)

lemma agrees_patch:
  assumes "agrees i s" "\<And>c. channel_ok (apply_patch p c) (stream_of i s) = channel_ok c (stream_of i s)"
  shows "agrees i (snd (updateChannel S i p s))"
  using assms by (cases "getChannel S i s") (auto simp: agrees_def store_laws)

lemma commit_resume_phase:
  assumes ok: "phase_ok s (Commit_call i amount call)" and run: "commit_resume S answer now i amount call s = (call', s')"
  shows "phase_ok s' (Commit_call i amount call')"
proof (cases call)
  case Commit_called
  with ok run show ?thesis by (auto simp: commit_resume_def split: sum.splits if_splits)
next
  case (Commit_awaiting_channel delta found)
  with ok run show ?thesis
    by (auto simp: commit_resume_def Let_def split: sum.splits if_splits option.splits)
next
  case (Commit_awaiting_signature n q network)
  with ok obtain c where c: "agrees i s" "getChannel S i s = Some c" "BigInt (ch_committed c) < n" "n \<le> BigInt (ch_deposit c)"
    "q = ch_sequence c + 1" by auto
  note chan = agrees_Some [OF c(1,2)]
  show ?thesis
  proof (cases answer)
    case (Inl e)
    with run c(1) Commit_awaiting_signature show ?thesis by (auto simp: commit_resume_def)
  next
    case (Inr blob)
    let ?cm = "\<lparr>cm_channelId = i, cm_sequence = q, cm_cumulativeAmount = nat_toString n, cm_commitment = blob\<rparr>"
    have "stream_ok i (BigInt (ch_deposit c)) (stream_of i s @ [?cm])"
      by (rule stream_ok_snoc [where n = n]) (use chan c(3-5) in \<open>auto simp: channel_ok_def\<close>)
    with run chan c(2) Inr Commit_awaiting_signature show ?thesis by (auto simp: commit_resume_def Let_def store_laws)
  qed
next
  case (Commit_awaiting_append cm)
  with ok obtain c st where c: "getChannel S i s = Some c" "ch_id c = i" "channel_ok c st" "stream_of i s = st @ [cm]"
    "stream_ok i (BigInt (ch_deposit c)) (st @ [cm])" by auto
  from c(5) have "cm_sequence cm = int (length st)" by (simp add: stream_ok_def)
  with run c Commit_awaiting_append show ?thesis
    by (auto simp: commit_resume_def agrees_def store_laws channel_ok_def latest_amount_def)
qed (use ok run in \<open>auto simp: commit_resume_def\<close>)

lemma close_resume_phase:
  assumes ok: "phase_ok s (Close_call i call)" and run: "close_resume S answer i call s = (call', s')"
  shows "phase_ok s' (Close_call i call')"
proof (cases call)
  case Close_called
  with ok run show ?thesis by (auto simp: close_resume_def)
next
  case (Close_awaiting_channel found)
  with ok run agrees_Some [of i s] show ?thesis
    by (auto simp: close_resume_def list_stream channel_ok_def stream_ok_sorted split: option.splits if_splits)
next
  case (Close_awaiting_stream current stream)
  with ok have "channel_ok current stream" "agrees i s" "getChannel S i s = Some current"
    using agrees_Some [of i s current] by auto
  moreover have "agrees i (set_status S i Status_closing s)" unfolding set_status_def by (rule agrees_patch) (simp_all add: calculation)
  ultimately show ?thesis
    using run Close_awaiting_stream
    by (auto simp: close_resume_def close_input_def set_status_def store_laws channel_ok_def latest_amount_def split: list.splits)
next
  case (Close_awaiting_adapter input)
  with ok run show ?thesis
    by (auto simp: close_resume_def settle_close_def set_status_def split: sum.splits if_splits intro!: agrees_patch)
qed (use ok run in \<open>auto simp: close_resume_def\<close>)

lemma finished_phase: "finished c \<Longrightarrow> phase_ok s c = agrees (call_channel c) s"
  by (cases c rule: finished.cases) simp_all

lemma run_keeps:
  assumes ok: "queues_ok s calls" and k: "k < length calls" "\<not> finished (calls ! k)"
    and c': "call_channel c' = call_channel (calls ! k)" "phase_ok s' c'"
    and frame: "\<And>j. j \<noteq> call_channel c' \<Longrightarrow> getChannel S j s' = getChannel S j s \<and> stream_of j s' = stream_of j s"
  shows "queues_ok s' (calls[k := c'])"
proof -
  have each: "one_each (calls[k := c'])" using ok k c'(1) by (intro one_each_update) (simp_all add: queues_ok_def)
  have "phase_ok s' e" if e: "e \<in> set (calls[k := c'])" "\<not> finished e" for e
  proof (cases "e = c'")
    case False
    with one_each_other [OF _ k e] ok have "e \<in> set calls" "call_channel e \<noteq> call_channel c'" by (simp_all add: queues_ok_def c'(1))
    with ok e(2) frame [of "call_channel e"] phase_frame [of e s' s] show ?thesis by (simp add: queues_ok_def)
  qed (simp add: c'(2))
  moreover have "agrees i s'" if i: "\<forall>e\<in>set (calls[k := c']). call_channel e = i \<longrightarrow> finished e" for i
  proof (cases "i = call_channel c'")
    case True
    moreover have "c' \<in> set (calls[k := c'])" using k(1) by (rule set_update_memI)
    ultimately show ?thesis using i c'(2) finished_phase by blast
  next
    case False
    have "finished e" if "e \<in> set calls" "call_channel e = i" for e
    proof -
      from that(1) obtain j where j: "j < length calls" "e = calls ! j" by (auto simp: in_set_conv_nth)
      with that(2) False c'(1) have "j \<noteq> k" by auto
      with j have "e \<in> set (calls[k := c'])" by (metis length_list_update nth_list_update_neq nth_mem)
      with i that(2) show ?thesis by blast
    qed
    with ok have "agrees i s" by (simp add: queues_ok_def)
    with frame [OF False] show ?thesis by (simp add: agrees_def)
  qed
  ultimately show ?thesis using each by (simp add: queues_ok_def)
qed

lemma start_keeps:
  assumes ok: "queues_ok s calls" and each: "one_each (calls @ [c])" and c: "\<not> finished c"
    and phase: "agrees (call_channel c) s \<Longrightarrow> phase_ok s c"
  shows "queues_ok s (calls @ [c])"
proof -
  have "agrees (call_channel c) s" using ok one_each_snoc_other [OF each c] by (auto simp: queues_ok_def)
  with ok each phase show ?thesis by (auto simp: queues_ok_def)
qed

lemma queued_step_keeps:
  assumes "queued_step S (s, calls) (s', calls')" "queues_ok s calls" shows "queues_ok s' calls'"
proof -
  from assms(1) have step: "pool_step S (s, calls) (s', calls')" and each: "one_each calls'" by (simp_all add: queued_step_def)
  from step show ?thesis
  proof (cases rule: pool_step_cases [consumes 1, case_names start_commit start_close run_commit run_close])
    case (start_commit i amount)
    with each assms(2) show ?thesis by (auto intro!: start_keeps)
  next
    case (start_close i)
    with each assms(2) show ?thesis by (auto intro!: start_keeps)
  next
    case (run_commit k i amount call answer now call')
    show ?thesis
    proof (cases "finished (calls ! k)")
      case True
      with finished_commit_stays run_commit have "s' = s" "calls' = calls" by (metis list_update_id)+
      with assms(2) show ?thesis by simp
    next
      case False
      with assms(2) run_commit(2,3) have "phase_ok s (Commit_call i amount call)" unfolding queues_ok_def by (metis nth_mem)
      with False run_commit commit_resume_phase [OF this run_commit(4)] commit_resume_frame [OF run_commit(4) _ this]
      show ?thesis by (auto intro!: run_keeps [OF assms(2)])
    qed
  next
    case (run_close k i call answer call')
    show ?thesis
    proof (cases "finished (calls ! k)")
      case True
      with finished_close_stays run_close have "s' = s" "calls' = calls" by (metis list_update_id)+
      with assms(2) show ?thesis by simp
    next
      case False
      with assms(2) run_close(2,3) have "phase_ok s (Close_call i call)" unfolding queues_ok_def by (metis nth_mem)
      with False run_close close_resume_phase [OF this run_close(4)] close_resume_frame [OF run_close(4)]
      show ?thesis by (auto intro!: run_keeps [OF assms(2)])
    qed
  qed
qed

lemma commit_resume_landed:
  "commit_resume S answer now i amount call s = (call', s') \<Longrightarrow> phase_ok s (Commit_call i amount call) \<or> finished (Commit_call i amount call) \<Longrightarrow>
    mset (stream_of j s') + mset (landed_on j (Commit_call i amount call)) =
    mset (stream_of j s) + mset (landed_on j (Commit_call i amount call'))"
  by (cases call) (auto simp: commit_resume_def store_laws Let_def split: sum.splits if_splits option.splits)

lemma close_resume_landed:
  "close_resume S answer i call s = (call', s') \<Longrightarrow> stream_of j s' = stream_of j s"
  by (cases call) (auto simp: close_resume_def settle_close_def set_status_def store_laws split: sum.splits if_splits option.splits)

lemma pool_step_landed:
  assumes "queued_step S (s, calls) (s', calls')" "queues_ok s calls"
  shows "mset (stream_of j s') + landed j calls = mset (stream_of j s) + landed j calls'"
  using assms(1) [unfolded queued_step_def, THEN conjunct1]
proof (cases rule: pool_step_cases [consumes 1, case_names start_commit start_close run_commit run_close])
  case (run_commit k i amount call answer now call')
  have "phase_ok s (Commit_call i amount call) \<or> finished (Commit_call i amount call)"
    using assms(2) run_commit(2,3) unfolding queues_ok_def by (metis nth_mem)
  from commit_resume_landed [OF run_commit(4) this, of j] landed_update [OF run_commit(2), of j "Commit_call i amount call'"]
  show ?thesis unfolding run_commit(1,3) by (rule landed_balance)
next
  case (run_close k i call answer call')
  from landed_update [OF run_close(2), of j "Close_call i call'"] show ?thesis
    using run_close(1,3) close_resume_landed [OF run_close(4)] by simp
qed simp_all

lemma queued_run:
  assumes "(queued_step S)\<^sup>*\<^sup>* (s, []) q" "manager_inv s"
  shows "queues_ok (fst q) (snd q) \<and> mset (stream_of j (fst q)) = mset (stream_of j s) + landed j (snd q)"
  using assms(1)
proof (induction rule: rtranclp_induct)
  case base
  show ?case using inv_agrees [OF assms(2)] by (simp add: queues_ok_def)
next
  case (step p q)
  from step.hyps(2) have "queued_step S (fst p, snd p) (fst q, snd q)" by simp
  with step.IH queued_step_keeps [OF this] pool_step_landed [OF this, of j] show ?case
    by (simp add: ac_simps)
qed

end

subsection \<open>Property\<close>

text \<open>C9. Callers that wait for their calls on a channel are safe. Commits and closes on different channels may overlap
  in any way, with adapters that answer anything at any time: if no two unfinished calls are on one channel, then a
  channel without unfinished calls agrees with its stream, whose sequence numbers are 0, 1, 2, ..., every commit that
  returned is in the stream exactly once, and whenever a close waits for the adapter, it asks to settle exactly the
  channel's committed total.\<close>

theorem waiting_callers_keep_streams:
  assumes "reachable s" and "(queued_step memory_store)\<^sup>*\<^sup>* (s, []) (s', calls)" and "mem_getChannel i s' = Some c"
  shows "((\<forall>k\<in>set calls. call_channel k = i \<longrightarrow> finished k) \<longrightarrow>
      ch_id c = i \<and> channel_ok c (mem_listCommitments i s') \<and>
      mset (mem_listCommitments i s') = mset (mem_listCommitments i s) + landed i calls) \<and>
    (\<forall>input. Close_call i (Close_awaiting_adapter input) \<in> set calls \<longrightarrow> ca_cumulativeAmount input = ch_committed c)"
proof -
  note run = mem.queued_run [OF assms(2) reachable_manager_inv [OF assms(1)], of i, unfolded fst_conv snd_conv]
  then have ok: "mem.queues_ok s' calls" by blast
  have "ca_cumulativeAmount input = ch_committed c" if "Close_call i (Close_awaiting_adapter input) \<in> set calls" for input
    using ok that assms(3) unfolding mem.queues_ok_def by fastforce
  moreover have "ch_id c = i \<and> channel_ok c (mem_listCommitments i s')" if "\<forall>k\<in>set calls. call_channel k = i \<longrightarrow> finished k"
  proof -
    have "mem.agrees i s'" using ok that unfolding mem.queues_ok_def by blast
    with assms(3) show ?thesis
      by (simp add: mem.agrees_def mem_listCommitments_def) (metis channel_ok_def stream_ok_sorted)
  qed
  ultimately show ?thesis using run by (simp add: mem_listCommitments_def)
qed

text \<open>Two channels, and a commit on each, segment by segment in turn.\<close>

lemma run_schedule_queued:
  "list_all (\<lambda>k. k < length calls) ks \<Longrightarrow> one_each calls \<Longrightarrow>
    (queued_step memory_store)\<^sup>*\<^sup>* (s, calls) (run_schedule ks (s, calls))"
proof (induction ks arbitrary: s calls)
  case (Cons k ks)
  then have k: "k < length calls" by simp
  obtain s' c' where p: "run_schedule (k # ks) (s, calls) = run_schedule ks (s', calls[k := c'])"
      "pool_step memory_store (s, calls) (s', calls[k := c'])"
      "call_channel c' = call_channel (calls ! k)" "finished (calls ! k) \<Longrightarrow> finished c'"
  proof (cases "calls ! k")
    case (Commit_call i amount call)
    obtain call' s1 where r: "commit_resume memory_store (Inr ''sig'') ''t2'' i amount call s = (call', s1)"
      by (rule prod.exhaust)
    with run_commit [OF k Commit_call r] finished_commit_stays [OF r] show ?thesis
      by (intro that [of s1 "Commit_call i amount call'"]) (auto simp: Commit_call r)
  next
    case (Close_call i call)
    obtain call' s1 where r: "close_resume memory_store (Inl (PlatformError ''Error'' ''timeout'')) i call s = (call', s1)"
      by (rule prod.exhaust)
    with run_close [OF k Close_call r] finished_close_stays [OF r] show ?thesis
      by (intro that [of s1 "Close_call i call'"]) (auto simp: Close_call r)
  qed
  have each: "one_each (calls[k := c'])" by (rule one_each_update [OF Cons.prems(2) k p(3,4)])
  with p(2) have "queued_step memory_store (s, calls) (s', calls[k := c'])" by (simp add: queued_step_def)
  moreover have "(queued_step memory_store)\<^sup>*\<^sup>* (s', calls[k := c']) (run_schedule ks (s', calls[k := c']))"
    by (rule Cons.IH [OF _ each]) (use Cons.prems(1) in simp)
  ultimately show ?case unfolding p(1) by (rule converse_rtranclp_into_rtranclp)
qed simp

definition two_channels :: mem_store where
  "two_channels = snd (open_channel memory_store (sample_adapter ''C2'') ''t0'' sample_open (sample_store 0))"

lemma two_channels_reachable: "reachable two_channels"
proof -
  have "mem_getChannel ''C2'' (sample_store 0) = None" by code_simp
  then show ?thesis unfolding two_channels_def
    by (intro reachable_steps(2) sample_store_reachable) (auto simp: sample_adapter_def)
qed

theorem waiting_callers_keep_streams_witness:
  "let (s, calls) = run_schedule [0, 1, 0, 1, 0, 1, 0, 1, 0, 1] (two_channels,
       [Commit_call ''C1'' ''60'' Commit_called, Commit_call ''C2'' ''70'' Commit_called])
   in \<exists>c. mem_getChannel ''C2'' s = Some c \<and> channel_ok c (mem_listCommitments ''C2'' s) \<and>
     mset (mem_listCommitments ''C2'' s) = mset (mem_listCommitments ''C2'' two_channels) + landed ''C2'' calls \<and> landed ''C2'' calls \<noteq> {#}"
proof -
  let ?one = "[Commit_call ''C1'' ''60'' Commit_called]" and ?calls = "[Commit_call ''C1'' ''60'' Commit_called, Commit_call ''C2'' ''70'' Commit_called]"
  define p where "p = run_schedule [0, 1, 0, 1, 0, 1, 0, 1, 0, 1] (two_channels, ?calls)"
  have each: "one_each ?one" "one_each ?calls" by (auto simp: one_each_def less_Suc_eq)
  have "queued_step memory_store (two_channels, []) (two_channels, ?one)" "queued_step memory_store (two_channels, ?one) (two_channels, ?calls)"
    using start_commit [of memory_store two_channels "[]" "''C1''" "''60''"] start_commit [of memory_store two_channels ?one "''C2''" "''70''"] each
    by (simp_all add: queued_step_def)
  moreover have "(queued_step memory_store)\<^sup>*\<^sup>* (two_channels, ?calls) p"
    unfolding p_def by (rule run_schedule_queued) (simp_all add: each)
  ultimately have run: "(queued_step memory_store)\<^sup>*\<^sup>* (two_channels, []) (fst p, snd p)"
    by (simp add: converse_rtranclp_into_rtranclp)
  have "mem_getChannel ''C2'' (fst p) \<noteq> None" unfolding p_def by code_simp
  then obtain c where c: "mem_getChannel ''C2'' (fst p) = Some c" by auto
  have "list_all finished (snd p)" unfolding p_def by code_simp
  then have idle: "\<forall>k\<in>set (snd p). call_channel k = ''C2'' \<longrightarrow> finished k" by (simp add: list_all_iff)
  have "concat (map (landed_on ''C2'') (snd p)) \<noteq> []" unfolding p_def by code_simp
  then have "landed ''C2'' (snd p) \<noteq> {#}" by (simp add: landed_def)
  with waiting_callers_keep_streams [OF two_channels_reachable run c] idle c show ?thesis
    unfolding p_def [symmetric] Let_def case_prod_beta by blast
qed

end
