(* ===== verification/PaidReceipts.thy ===== *)
theory PaidReceipts
  imports ClientProofs GateProofs Reconcile
begin

text \<open>
  Client, policy, gates and reconciler together. The client does not compare a receipt with the offer it paid: it
  relies on the service for that. When the payments are settled by gates, what the client's policy has booked is
  exactly what its receipts say, and each receipt reconciles.
\<close>

subsection \<open>Receipts from gates\<close>

text \<open>A settler whose receipts come from gates of any configuration that made the offer being paid.\<close>

definition served :: "'h settler \<Rightarrow> bool" where
  "served settler \<longleftrightarrow> (\<forall>q w r w'. settler q w = (Inr r, w') \<longrightarrow>
     (\<exists>ctx inFlight deps config request v hs replayed ce v'.
        gate ctx inFlight deps config request v = (Inr (Gate_settled hs r replayed ce), v' :: 'h) \<and>
        offer_of_config config request = settle_offer q))"

definition for_offer :: "signed_receipt \<Rightarrow> payment_offer \<Rightarrow> bool" where
  "for_offer r offer \<longleftrightarrow> (\<exists>m\<in>{X402, Mpp_charge}. matches (receipt r) offer m)"

lemma served_for_offer:
  fixes settler :: "'h settler"
  assumes "served settler" "settler q w = (Inr r, w')" shows "for_offer r (settle_offer q)"
proof -
  from assms(1) [unfolded served_def, rule_format, OF assms(2)] show ?thesis
  proof (elim exE conjE)
    fix ctx inFlight deps config request hs replayed ce and v v' :: 'h
    assume g: "gate ctx inFlight deps config request v = (Inr (Gate_settled hs r replayed ce), v')"
      and offer: "offer_of_config config request = settle_offer q"
    from gate_settled [OF g] show ?thesis unfolding offer for_offer_def by blast
  qed
qed

lemma for_offer_fields:
  "for_offer r offer \<Longrightarrow> body_amount (receipt r) = offer_amount offer \<and> body_asset (receipt r) = offer_asset offer"
  by (auto simp: for_offer_def matches_def)

subsection \<open>A payment that returns\<close>

lemma pay_receipt:
  assumes "pay opts hs q w = (Inr (r, m), w')"
  shows "\<exists>v v'. opt_settler opts \<lparr>settle_resource = pay_resource q, settle_offer = pay_offer q, settle_model = m\<rparr> v = (Inr r, v')"
    "check_receipt opts r = Inr ()"
  using assms by (auto simp: pay_def try_pay_def Let_def split: prod.splits sum.splits)

lemma checked_receipt:
  assumes "check_receipt opts r = Inr ()" "opt_verifier opts = Some v"
  shows "verifyReceipt (verifier_schema v) r (verifier_verify v) = Inr Valid"
  using assms by (cases "verifyReceipt (verifier_schema v) r (verifier_verify v)")
    (auto simp: check_receipt_def rejects_def split: receipt_verification.splits)

lemma valid_parses: "verifyReceipt schema r verify = Inr Valid \<Longrightarrow> \<exists>x. schema r = Inr x"
  by (auto simp: verifyReceipt_def split: sum.splits)

lemma engine_client_receipt:
  assumes "served settler" "pay (engine_client pol tick settler router verifier) hs q w = (Inr (r, m), w')"
  shows "for_offer r (pay_offer q)"
proof -
  let ?q = "\<lparr>settle_resource = pay_resource q, settle_offer = pay_offer q, settle_model = m\<rparr>"
  from pay_receipt(1) [OF assms(2)] obtain u u' where "opt_settler (engine_client pol tick settler router verifier) ?q u = (Inr r, u')" by blast
  then have "on_rest settler ?q u = (Inr r, u')" by (simp add: engine_client_def)
  then have "settler ?q (snd u) = (Inr r, snd u')" by (auto simp: on_rest_def split: prod.splits)
  from served_for_offer [OF assms(1) this] show ?thesis by simp
qed

subsection \<open>A session\<close>

text \<open>The total of one asset on the receipts of a session.\<close>

fun receipt_units :: "string \<Rightarrow> pay_error + pay_result \<Rightarrow> nat" where
  "receipt_units a (Inl e) = 0"
| "receipt_units a (Inr (r, m)) = (if body_asset (receipt r) = a then BigInt (body_amount (receipt r)) else 0)"

definition receipted :: "string \<Rightarrow> (pay_error + pay_result) list \<Rightarrow> nat" where
  "receipted a results = sum_list (map (receipt_units a) results)"

lemma pay_all_length: "pay_all opts hs qs w = (xs, w') \<Longrightarrow> length xs = length qs"
  by (induction qs arbitrary: w xs) (fastforce simp: map_prod_def split: prod.splits)+

lemma pay_all_each:
  assumes "pay_all opts hs qs w = (xs, w')" "k < length qs"
  shows "\<exists>v v'. pay opts hs (qs ! k) v = (xs ! k, v')"
  using assms
proof (induction qs arbitrary: w w' xs k)
  case (Cons q qs)
  obtain x w1 where x: "pay opts hs q w = (x, w1)" by (rule prod.exhaust)
  obtain ys w2 where ys: "pay_all opts hs qs w1 = (ys, w2)" by (rule prod.exhaust)
  from Cons.prems(1) x ys have "xs = x # ys" by simp
  with x Cons.IH [OF ys] Cons.prems(2) show ?case by (cases k) auto
qed simp

lemma receipted_paid:
  assumes "length xs = length qs" "\<And>k r m. k < length qs \<Longrightarrow> xs ! k = Inr (r, m) \<Longrightarrow> for_offer r (pay_offer (qs ! k))"
  shows "receipted a xs = paid a qs xs"
  using assms
proof (induction xs qs rule: list_induct2)
  case (Cons x xs q qs)
  have "receipted a xs = paid a qs xs" using Cons.prems [of "Suc _"] by (intro Cons.IH) auto
  moreover have "receipt_units a x = (if isl x \<or> a \<noteq> offer_asset (pay_offer q) then 0 else BigInt (offer_amount (pay_offer q)))"
  proof (cases x)
    case (Inr y)
    obtain r m where "y = (r, m)" by (rule prod.exhaust)
    with Inr Cons.prems [of 0] for_offer_fields [of r "pay_offer q"] show ?thesis by auto
  qed simp
  ultimately show ?case by (simp add: receipted_def paid_def)
qed (simp add: receipted_def paid_def)

subsection \<open>Property\<close>

text \<open>C8. The books agree with the receipts. In a session of a client with a policy engine, whose payments are settled by
  gates and whose receipts are checked with the receipt schema, the amounts on the receipts it returned sum up, per
  asset, to exactly what the engine has booked, which is within the total budget; and every receipt verifies, is for
  the offer of the request that returned it, and passes the reconciler.\<close>

theorem receipts_account_for_the_books:
  fixes w :: "'h engine_world"
  assumes "served settler" and "booked_total a w = 0"
    and "pay_all (engine_client pol tick settler router (Some v)) (map on_rest hs) requests w = (results, w')"
    and "\<And>r x. verifier_schema v r = Inr x \<Longrightarrow> signed_issues zmsg is_datetime r = []"
  shows "receipted a results = booked_total a w' \<and> fits (Option.bind (budgets pol) cfg_total) (receipted a results) \<and>
    (\<forall>k r m. k < length requests \<and> results ! k = Inr (r, m) \<longrightarrow>
       for_offer r (pay_offer (requests ! k)) \<and> verifyReceipt (verifier_schema v) r (verifier_verify v) = Inr Valid \<and>
       (\<exists>i. reconcileCharge zmsg is_datetime None r = Reconciled i))"
proof -
  let ?c = "engine_client pol tick settler router (Some v)"
  have each: "for_offer r (pay_offer (requests ! k)) \<and> verifyReceipt (verifier_schema v) r (verifier_verify v) = Inr Valid \<and>
      (\<exists>i. reconcileCharge zmsg is_datetime None r = Reconciled i)"
    if k: "k < length requests" "results ! k = Inr (r, m)" for k r m
  proof -
    from pay_all_each [OF assms(3) k(1)] k(2) obtain u u' where p: "pay ?c (map on_rest hs) (requests ! k) u = (Inr (r, m), u')" by auto
    have "verifyReceipt (verifier_schema v) r (verifier_verify v) = Inr Valid"
      using checked_receipt [OF pay_receipt(2) [OF p]] by (simp add: engine_client_def)
    moreover from valid_parses [OF this] assms(4) have "signed_issues zmsg is_datetime r = []" by blast
    ultimately show ?thesis
      using engine_client_receipt [OF assms(1) p] by (simp add: reconcileCharge_def buildResult_ok Let_def)
  qed
  have sum: "receipted a results = paid a requests results"
    using receipted_paid [OF pay_all_length [OF assms(3)]] each by blast
  have "fits (Option.bind (budgets pol) cfg_total) (booked_total a w)" by (simp add: assms(2) fits_def)
  from engine_client_session [OF this, where tick = tick and settler = settler and router = router and verifier = "Some v"
      and hs = hs and requests = requests, unfolded assms(3) prod.case]
  have booked: "booked_total a w' = receipted a results" "fits (Option.bind (budgets pol) cfg_total) (booked_total a w')"
    unfolding sum using assms(2) by (simp, blast)
  show ?thesis using booked(2) each unfolding booked(1) by blast
qed

subsection \<open>A session with one gate\<close>

definition gate_settler :: "(mem_cache \<times> unit) settler" where
  "gate_settler q w =
     (if settle_offer q = x402_offer
      then case gate (sample_ctx (createInMemorySettlementCache 30000)) Map.empty (sample_deps createMockFacilitator)
             sample_config sample_request w of
          (Inr (Gate_settled hs r replayed ce), w') \<Rightarrow> (Inr r, w')
        | (_, w') \<Rightarrow> (Inl (Thrown_string ''not settled''), w')
      else (Inl (Thrown_string ''no such offer''), w))"

lemma gate_settler_served: "served gate_settler"
  unfolding served_def
proof (intro allI impI)
  fix q and w w' :: "mem_cache \<times> unit" and r assume s: "gate_settler q w = (Inr r, w')"
  then have "settle_offer q = x402_offer" by (auto simp: gate_settler_def split: if_splits)
  moreover from s this obtain hs replayed ce where "gate (sample_ctx (createInMemorySettlementCache 30000)) Map.empty
      (sample_deps createMockFacilitator) sample_config sample_request w = (Inr (Gate_settled hs r replayed ce), w')"
    by (auto simp: gate_settler_def split: prod.splits sum.splits gate_outcome.splits)
  ultimately show "\<exists>ctx inFlight deps config request v hs replayed ce v'.
      gate ctx inFlight deps config request v = (Inr (Gate_settled hs r replayed ce), v' :: mem_cache \<times> unit) \<and>
      offer_of_config config request = settle_offer q"
    using sample_offer_of_config by metis
qed

definition schema_verifier :: verifier where
  "schema_verifier = \<lparr>verifier_schema = (\<lambda>r. let issues = signed_issues (\<lambda>_. ''invalid'') (\<lambda>_. True) r in if issues = [] then Inr r else Inl issues),
     verifier_verify = (\<lambda>_ _ _ _. Inr True)\<rparr>"

definition gate_world :: "(mem_cache \<times> unit) engine_world" where
  "gate_world = ((fresh_engine, 0), sample_world)"

definition gate_payment :: pay_request where
  "gate_payment = \<lparr>pay_resource = ''/a'', pay_offer = x402_offer, pay_model = None\<rparr>"

lemma gate_payment_returns:
  "\<exists>r w'. pay (engine_client budget_100 (\<lambda>_. 0) gate_settler None (Some schema_verifier)) (map on_rest []) gate_payment gate_world =
     (Inr (r, X402), w')"
proof -
  let ?c = "engine_client budget_100 (\<lambda>_. 0) gate_settler None (Some schema_verifier)"
  obtain r w1 where g: "settleWithHandler (sample_ctx (createInMemorySettlementCache 30000)) Map.empty createMockFacilitator
      (X402Payment ''sig'') x402_offer X402 sample_world = (Inr (settled_with r False None), w1)"
    and issued: "\<exists>payer tx. issue_receipt (sample_ctx (createInMemorySettlementCache 30000)) x402_offer X402 payer tx sample_world = Inr r"
    by (rule sample_settles)
  from issued obtain payer tx where "issue_receipt (sample_ctx (createInMemorySettlementCache 30000)) x402_offer X402 payer tx sample_world = Inr r"
    by blast
  then obtain b where "signReceipt (\<lambda>_. []) (\<lambda>_. True) b sample_signer = Inr r"
    by (auto simp: issue_receipt_def sample_ctx_def split: sum.splits)
  then obtain m g where s: "well_formed (\<lambda>_. True) b" "receipt r = b" "sig_keyId (signature r) = ''k1''" "sig_algorithm (signature r) = ED25519"
      "canonicalBytes (body_json b) = Inr m" "sig_value (signature r) = bytesToBase64Url g" "g = [1, 2, 3]"
    by (rule sign_signed) (auto simp: sample_signer_def)
  then have "signed_issues (\<lambda>_. ''invalid'') (\<lambda>_. True) r = []" by (simp add: signed_issues_Nil ED25519_def)
  with s have checked: "verifyReceipt (verifier_schema schema_verifier) r (verifier_verify schema_verifier) = Inr Valid"
    by (simp add: schema_verifier_def verifyReceipt_def base64Url_roundtrip)
  have settled: "gate_settler \<lparr>settle_resource = ''/a'', settle_offer = x402_offer, settle_model = X402\<rparr> sample_world = (Inr r, w1)"
    by (simp add: gate_settler_def sample_gate g settled_with_def)
  let ?i = "pay_intent gate_payment X402"
  have "case check budget_100 0 0 0 ?i fresh_engine of (d, st) \<Rightarrow> d = Inr Allowed \<and> fst (record_payment 0 0 0 ?i st) = Inr ()" by code_simp
  then obtain st where st: "check budget_100 0 0 0 ?i fresh_engine = (Inr Allowed, st)" "fst (record_payment 0 0 0 ?i st) = Inr ()" by auto
  then obtain st' where st': "record_payment 0 0 0 ?i st = (Inr (), st')" by (metis prod.collapse)
  have fields: "opt_router ?c = None" "pay_resource gate_payment = ''/a''" "pay_offer gate_payment = x402_offer" "pay_model gate_payment = None"
    by (simp_all add: engine_client_def gate_payment_def)
  have asked: "ask_policy ?c [] gate_payment ?i gate_world = (Inr (), ((st, 3), sample_world))"
    by (simp add: ask_policy_def engine_client_def engine_policy_def gate_world_def st(1) rejects_def)
  have answered: "opt_settler ?c \<lparr>settle_resource = ''/a'', settle_offer = x402_offer, settle_model = X402\<rparr> ((st, 3), sample_world) =
      (Inr r, ((st, 3), w1))"
    by (simp add: engine_client_def on_rest_def settled)
  have recorded: "record_intent ?c ?i ((st, 3), w1) = (Inr (), ((st', 6), w1))"
    by (cases w1) (simp add: record_intent_def engine_client_def engine_policy_def st' rejects_def)
  have "check_receipt ?c r = Inr ()" by (simp add: check_receipt_def engine_client_def checked rejects_def)
  then show ?thesis
    by (intro exI [of _ r] exI [of _ "((st', 6), w1)"]) (simp add: pay_def try_pay_def decideModel_def fields asked answered recorded)
qed

theorem receipts_account_for_the_books_witness:
  "\<exists>r w'. pay_all (engine_client budget_100 (\<lambda>_. 0) gate_settler None (Some schema_verifier)) (map on_rest []) [gate_payment] gate_world =
     ([Inr (r, X402)], w') \<and> receipted ''USDC'' [Inr (r, X402)] = booked_total ''USDC'' w' \<and>
     (\<exists>i. reconcileCharge (\<lambda>_. ''invalid'') (\<lambda>_. True) None r = Reconciled i)"
proof -
  obtain r w' where p: "pay_all (engine_client budget_100 (\<lambda>_. 0) gate_settler None (Some schema_verifier)) (map on_rest []) [gate_payment] gate_world =
      ([Inr (r, X402)], w')"
    using gate_payment_returns by auto
  have z: "booked_total ''USDC'' gate_world = 0" by (simp add: booked_total_def gate_world_def fresh_engine_def get_or_def)
  have "signed_issues (\<lambda>_. ''invalid'') (\<lambda>_. True) x = []" if "verifier_schema schema_verifier x = Inr y" for x y
    using that by (auto simp: schema_verifier_def Let_def split: if_splits)
  from receipts_account_for_the_books [OF gate_settler_served z p this] show ?thesis using p by force
qed

end
