(* ===== verification/Landing.thy ===== *)
theory Landing
  imports Markup Domain
begin

text \<open>
  The web site's landing page, \<open>apps/web/src/app/(home)/page.tsx\<close>, with its header, footer, payment flow and feature
  grid (\<open>apps/web/src/components\<close>), as HTML trees in the way of \<open>Markup\<close>: attributes of style, and the paths of
  drawings that are not data, are left out. The documentation pages are rendered by a library from text and are not
  modelled.
\<close>

subsection \<open>Header and footer\<close>

definition LogoMark :: html where
  "LogoMark = Tag ''svg'' [(''aria-hidden'', ''true''), (''focusable'', ''false'')] []"

definition Wordmark :: html where
  "Wordmark = Tag ''span'' [] [LogoMark, Tag ''span'' [] [Text ''Tollway'']]"

definition SiteThemeToggle :: "bool \<Rightarrow> string option \<Rightarrow> html" where
  "SiteThemeToggle mounted resolved =
     Tag ''button'' [(''type'', ''button''), (''aria-label'', ''Toggle color theme''),
         (''aria-pressed'', if is_dark mounted resolved then ''true'' else ''false'')]
       [drawing, drawing]"

definition home_link :: html where
  "home_link = Tag ''a'' [(''href'', ''/''), (''aria-label'', ''Tollway home'')] [LogoMark, Tag ''span'' [] [Text ''Tollway'']]"

definition docs_link :: "html list \<Rightarrow> html" where
  "docs_link content = Tag ''a'' [(''href'', ''/docs'')] content"

definition github_link :: "html list \<Rightarrow> html" where
  "github_link content = Tag ''a'' [(''href'', ''https://github.com/vegaforge/tollway'')] content"

definition SiteHeader :: "bool \<Rightarrow> string option \<Rightarrow> html" where
  "SiteHeader mounted resolved = Tag ''header'' []
     [Tag ''div'' []
        [home_link,
         Tag ''nav'' [(''aria-label'', ''Primary'')]
           [docs_link [Text ''Docs''], github_link [Text ''GitHub''], SiteThemeToggle mounted resolved]]]"

text \<open>The centre dot is character \<open>B7\<close>.\<close>

definition SiteFooter :: html where
  "SiteFooter = Tag ''footer'' []
     [Tag ''div'' []
        [Tag ''div'' [] [home_link, Tag ''span'' [] [Text (''Apache-2.0 '' @ [CHR 0xB7] @ '' vegaforge'')]],
         Tag ''nav'' [(''aria-label'', ''Footer'')] [docs_link [Text ''Docs''], github_link [Text ''GitHub'']]]]"

subsection \<open>Features\<close>

record feature =
  ft_n :: string
  ft_title :: string
  ft_body :: string
  ft_icon :: html

definition feature_icon :: "string \<Rightarrow> html" where
  "feature_icon d = Tag ''svg'' [(''aria-hidden'', ''true'')] [Tag ''path'' [(''d'', d)] []]"

definition features :: "feature list" where
  "features =
     [\<lparr>ft_n = ''01'', ft_title = ''Model routing'',
       ft_body = ''Tollway reads each counterparty's traffic shape and picks x402 per request, MPP charge, or an MPP channel. Override any choice when you already know the answer.'',
       ft_icon = feature_icon ''M4 7h10M4 12h16M4 17h7''\<rparr>,
      \<lparr>ft_n = ''02'', ft_title = ''Channel lifecycle'',
       ft_body = ''Open channels, track cumulative commitments off chain, and close on the right trigger. When a counterparty goes quiet, Tollway recovers the channel instead of stranding funds.'',
       ft_icon = feature_icon ''M12 3v18M5 8l7-5 7 5M5 16l7 5 7-5''\<rparr>,
      \<lparr>ft_n = ''03'', ft_title = ''Policy and budgets'',
       ft_body = ''Set per-agent and per-service caps, rate limits, and anomaly stops. Tollway maps them onto smart accounts where available and enforces them in the application layer everywhere else.'',
       ft_icon = feature_icon ''M12 3l8 4v5c0 4.5-3.2 7.8-8 9-4.8-1.2-8-4.5-8-9V7z''\<rparr>,
      \<lparr>ft_n = ''04'', ft_title = ''One canonical receipt'',
       ft_body = ''Every settlement, on any model, becomes one signed receipt for accounting, dispute evidence, and analytics. You stop normalizing three formats by hand.'',
       ft_icon = feature_icon ''M6 3h9l3 3v15l-3-2-3 2-3-2-3 2V3zM9 8h6M9 12h6''\<rparr>,
      \<lparr>ft_n = ''05'', ft_title = ''Reconciliation'',
       ft_body = ''Off-chain commitments are checked against on-chain settlement after every close. When the two drift, Tollway flags the difference with the records behind it.'',
       ft_icon = feature_icon ''M4 12a8 8 0 0 1 13-6m3 0v5h-5M20 12a8 8 0 0 1-13 6m-3 0v-5h5''\<rparr>,
      \<lparr>ft_n = ''06'', ft_title = ''Observability'',
       ft_body = ''Track spend, latency, and failure rates per agent, per service, and per model. Export the data or push it to a webhook.'',
       ft_icon = feature_icon ''M4 19V5M4 19h16M8 16l4-5 3 3 5-7''\<rparr>]"

definition feature_article :: "feature \<Rightarrow> html" where
  "feature_article f = Tag ''article'' []
     [Tag ''div'' [] [Tag ''span'' [] [Text (ft_n f)], Tag ''span'' [] [ft_icon f]],
      Tag ''h3'' [] [Text (ft_title f)], Tag ''p'' [] [Text (ft_body f)]]"

definition FeatureGrid :: html where
  "FeatureGrid = Tag ''div'' [] (map feature_article features)"

subsection \<open>The payment flow\<close>

record flow_branch =
  fb_label :: string
  fb_note :: string
  fb_accent :: bool

record flow_step =
  fs_n :: string
  fs_title :: string
  fs_body :: string
  fs_branch :: "flow_branch list option"
  fs_receipt :: bool

definition flow_steps :: "flow_step list" where
  "flow_steps =
     [\<lparr>fs_n = ''01'', fs_title = ''402 challenge'',
       fs_body = ''The service answers a request with a price and asset to pay.'', fs_branch = None, fs_receipt = False\<rparr>,
      \<lparr>fs_n = ''02'', fs_title = ''Sign'',
       fs_body = ''The agent signs a payment commitment within its budget.'', fs_branch = None, fs_receipt = False\<rparr>,
      \<lparr>fs_n = ''03'', fs_title = ''Settle'', fs_body = ''Tollway routes the commitment to one model:'',
       fs_branch = Some
         [\<lparr>fb_label = ''x402'', fb_note = [CHR 0xB7] @ '' one payment per request'', fb_accent = False\<rparr>,
          \<lparr>fb_label = ''MPP charge'', fb_note = [CHR 0xB7] @ '' one payment per request'', fb_accent = False\<rparr>,
          \<lparr>fb_label = ''MPP channel'', fb_note = [CHR 0xB7] @ '' streamed, settled at close'', fb_accent = True\<rparr>],
       fs_receipt = False\<rparr>,
      \<lparr>fs_n = ''04'', fs_title = ''Signed receipt'',
       fs_body = ''Any model produces one canonical record.'', fs_branch = None, fs_receipt = True\<rparr>]"

definition flow_branch_item :: "flow_branch \<Rightarrow> html" where
  "flow_branch_item b = Tag ''li'' []
     [Tag ''span'' [] [], Tag ''span'' [] [Text (fb_label b), Text '' '', Tag ''span'' [] [Text (fb_note b)]]]"

definition card_line :: "string \<Rightarrow> string \<Rightarrow> html" where
  "card_line label v = Tag ''div'' [] [Tag ''span'' [] [Text label], Tag ''span'' [] [Text v]]"

definition receipt_card :: html where
  "receipt_card = Tag ''div'' [(''aria-hidden'', ''true'')]
     [card_line ''receipt'' ''rcpt_9f2a4c'',
      Tag ''div'' []
        [card_line ''model'' ''mpp.channel'', card_line ''amount'' ''142.0000 USDC'',
         card_line ''commitments'' ''1,284'', card_line ''status'' ''settled'']]"

text \<open>A step, with the line to the next one unless it is the last.\<close>

definition flow_step_item :: "nat \<Rightarrow> flow_step \<Rightarrow> html" where
  "flow_step_item i s = Tag ''li'' []
     ((if i < length flow_steps - 1 then [Tag ''span'' [(''aria-hidden'', ''true'')] []] else []) @
      [Tag ''span'' [] [Text (fs_n s)],
       Tag ''div'' []
         ([Tag ''span'' [] [Text (fs_title s)], Tag ''span'' [] [Text (fs_body s)]] @
          (case fs_branch s of Some bs \<Rightarrow> [Tag ''ul'' [] (map flow_branch_item bs)] | None \<Rightarrow> []) @
          (if fs_receipt s then [receipt_card] else []))])"

definition FlowDiagram :: html where
  "FlowDiagram = Tag ''figure'' [(''aria-label'', ''Payment flow from 402 challenge to signed receipt'')]
     [Tag ''div'' []
        [Tag ''span'' [(''aria-hidden'', ''true'')] [Tag ''i'' [] [], Tag ''i'' [] [], Tag ''i'' [] []],
         Tag ''span'' [] [Text ''Payment flow'']],
      Tag ''ol'' [] (map (\<lambda>(i, s). flow_step_item i s) (enumerate 0 flow_steps))]"

subsection \<open>The page\<close>

definition SectionLabel :: "string \<Rightarrow> string \<Rightarrow> string option \<Rightarrow> html" where
  "SectionLabel index title lead = Tag ''div'' []
     ([Tag ''span'' [] [Text index], Tag ''h2'' [] [Text title]] @ when_text lead (\<lambda>s. Tag ''p'' [] [Text s]))"

definition notList :: "(string \<times> string) list" where
  "notList =
     [(''Not a facilitator'',
       ''It does not stand between you and the network or move money on your behalf. The primitives still talk to Stellar directly.''),
      (''Not a base SDK'',
       ''x402 and MPP keep their own SDKs. Tollway calls them and adds orchestration on top. It does not replace them.''),
      (''Never custodies funds'',
       ''Agents and services hold their own keys. Tollway reads, routes, and records. It never takes custody of a balance.'')]"

record audience =
  au_tag :: string
  au_title :: string
  au_body :: string

definition audiences :: "audience list" where
  "audiences =
     [\<lparr>au_tag = ''Service operators'', au_title = ''Get paid by agent traffic'',
       au_body = ''Monetize an API, dataset, or inference endpoint for agents, and bill every call with one receipt format regardless of model.''\<rparr>,
      \<lparr>au_tag = ''Agent developers'', au_title = ''Pay many services cleanly'',
       au_body = ''Ship agents that pay across services without writing channel logic, budget enforcement, or per-model accounting yourself.''\<rparr>,
      \<lparr>au_tag = ''Platform integrators'', au_title = ''Embed payments for tenants'',
       au_body = ''Put agent payments inside a platform and give every tenant the same policy controls and observability out of the box.''\<rparr>]"

definition built_on :: html where
  "built_on = Tag ''span'' []
     [Tag ''span'' [(''aria-hidden'', ''true'')] [Tag ''i'' [] [], Tag ''i'' [] []],
      Text (''Built on Stellar '' @ [CHR 0xB7] @ '' x402 and MPP'')]"

definition calls_to_action :: html where
  "calls_to_action = Tag ''div'' []
     [docs_link [Text ''Read the docs'', drawing], github_link [drawing, Text ''View on GitHub'']]"

definition hero_section :: html where
  "hero_section = Tag ''div'' []
     [Tag ''div'' []
        [Tag ''div'' []
           [built_on,
            Tag ''h1'' [] [Text ''The orchestration layer for '', Tag ''span'' [] [Text ''agent payments''], Text '' '', Text ''on Stellar.''],
            Tag ''p'' [] [Text (''Stellar ships two agent payment primitives: x402 settles one payment per request, '' @
              ''and MPP adds a channel mode where an agent deposits once and streams thousands of '' @
              ''signed commitments, settled in a single transaction at close. Tollway composes '' @
              ''both. It picks the model per counterparty, runs channel lifecycles, enforces '' @
              ''budgets, and turns every settlement into one signed receipt. It orchestrates the '' @
              ''payments and never holds the funds.'')],
            calls_to_action,
            Tag ''span'' [] [Text ''Composes'', Tag ''code'' [] [Text ''@x402/stellar''], Text ''and'', Tag ''code'' [] [Text ''@stellar/mpp'']]],
         Tag ''div'' [] [FlowDiagram]]]"

definition labelled_section :: "string \<Rightarrow> html list \<Rightarrow> html" where
  "labelled_section label content = Tag ''section'' [(''aria-labelledby'', label)] [Tag ''div'' [] content]"

definition capabilities_section :: html where
  "capabilities_section = labelled_section ''cap-h''
     [SectionLabel ''/ capabilities'' ''Six jobs, one layer''
        (Some ''Everything Tollway does sits above the payment primitives and leaves them untouched.''),
      FeatureGrid]"

definition scope_section :: html where
  "scope_section = labelled_section ''isnot-h''
     [SectionLabel ''/ scope'' ''What Tollway is not''
        (Some ''A thin layer with a narrow job. It sits above @x402/stellar and @stellar/mpp and composes them.''),
      Tag ''div'' [] (map (\<lambda>(title, body). Tag ''div'' [] [Tag ''span'' [] [drawing, Text title], Tag ''p'' [] [Text body]]) notList)]"

definition audience_section :: html where
  "audience_section = labelled_section ''aud-h''
     [SectionLabel ''/ who it is for'' ''Built for both sides of the meter'' None,
      Tag ''div'' [] (map (\<lambda>a. Tag ''div'' []
        [Tag ''span'' [] [Text (au_tag a)], Tag ''h3'' [] [Text (au_title a)], Tag ''p'' [] [Text (au_body a)]]) audiences)]"

definition closing_section :: html where
  "closing_section = labelled_section ''cta-h''
     [Tag ''div'' []
        [built_on,
         Tag ''h2'' [(''id'', ''cta-h'')] [Text ''Put one layer over your agent payments.''],
         Tag ''p'' [] [Text (''Read how Tollway routes, settles, and reconciles, then wire it above your existing '' @
           ''x402 and MPP setup. It is open source and never touches your funds.'')],
         calls_to_action,
         Tag ''span'' [] [Text ''Pre-release. Interfaces will change before a tagged release.'']]]"

definition LandingPage :: "bool \<Rightarrow> string option \<Rightarrow> html list" where
  "LandingPage mounted resolved =
     [SiteHeader mounted resolved,
      Tag ''div'' [(''id'', ''top'')]
        [Tag ''main'' [] [hero_section, capabilities_section, scope_section, audience_section, closing_section]],
      SiteFooter]"

text \<open>The document around every page, \<open>apps/web/src/app/layout.tsx\<close>; \<open>provider\<close> is the library's root provider.\<close>

definition SiteLayout :: "(html list \<Rightarrow> html list) \<Rightarrow> html list \<Rightarrow> html" where
  "SiteLayout provider content =
     Tag ''html'' [(''lang'', ''en''), (''data-scroll-behavior'', ''smooth'')] [Tag ''body'' [] (provider content)]"

subsection \<open>What the page refers to\<close>

definition attr_values :: "string \<Rightarrow> html list \<Rightarrow> string list" where
  "attr_values a hs = concat (map (\<lambda>e. case attr a e of Some v \<Rightarrow> [v] | None \<Rightarrow> []) (page_elements hs))"

lemma attr_values_simps [simp]:
  "attr_values a [] = []"
  "attr_values a (Text s # hs) = attr_values a hs"
  "attr_values a (Tag n as cs # hs) = (case map_of as a of Some v \<Rightarrow> [v] | None \<Rightarrow> []) @ attr_values a cs @ attr_values a hs"
  "attr_values a (hs @ hs') = attr_values a hs @ attr_values a hs'"
  by (simp_all add: attr_values_def)

definition count_tags :: "string \<Rightarrow> html list \<Rightarrow> nat" where
  "count_tags t hs = length (filter (\<lambda>e. tag_name e = t) (page_elements hs))"

lemma count_tags_simps [simp]:
  "count_tags t [] = 0"
  "count_tags t (Text s # hs) = count_tags t hs"
  "count_tags t (Tag n as cs # hs) = (if n = t then 1 else 0) + count_tags t cs + count_tags t hs"
  "count_tags t (hs @ hs') = count_tags t hs + count_tags t hs'"
  by (simp_all add: count_tags_def)

lemmas site_defs = LogoMark_def SiteThemeToggle_def drawing_def home_link_def docs_link_def github_link_def SiteHeader_def SiteFooter_def
lemmas landing_defs = site_defs feature_icon_def features_def feature_article_def FeatureGrid_def flow_steps_def flow_branch_item_def
  card_line_def receipt_card_def flow_step_item_def FlowDiagram_def SectionLabel_def notList_def audiences_def built_on_def
  calls_to_action_def hero_section_def labelled_section_def capabilities_section_def scope_section_def audience_section_def
  closing_section_def LandingPage_def

lemma landing_labels: "attr_values ''aria-labelledby'' (LandingPage mounted resolved) = [''cap-h'', ''isnot-h'', ''aud-h'', ''cta-h'']"
  by (simp add: landing_defs)

lemma landing_ids: "attr_values ''id'' (LandingPage mounted resolved) = [''top'', ''cta-h'']"
  by (simp add: landing_defs)

lemma landing_hrefs: "attr_values ''href'' (LandingPage mounted resolved) =
    (let docs = ''/docs''; code = ''https://github.com/vegaforge/tollway''
     in [''/'', docs, code, docs, code, docs, code, ''/'', docs, code])"
  by (simp add: landing_defs Let_def)

lemma set_three: "set [a, b, c, b, c, b, c, a, b, c] = {a, b, c}"
  by auto

lemma landing_links: "set (attr_values ''href'' (LandingPage mounted resolved)) =
    {''/'', ''/docs'', ''https://github.com/vegaforge/tollway''}"
  unfolding landing_hrefs Let_def by (rule set_three)

text \<open>The landing page leads to itself, the documentation and the repository, and nowhere else. Of its four sections only
  the last has a name: each is labelled by the identifier of its heading, but the headings of the first three have
  no identifier.\<close>

theorem only_closing_section_is_named:
  "set (attr_values ''href'' (LandingPage mounted resolved)) = {''/'', ''/docs'', ''https://github.com/vegaforge/tollway''} \<and>
   count_tags ''section'' (LandingPage mounted resolved) = 4 \<and>
   filter (\<lambda>i. i \<in> set (attr_values ''id'' (LandingPage mounted resolved)))
     (attr_values ''aria-labelledby'' (LandingPage mounted resolved)) = [''cta-h'']"
proof (intro conjI)
  show "count_tags ''section'' (LandingPage mounted resolved) = 4"
    by (simp add: landing_defs)
  show "filter (\<lambda>i. i \<in> set (attr_values ''id'' (LandingPage mounted resolved)))
      (attr_values ''aria-labelledby'' (LandingPage mounted resolved)) = [''cta-h'']"
    unfolding landing_labels landing_ids by simp
qed (rule landing_links)

text \<open>The payment flow shows a branch for every model the system settles with, and the last step is the receipt.\<close>

fun model_title :: "settlement_model \<Rightarrow> string" where
  "model_title X402 = ''x402''"
| "model_title Mpp_charge = ''MPP charge''"
| "model_title Mpp_channel = ''MPP channel''"

theorem flow_covers_every_model:
  "\<exists>s\<in>set flow_steps. \<exists>bs. fs_branch s = Some bs \<and> distinct bs \<and> set (map fb_label bs) = range model_title \<and> last flow_steps \<noteq> s \<and>
     fs_receipt (last flow_steps)"
proof -
  have models: "UNIV = {X402, Mpp_charge, Mpp_channel}" using settlement_model.exhaust by auto
  have "range model_title = {''x402'', ''MPP charge'', ''MPP channel''}" unfolding models by simp
  then show ?thesis by (simp add: flow_steps_def)
qed

end
