(* ===== verification/Subscriptions.thy ===== *)
theory Subscriptions
  imports PageProofs
begin

text \<open>
  The three subscriptions of the dashboard, \<open>useAgentSpend\<close>, \<open>useOpenChannels\<close> and \<open>useReceipts\<close> of
  \<open>apps/dashboard/src/data\<close>: each is the effect of \<open>Views\<close> over one source, with no dependencies that change. The
  sources of the agents and the channels are the rows in the code; they never reject, so neither page can show its alert.
\<close>

subsection \<open>The sources\<close>

definition fetchAgentSpend :: "agent_row list result" where
  "fetchAgentSpend = Inr STUB_AGENTS"

definition fetchOpenChannels :: "channel_row list result" where
  "fetchOpenChannels = Inr STUB_CHANNELS"

subsection \<open>The hooks\<close>

text \<open>The steps of a component that calls the hook: it is rendered, its effect runs, it is removed, and a promise of
  it settles.\<close>

definition useAgentSpend :: "(unit, agent_row list) effect_view \<Rightarrow> (unit, agent_row list) effect_view \<Rightarrow> bool" where
  "useAgentSpend = view_step (\<lambda>_. fetchAgentSpend)"

definition useOpenChannels :: "(unit, channel_row list) effect_view \<Rightarrow> (unit, channel_row list) effect_view \<Rightarrow> bool" where
  "useOpenChannels = view_step (\<lambda>_. fetchOpenChannels)"

text \<open>The keys travel with the rows: the snapshot is the state. What a fetch returns depends on what it builds and on
  what is cached when it begins; fetches that overlap before the cache is filled build archives of their own, so
  every promise settles with one of the pairs in \<open>fetches\<close>.\<close>

definition useReceipts ::
  "(receipts_snapshot result \<times> receipts_snapshot option) set \<Rightarrow>
     (unit, receipts_snapshot) effect_view \<Rightarrow> (unit, receipts_snapshot) effect_view \<Rightarrow> bool" where
  "useReceipts fetches v w \<longleftrightarrow> (\<exists>(built, cached)\<in>fetches. view_step (\<lambda>_. fst (fetchReceipts built cached)) v w)"

lemma settle_run_state:
  "ev_state (settle_run outcome i v) = ev_state v \<or> ev_state (settle_run outcome i v) = remote_of (outcome (run_on (ev_runs v ! i)))"
  by (simp add: settle_run_def Let_def)

lemma step_state:
  assumes "view_step outcome v w"
  shows "ev_state w = ev_state v \<or> ev_state w = Loading \<or> (\<exists>d. ev_state w = remote_of (outcome d))"
  using assms
proof (cases rule: view_step.cases)
  case (Settle i)
  then show ?thesis using settle_run_state [of outcome i v] by blast
qed (auto simp: show_view_def run_effect_def hide_view_def split: option.splits bool.splits if_splits)

lemma subscribed_state:
  assumes "(view_step (\<lambda>_. outcome))\<^sup>*\<^sup>* empty_view v"
  shows "ev_state v = Loading \<or> ev_state v = remote_of outcome"
  using assms
proof (induction rule: rtranclp_induct)
  case base
  then show ?case by (simp add: empty_view_def)
next
  case (step v w)
  then show ?case using step_state [of _ v w] by metis
qed

lemma receipts_state:
  assumes "(useReceipts fetches)\<^sup>*\<^sup>* empty_view v"
  shows "ev_state v = Loading \<or> (\<exists>(built, cached)\<in>fetches. ev_state v = remote_of (fst (fetchReceipts built cached)))"
  using assms
proof (induction rule: rtranclp_induct)
  case base
  then show ?case by (simp add: empty_view_def)
next
  case (step v w)
  from step(2) obtain built cached where f: "(built, cached) \<in> fetches"
    "view_step (\<lambda>_. fst (fetchReceipts built cached)) v w" by (auto simp: useReceipts_def)
  show ?case using step_state [OF f(2)] step(3) f(1) by auto
qed

subsection \<open>The pages\<close>

text \<open>However often a page is opened and left while its rows load, it renders, without an alert.\<close>

lemma agents_page_renders:
  assumes "useAgentSpend\<^sup>*\<^sup>* empty_view v"
  shows "\<exists>page. AgentsView g (ev_state v) direction = Some page \<and> alerts page = []"
proof -
  have a: "list_all agent_amounts STUB_AGENTS" by (simp add: STUB_AGENTS_def agent_amounts_def AMOUNT_RE_def is_digit_def)
  have "\<exists>texts. map_option shown (AgentsView g (ev_state v) direction) = Some ([], texts)"
    using subscribed_state [OF assms [unfolded useAgentSpend_def]] agents_view_shows [OF a, of g direction]
    by (metis fetchAgentSpend_def remote_of.simps(2) agents_view_waits(1))
  then show ?thesis by (auto simp: shown_def)
qed

lemma channels_page_renders:
  assumes "useOpenChannels\<^sup>*\<^sup>* empty_view v"
  shows "\<exists>page. ChannelsView show_number (ev_state v) threshold = Some page \<and> alerts page = []"
proof -
  have a: "list_all channel_amounts STUB_CHANNELS"
    by (simp add: STUB_CHANNELS_def channel_amounts_def AMOUNT_RE_def is_digit_def)
  have "\<exists>texts. map_option shown (ChannelsView show_number (ev_state v) threshold) = Some ([], texts)"
    using subscribed_state [OF assms [unfolded useOpenChannels_def]] channels_view_shows [OF a, of show_number threshold]
    by (metis fetchOpenChannels_def remote_of.simps(2) channels_view_waits(1))
  then show ?thesis by (auto simp: shown_def)
qed

text \<open>The receipts show an alert only when an archive could not be built, and once it is cached every later
  subscription is to the same snapshot, whatever else was built.\<close>

lemma receipts_fail_with_the_archive:
  assumes "(useReceipts fetches)\<^sup>*\<^sup>* empty_view v" and "ev_state v = Failed e"
  shows "(Inl e, None) \<in> fetches"
  using receipts_state [OF assms(1)] assms(2) by (auto simp: fetchReceipts_def split: option.splits sum.splits)

lemma cached_receipts_are_shown:
  assumes "(useReceipts fetches)\<^sup>*\<^sup>* empty_view v" and "snd ` fetches \<subseteq> {Some snapshot}"
  shows "ev_state v = Loading \<or> ev_state v = Ready snapshot"
  using receipts_state [OF assms(1)] assms(2) by (force simp: fetchReceipts_def)

end
