(* ===== verification/Leases.thy ===== *)
theory Leases
  imports LockingProofs
begin

text \<open>
  How long the lock of the Redis cache excludes other processes, whatever the timing. In \<open>Locking\<close> time passes without a
  lock that expires under its holder; here it passes freely. \<open>leasing_cache\<close> extends the contract of a cache with locks by
  the time at which each lock expires: an attempt that has taken a lock nobody else believes to hold is alone with its
  payment for the lifetime of the lock.
\<close>

lemma co_key_pc [simp]: "co_key (e\<lparr>co_pc := pc\<rparr>) = co_key e"
  by (simp add: co_key_def)

subsection \<open>A cache whose locks expire\<close>

text \<open>\<open>lease\<close> is the time at which the lock under a key expires.\<close>

locale leasing_cache = locking_cache C now ttl stored locked valid storable acquire release
  for C :: "'w settlement_cache" and now ttl stored locked valid storable acquire release +
  fixes lease :: "string \<Rightarrow> 'w \<Rightarrow> int option"
  assumes lease_get: "valid k \<Longrightarrow> cache_get C k w = (x, w') \<Longrightarrow> valid j \<Longrightarrow> lease j w' = lease j w"
    and lease_set: "valid k \<Longrightarrow> storable r \<Longrightarrow> cache_set C k r w = (y, w') \<Longrightarrow> valid j \<Longrightarrow> lease j w' = lease j w"
    and lease_acquire: "valid k \<Longrightarrow> 0 < t \<Longrightarrow> acquire k t w = (b, w') \<Longrightarrow> valid j \<Longrightarrow>
      lease j w' = (if j = k \<and> lease k w = None then Some (now w + t) else lease j w)"
    and lease_release: "valid k \<Longrightarrow> release k w = (y, w') \<Longrightarrow> valid j \<Longrightarrow> lease j w' = (if j = k then None else lease j w)"
    and locked_lease: "valid k \<Longrightarrow> locked k w \<longleftrightarrow> lease k w \<noteq> None"
begin

definition careful :: "'w settlement_context \<Rightarrow> 'w attempt \<Rightarrow> bool" where
  "careful ctx a \<longleftrightarrow> fair ctx a \<and>
     (\<forall>w x w'. h_settle (at_handler a) (at_payment a) (at_offer a) (at_payer a) (at_nonce a) w = (x, w') \<longrightarrow>
        (\<forall>j. valid j \<longrightarrow> lease j w' = lease j w))"

text \<open>Time passes, and locks expire under whoever holds them.\<close>

definition lapses :: "'w race \<Rightarrow> 'w \<Rightarrow> bool" where
  "lapses s w' \<longleftrightarrow> now (ra_world s) \<le> now w' \<and>
     (\<forall>j d. valid j \<longrightarrow> lease j (ra_world s) = Some d \<longrightarrow> now w' < d \<longrightarrow> lease j w' = Some d)"

text \<open>What a segment may do to leases.\<close>

definition lease_moves :: "string \<Rightarrow> attempt_pc \<Rightarrow> 'w \<Rightarrow> attempt_pc \<Rightarrow> 'w \<Rightarrow> bool" where
  "lease_moves k pc w pc' w' \<longleftrightarrow> now w' = now w \<and>
     (\<forall>j. valid j \<and> j \<noteq> k \<longrightarrow> lease j w' = lease j w) \<and>
     (holding pc' \<longrightarrow> (if holding pc then lease k w' = lease k w
        else (\<exists>x. pc = At_get x) \<and> lease k w = None \<and> lease k w' = Some (now w + SETTLEMENT_LOCK_TTL_MS))) \<and>
     (\<not> holding pc \<and> lease k w \<noteq> None \<longrightarrow> lease k w' = lease k w) \<and> (\<forall>x. pc' \<noteq> At_called \<and> (pc' = At_get x \<longrightarrow> pc = At_called))"

lemma lock_time: "0 < SETTLEMENT_LOCK_TTL_MS"
  by (simp add: SETTLEMENT_LOCK_TTL_MS_def)

lemma conclude_leases:
  assumes "careful ctx a" "holding pc" "conclude ctx (at_key a) True res w = (pc', w')"
  shows "pc_ok storable ctx a pc' \<and> lease_moves (at_key a) pc w pc' w'"
proof -
  have f: "fair ctx a" and k: "valid (at_key a)" using assms(1) by (simp_all add: careful_def fair_def)
  have rel: "at_release ctx = release"
    by (rule ext, rule ext) (use f locks(2) in \<open>simp add: at_release_def fair_def\<close>)
  obtain x v where x: "release (at_key a) w = (x, v)" by (rule prod.exhaust)
  from releases [OF k x] lease_release [OF k x] k assms(2,3) show ?thesis
    by (auto simp: conclude_def rel x lease_moves_def split: sum.splits)
qed

lemma settle_leases:
  assumes c: "careful ctx a" and s: "call_settle a True w = (pc', w')" and pc: "holding pc"
  shows "pc_ok storable ctx a pc' \<and> lease_moves (at_key a) pc w pc' w'"
proof -
  obtain x v where x: "h_settle (at_handler a) (at_payment a) (at_offer a) (at_payer a) (at_nonce a) w = (x, v)" by (rule prod.exhaust)
  with c s pc show ?thesis by (force simp: careful_def fair_def call_settle_def lease_moves_def)
qed

lemma resume_leases:
  assumes c: "careful ctx a" and s: "attempt_resume ctx a pc w = (pc', w')" and ok: "pc_ok storable ctx a pc"
  shows "pc_ok storable ctx a pc' \<and> lease_moves (at_key a) pc w pc' w'"
proof -
  have f: "fair ctx a" "ctx_cache ctx = Some C" and k: "valid (at_key a)" using c by (simp_all add: careful_def fair_def)
  note defs = s [unfolded attempt_resume_def] f(2) locks
  note conclude = conclude_leases [OF c]
  have stay: "pc_ok storable ctx a (At_done res) \<and> lease_moves (at_key a) q v (At_done res) v" for res q v
    by (simp add: lease_moves_def)
  have look: "lease_moves (at_key a) pc w q v" if "cache_get C (at_key a) w = (x, v)" "holding pc \<longleftrightarrow> holding q"
    "q \<noteq> At_called" "\<And>x. q = At_get x \<Longrightarrow> pc = At_called" for x v q
    using get [OF k that(1)] lease_get [OF k that(1)] k that(2-) by (auto simp: lease_moves_def)
  show ?thesis
  proof (cases pc)
    case At_called
    obtain x v where x: "cache_get C (at_key a) w = (x, v)" by (rule prod.exhaust)
    from look [OF x, of "At_get x"] defs At_called show ?thesis by (auto simp: x)
  next
    case (At_get x)
    show ?thesis
    proof (cases "x = Inr None")
      case True
      obtain b v where b: "acquire (at_key a) SETTLEMENT_LOCK_TTL_MS w = (b, v)" by (rule prod.exhaust)
      from acquires [OF k b] lease_acquire [OF k lock_time b] locked_lease [OF k] k defs At_get True show ?thesis
        by (auto simp: b lease_moves_def)
    next
      case False
      with defs At_get show ?thesis by (cases x) (auto intro!: stay split: option.splits)
    qed
  next
    case (At_acquire x)
    show ?thesis
    proof (cases "x = Inr True")
      case True
      obtain y v where y: "cache_get C (at_key a) w = (y, v)" by (rule prod.exhaust)
      from look [OF y, of "At_recheck y"] defs At_acquire True show ?thesis by (auto simp: y)
    next
      case False
      with defs At_acquire show ?thesis by (cases x) (auto intro!: stay)
    qed
  next
    case (At_recheck x)
    show ?thesis
    proof (cases "x = Inr None")
      case True
      with defs At_recheck settle_leases [OF c, of w pc' w' pc] show ?thesis by auto
    next
      case False
      with defs At_recheck conclude [of pc _ w] show ?thesis by (cases x) (auto split: option.splits)
    qed
  next
    case (At_settle l x)
    with ok have l: "l" by simp
    show ?thesis
    proof (cases "\<exists>tx. x = Inr (Settled tx)")
      case True
      then obtain tx where tx: "x = Inr (Settled tx)" by blast
      with ok At_settle obtain r where "issue_receipt ctx (at_offer a) (at_model a) (at_payer a) tx w = Inr r" "storable r"
        by (auto simp: issues_def)
      with defs At_settle tx l show ?thesis by (auto simp: lease_moves_def)
    next
      case False
      with defs At_settle l conclude [of pc _ w] show ?thesis by (cases x) (auto split: settle_result.splits)
    qed
  next
    case (At_sign l x)
    with ok obtain r where r: "x = Inr r" "storable r" "l" by auto
    obtain y v where y: "cache_set C (at_key a) r w = (y, v)" by (rule prod.exhaust)
    from set [OF k r(2) y] lease_set [OF k r(2) y] k defs At_sign r show ?thesis by (auto simp: y lease_moves_def)
  next
    case (At_set l r x)
    with ok defs conclude [of pc _ w] show ?thesis by auto
  next
    case (At_failed_release e x)
    with defs show ?thesis by (cases x) (auto intro!: stay)
  next
    case (At_release r x)
    with ok defs show ?thesis by (auto simp: release_after_def intro!: stay)
  next
    case (At_done res)
    with defs show ?thesis by (auto intro!: stay)
  qed
qed

subsection \<open>Alone for the lifetime of a lock\<close>

definition orderly :: "'w contender \<Rightarrow> bool" where
  "orderly e \<longleftrightarrow> careful (co_ctx e) (co_attempt e) \<and> pc_ok storable (co_ctx e) (co_attempt e) (co_pc e)"

lemma orderly_segment:
  assumes "orderly e" "attempt_resume (co_ctx e) (co_attempt e) (co_pc e) w = (pc, w')"
  shows "orderly (e\<lparr>co_pc := pc\<rparr>)" "lease_moves (co_key e) (co_pc e) w pc w'" "valid (co_key e)"
  using resume_leases [of "co_ctx e" "co_attempt e" "co_pc e" w pc w'] assms
  by (simp_all add: orderly_def co_key_def careful_def fair_def)

text \<open>Contender \<open>i\<close> is past asking for the lock, and while it holds it and the lease runs, to \<open>d\<close>, no other contender of
  the payment holds one.\<close>

definition leased :: "nat \<Rightarrow> int \<Rightarrow> 'w race \<Rightarrow> bool" where
  "leased i d s \<longleftrightarrow> i < length (ra_contenders s) \<and> (\<forall>e\<in>set (ra_contenders s). orderly e) \<and>
     (\<forall>x. co_pc (ra_contenders s ! i) \<noteq> At_called \<and> co_pc (ra_contenders s ! i) \<noteq> At_get x) \<and>
     (holding (co_pc (ra_contenders s ! i)) \<and> now (ra_world s) < d \<longrightarrow>
        lease (co_key (ra_contenders s ! i)) (ra_world s) = Some d \<and>
        (\<forall>j<length (ra_contenders s). j \<noteq> i \<and> co_key (ra_contenders s ! j) = co_key (ra_contenders s ! i) \<longrightarrow>
           \<not> holding (co_pc (ra_contenders s ! j))))"

lemma advanced:
  assumes "l < length (ra_contenders s)"
  obtains pc w where
    "attempt_resume (co_ctx (ra_contenders s ! l)) (co_attempt (ra_contenders s ! l)) (co_pc (ra_contenders s ! l)) (ra_world s) = (pc, w)"
    "ra_contenders (advance now l s) = (ra_contenders s)[l := (ra_contenders s ! l)\<lparr>co_pc := pc\<rparr>]" "ra_world (advance now l s) = w"
proof -
  obtain pc w where r: "attempt_resume (co_ctx (ra_contenders s ! l)) (co_attempt (ra_contenders s ! l)) (co_pc (ra_contenders s ! l))
      (ra_world s) = (pc, w)" by (rule prod.exhaust)
  then show ?thesis by (intro that) (simp_all add: advance_def Let_def)
qed

lemma orderly_advance:
  assumes "\<forall>e\<in>set (ra_contenders s). orderly e" "l < length (ra_contenders s)"
  shows "\<forall>e\<in>set (ra_contenders (advance now l s)). orderly e"
proof -
  obtain pc w where a: "attempt_resume (co_ctx (ra_contenders s ! l)) (co_attempt (ra_contenders s ! l)) (co_pc (ra_contenders s ! l)) (ra_world s) = (pc, w)"
    "ra_contenders (advance now l s) = (ra_contenders s)[l := (ra_contenders s ! l)\<lparr>co_pc := pc\<rparr>]"
    by (rule advanced [OF assms(2)])
  have "orderly ((ra_contenders s ! l)\<lparr>co_pc := pc\<rparr>)" using assms by (intro orderly_segment(1) [OF _ a(1)]) simp
  with assms(1) show ?thesis unfolding a(2) using set_update_subset_insert by fastforce
qed

lemma orderly_step:
  assumes "race_step now careful lapses s s'" "\<forall>e\<in>set (ra_contenders s). orderly e"
  shows "\<forall>e\<in>set (ra_contenders s'). orderly e"
  using assms(1)
proof cases
  case (Enter ctx a)
  with assms(2) show ?thesis by (auto simp: enter_race_def orderly_def)
qed (use assms(2) orderly_advance in auto)

lemma orderly_reachable: "race_reachable now careful lapses s \<Longrightarrow> \<forall>e\<in>set (ra_contenders s). orderly e"
  unfolding race_reachable_def
proof (elim exE)
  fix w assume "(race_step now careful lapses)\<^sup>*\<^sup>* (new_race w) s"
  then show ?thesis
    by (induction rule: rtranclp_induct) (simp add: new_race_def, rule orderly_step)
qed

lemma leased_advance:
  assumes "leased i d s" "l < length (ra_contenders s)"
  shows "leased i d (advance now l s)"
proof -
  let ?cs = "ra_contenders s"
  obtain pc w where a: "attempt_resume (co_ctx (?cs ! l)) (co_attempt (?cs ! l)) (co_pc (?cs ! l)) (ra_world s) = (pc, w)"
    "ra_contenders (advance now l s) = ?cs[l := (?cs ! l)\<lparr>co_pc := pc\<rparr>]" "ra_world (advance now l s) = w"
    by (rule advanced [OF assms(2)])
  have o: "\<forall>e\<in>set ?cs. orderly e" and i: "i < length ?cs"
    and past: "\<And>x. co_pc (?cs ! i) \<noteq> At_called \<and> co_pc (?cs ! i) \<noteq> At_get x"
    and alone: "holding (co_pc (?cs ! i)) \<Longrightarrow> now (ra_world s) < d \<Longrightarrow> lease (co_key (?cs ! i)) (ra_world s) = Some d \<and>
        (\<forall>j<length ?cs. j \<noteq> i \<and> co_key (?cs ! j) = co_key (?cs ! i) \<longrightarrow> \<not> holding (co_pc (?cs ! j)))"
    using assms(1) by (auto simp: leased_def)
  from o assms(2) have "orderly (?cs ! l)" by simp
  note m = orderly_segment(2,3) [OF this a(1)]
  have "valid (co_key (?cs ! i))" using o i orderly_segment(3) [of "?cs ! i"] by (metis nth_mem prod.exhaust)
  with m i assms(2) past alone orderly_advance [OF o assms(2)] show ?thesis unfolding leased_def a(2,3)
    by (cases "l = i") (auto simp: lease_moves_def nth_list_update split: if_splits)
qed

lemma leased_step:
  assumes "race_step now careful lapses s s'" "leased i d s"
  shows "leased i d s'"
  using assms(1)
proof cases
  case (Enter ctx a)
  with assms(2) show ?thesis
    by (auto simp: leased_def enter_race_def orderly_def nth_append less_Suc_eq)
next
  case (Advance l)
  with leased_advance [OF assms(2)] show ?thesis by simp
next
  case (Elsewhere w)
  have "i < length (ra_contenders s)" "\<forall>e\<in>set (ra_contenders s). orderly e" using assms(2) by (simp_all add: leased_def)
  then have "valid (co_key (ra_contenders s ! i))" by (metis nth_mem orderly_segment(3) prod.exhaust)
  with Elsewhere assms(2) show ?thesis by (auto simp: leased_def lapses_def)
qed

text \<open>From the moment an attempt takes a lock that nobody else of its payment believes to hold: no other contender is
  settling the payment, and one that asks for the lock is told that the settlement is in progress.\<close>

lemma lease_excludes:
  assumes "race_reachable now careful lapses s" and "i < length (ra_contenders s)"
    and "co_pc (ra_contenders s ! i) = At_get x" and "co_pc (ra_contenders (advance now i s) ! i) = At_acquire (Inr True)"
    and "\<forall>j<length (ra_contenders s). j \<noteq> i \<and> co_key (ra_contenders s ! j) = co_key (ra_contenders s ! i) \<longrightarrow>
      \<not> holding (co_pc (ra_contenders s ! j))"
    and "(race_step now careful lapses)\<^sup>*\<^sup>* (advance now i s) s'"
    and "holding (co_pc (ra_contenders s' ! i))" and "now (ra_world s') < now (ra_world s) + SETTLEMENT_LOCK_TTL_MS"
    and "j < length (ra_contenders s')" "j \<noteq> i" "co_key (ra_contenders s' ! j) = co_key (ra_contenders s' ! i)"
  shows "\<not> settling (co_pc (ra_contenders s' ! j)) \<and>
    (co_pc (ra_contenders s' ! j) = At_get (Inr None) \<longrightarrow>
      co_pc (ra_contenders (advance now j (advance now j s')) ! j) = At_done (Inr SETTLEMENT_IN_PROGRESS))"
proof -
  let ?cs = "ra_contenders s" and ?d = "now (ra_world s) + SETTLEMENT_LOCK_TTL_MS"
  note o = orderly_reachable [OF assms(1)]
  obtain pc w where a: "attempt_resume (co_ctx (?cs ! i)) (co_attempt (?cs ! i)) (co_pc (?cs ! i)) (ra_world s) = (pc, w)"
    "ra_contenders (advance now i s) = ?cs[i := (?cs ! i)\<lparr>co_pc := pc\<rparr>]" "ra_world (advance now i s) = w"
    by (rule advanced [OF assms(2)])
  from o assms(2) have "orderly (?cs ! i)" by simp
  note m = orderly_segment(2) [OF this a(1)]
  have pc: "pc = At_acquire (Inr True)" using assms(2,4) by (simp add: a(2))
  have "leased i ?d (advance now i s)"
    using m assms(2,3,5) orderly_advance [OF o assms(2)] unfolding leased_def a(2,3)
    by (auto simp: pc lease_moves_def nth_list_update)
  with assms(6) have l: "leased i ?d s'" by (induction rule: rtranclp_induct) (auto dest: leased_step)
  with assms(7,8,9-11) have h: "lease (co_key (ra_contenders s' ! j)) (ra_world s') = Some ?d" "\<not> holding (co_pc (ra_contenders s' ! j))"
    and e: "orderly (ra_contenders s' ! j)" by (auto simp: leased_def)
  from h(2) e have "\<not> settling (co_pc (ra_contenders s' ! j))"
    by (cases "co_pc (ra_contenders s' ! j)") (auto simp: orderly_def)
  moreover have "co_pc (ra_contenders (advance now j (advance now j s')) ! j) = At_done (Inr SETTLEMENT_IN_PROGRESS)"
    if g: "co_pc (ra_contenders s' ! j) = At_get (Inr None)"
  proof -
    let ?e = "ra_contenders s' ! j"
    have f: "ctx_cache (co_ctx ?e) = Some C" "valid (co_key ?e)" using e by (simp_all add: orderly_def careful_def fair_def co_key_def)
    obtain b v where b: "acquire (co_key ?e) SETTLEMENT_LOCK_TTL_MS (ra_world s') = (b, v)" by (rule prod.exhaust)
    from acquires [OF f(2) b] locked_lease [OF f(2)] h(1) have "b = Inr False" by simp
    with b f(1) g locks assms(9) show ?thesis by (simp add: advance_def attempt_resume_def co_key_def Let_def)
  qed
  ultimately show ?thesis by blast
qed

end

subsection \<open>The Redis cache\<close>

lemma race_steps_mono:
  assumes "(race_step now admitted elsewhere)\<^sup>*\<^sup>* s s'"
    and "\<And>ctx a. admitted ctx a \<Longrightarrow> admitted' ctx a" "\<And>s w. elsewhere s w \<Longrightarrow> elsewhere' s w"
  shows "(race_step now admitted' elsewhere')\<^sup>*\<^sup>* s s'"
  using assms(1)
proof (induction rule: rtranclp_induct)
  case (step s' s'')
  from step.hyps(2) assms(2,3) have "race_step now admitted' elsewhere' s' s''" by cases (auto intro: race_step.intros)
  with step.IH show ?case by (rule rtranclp.rtrancl_into_rtrancl)
qed simp

definition redis_lease :: "'w redis_options \<Rightarrow> ('w \<Rightarrow> (string, string \<times> int) js_map) \<Rightarrow> string \<Rightarrow> 'w \<Rightarrow> int option" where
  "redis_lease opts kept k w = map_option snd (kept w (redis_prefix opts @ ''lock:'' @ k))"

sublocale redis_server \<subseteq> leasing: leasing_cache "createRedisSettlementCache json_parse safeParse opts" now "redis_lifetime opts"
  "redis_receipt json_parse safeParse opts kept" "redis_locked opts kept" payment_key "readable json_parse safeParse"
  "the (cache_acquire (createRedisSettlementCache json_parse safeParse opts))"
  "the (cache_release (createRedisSettlementCache json_parse safeParse opts))" "redis_lease opts kept" for json_parse safeParse
proof (unfold_locales, goal_cases)
  case (1 k w x w' j)
  then obtain raw where "redis_get (redis_client opts) (redis_prefix opts @ k) w = (raw, w')"
    by (auto simp: createRedisSettlementCache_def redis_prefix_def Let_def split: prod.splits sum.splits)
  from gets [OF this] show ?case by (simp add: redis_lease_def)
next
  case (2 k r w y w' j)
  let ?t = "max 1 (ceil_div (or_default (redis_ttlMs opts) DEFAULT_REDIS_TTL_MS) 1000)"
  have "redis_set_ex (redis_client opts) (redis_prefix opts @ k) (json_stringify (signed_json r)) ?t w = (y, w')"
    using 2(3) by (simp add: createRedisSettlementCache_def redis_prefix_def Let_def)
  from sets [OF this] payment_key_lock [OF 2(1)] show ?case by (auto simp: redis_lease_def)
next
  case (3 k t w b w' j)
  obtain z v where z: "redis_set_nx (redis_client opts) (redis_prefix opts @ ''lock:'' @ k) ''1'' (max 1 t) w = (z, v)" by (rule prod.exhaust)
  have "v = w'"
    using 3(3) z unfolding redis_prefix_def by (cases z) (simp_all add: createRedisSettlementCache_def Let_def)
  with sets_nx [OF z] 3(2) show ?case
    by (cases "kept w (redis_prefix opts @ ''lock:'' @ k) = None") (auto simp: redis_lease_def)
next
  case (4 k w y w' j)
  then have "redis_del (redis_client opts) (redis_prefix opts @ ''lock:'' @ k) w = (y, w')"
    by (simp add: createRedisSettlementCache_def redis_prefix_def Let_def)
  from dels [OF this] show ?case by (auto simp: redis_lease_def)
qed (simp add: redis_lease_def redis_locked_def)

context redis_server begin

lemma leases: "leasing_cache (createRedisSettlementCache json_parse safeParse opts) now (redis_lifetime opts)
  (redis_receipt json_parse safeParse opts kept) (redis_locked opts kept) payment_key (readable json_parse safeParse)
  (the (cache_acquire (createRedisSettlementCache json_parse safeParse opts)))
  (the (cache_release (createRedisSettlementCache json_parse safeParse opts))) (redis_lease opts kept)"
  by (rule leasing.leasing_cache_axioms)

text \<open>Contenders over the server are careful, and time on it only lets leases lapse.\<close>

lemma contender_careful:
  "redis_contender json_parse safeParse opts now kept ctx a \<Longrightarrow> leasing.careful json_parse safeParse ctx a"
  by (auto simp: leasing.careful_def redis.fair_def redis_contender_def settlement_key_payment redis_receipt_def redis_locked_def
      redis_lease_def)

lemma expires_lapses: "expires now kept s w \<Longrightarrow> leasing.lapses s w"
  by (auto simp: leasing.lapses_def expires_def redis_lease_def)

lemma lock_excludes:
  assumes "race_reachable now (redis_contender json_parse safeParse opts now kept) (expires now kept) s"
    and "i < length (ra_contenders s)"
    and "co_pc (ra_contenders s ! i) = At_get x" and "co_pc (ra_contenders (advance now i s) ! i) = At_acquire (Inr True)"
    and "\<forall>j<length (ra_contenders s). j \<noteq> i \<and> co_key (ra_contenders s ! j) = co_key (ra_contenders s ! i) \<longrightarrow>
      \<not> holding (co_pc (ra_contenders s ! j))"
    and "(race_step now (redis_contender json_parse safeParse opts now kept) (expires now kept))\<^sup>*\<^sup>* (advance now i s) s'"
    and "holding (co_pc (ra_contenders s' ! i))" and "now (ra_world s') < now (ra_world s) + SETTLEMENT_LOCK_TTL_MS"
    and "j < length (ra_contenders s')" and "j \<noteq> i" and "co_key (ra_contenders s' ! j) = co_key (ra_contenders s' ! i)"
  shows "\<not> settling (co_pc (ra_contenders s' ! j)) \<and>
    (co_pc (ra_contenders s' ! j) = At_get (Inr None) \<longrightarrow>
      co_pc (ra_contenders (advance now j (advance now j s')) ! j) = At_done (Inr SETTLEMENT_IN_PROGRESS))"
  by (rule leasing.lease_excludes [OF race_reachable_mono [OF assms(1) contender_careful expires_lapses] assms(2-5)
        race_steps_mono [OF assms(6) contender_careful expires_lapses] assms(7-11)])

end

subsection \<open>Property\<close>

text \<open>C40. The lock excludes for 30 seconds, whatever the timing. Let attempts of any gates and processes, for any payments,
  share the Redis cache, while time passes freely, so that locks also expire under their holders. From the moment an
  attempt takes the lock of its payment, with no other attempt of the payment still believing to hold it, and as
  long as it holds the lock and 30 seconds have not passed, no other attempt is settling that payment, and any that
  found no receipt and asks for the lock is answered that the settlement is in progress.\<close>

theorem lock_is_exclusive_for_its_ttl:
  assumes "redis_server opts now kept"
    and "race_reachable now (redis_contender json_parse safeParse opts now kept) (expires now kept) s"
    and "i < length (ra_contenders s)"
    and "co_pc (ra_contenders s ! i) = At_get x" and "co_pc (ra_contenders (advance now i s) ! i) = At_acquire (Inr True)"
    and "\<forall>j<length (ra_contenders s). j \<noteq> i \<and> co_key (ra_contenders s ! j) = co_key (ra_contenders s ! i) \<longrightarrow>
      \<not> holding (co_pc (ra_contenders s ! j))"
    and "(race_step now (redis_contender json_parse safeParse opts now kept) (expires now kept))\<^sup>*\<^sup>* (advance now i s) s'"
    and "holding (co_pc (ra_contenders s' ! i))" and "now (ra_world s') < now (ra_world s) + SETTLEMENT_LOCK_TTL_MS"
    and "j < length (ra_contenders s')" and "j \<noteq> i" and "co_key (ra_contenders s' ! j) = co_key (ra_contenders s' ! i)"
  shows "\<not> settling (co_pc (ra_contenders s' ! j)) \<and>
    (co_pc (ra_contenders s' ! j) = At_get (Inr None) \<longrightarrow>
      co_pc (ra_contenders (advance now j (advance now j s')) ! j) = At_done (Inr SETTLEMENT_IN_PROGRESS))"
  by (rule redis_server.lock_excludes [OF assms])

text \<open>A second process that comes 29.999 seconds after the first took the lock.\<close>

definition first_asks :: "timed_map race" where
  "first_asks = advance snd 0 (enter_race (sample_ctx sample_redis) sample_attempt (new_race (Map.empty, 0)))"

lemma first_asks_fields:
  "length (ra_contenders first_asks) = 1" "co_pc (ra_contenders first_asks ! 0) = At_get (Inr None)" "snd (ra_world first_asks) = 0"
  "co_pc (ra_contenders (advance snd 0 first_asks) ! 0) = At_acquire (Inr True)"
  by (simp_all add: first_asks_def sample_run_simps)

lemma second_comes_later:
  assumes "0 \<le> t"
  shows "(race_step snd sample_contender_ok (expires snd timed_live))\<^sup>*\<^sup>* (advance snd 0 first_asks) (advance snd 1 (second_comes t))"
proof -
  let ?step = "race_step snd sample_contender_ok (expires snd timed_live)" and ?t = "(fst (ra_world first_settles), t)"
  have "?step\<^sup>*\<^sup>* (advance snd 0 first_asks) (advance snd 0 (advance snd 0 (advance snd 0 first_asks)))"
    by (rule rtranclp.rtrancl_into_rtrancl [OF rtranclp.rtrancl_into_rtrancl [OF rtranclp.rtrancl_refl]]; rule race_step.Advance)
      (simp_all add: first_asks_fields)
  then have "?step\<^sup>*\<^sup>* (advance snd 0 first_asks) first_settles" by (simp add: first_settles_def first_asks_def)
  also have "?step first_settles (first_settles\<lparr>ra_world := ?t\<rparr>)" by (rule race_step.Elsewhere) (rule time_passes [OF assms])
  also have "?step \<dots> (second_comes t)" unfolding second_comes_def by (rule race_step.Enter) (rule sample_contender)
  also have "?step \<dots> (advance snd 1 (second_comes t))" by (rule race_step.Advance) (simp add: second_comes_length)
  finally show ?thesis .
qed

theorem lock_is_exclusive_for_its_ttl_witness:
  "co_pc (ra_contenders (advance snd 1 (advance snd 1 (advance snd 1 (second_comes 29999)))) ! 1) = At_done (Inr SETTLEMENT_IN_PROGRESS)"
proof -
  let ?s = "advance snd 1 (second_comes 29999)"
  have f: "co_pc (ra_contenders ?s ! 1) = At_get (Inr None)" "settling (co_pc (ra_contenders ?s ! 0))" "snd (ra_world ?s) = 29999"
    "co_key (ra_contenders ?s ! 1) = co_key (ra_contenders ?s ! 0)" "holding (co_pc (ra_contenders ?s ! 0))"
    "length (ra_contenders ?s) = 2"
    by (simp_all add: second_comes_def first_settles_def sample_run_simps)
  have r: "race_reachable snd sample_contender_ok (expires snd timed_live) first_asks"
    unfolding first_asks_def by (intro sample_enter sample_advance race_reachableI(1)) simp
  have "\<not> settling (co_pc (ra_contenders ?s ! 1)) \<and> (co_pc (ra_contenders ?s ! 1) = At_get (Inr None) \<longrightarrow>
      co_pc (ra_contenders (advance snd 1 (advance snd 1 ?s)) ! 1) = At_done (Inr SETTLEMENT_IN_PROGRESS))"
    by (rule lock_is_exclusive_for_its_ttl [OF map_server.redis_server_axioms r _ first_asks_fields(2,4) _ second_comes_later])
      (simp_all add: f first_asks_fields second_comes_length SETTLEMENT_LOCK_TTL_MS_def del: One_nat_def)
  with f(1) show ?thesis by blast
qed

end
