(* ===== verification/Spec2Isabelle.thy ===== *)
theory Spec2Isabelle
  imports PolicyHistory Router ChannelProofs ChannelSteps Reconcile GateProofs GateSteps ClientProofs
    ObservabilityProofs DashboardProofs ViewProofs SharedGates PolicyOverlap DemoOutcome DemoMain PageProofs Theme
    ChannelQueues PaidReceipts Landing Subscriptions Leases
begin

text \<open>
  A verification development of Tollway: payments for HTTP resources, one by one over x402 or an MPP charge,
  or off-chain over an MPP channel, with one signed receipt for all of them. This theory imports the
  development and documents it; every theory opens with what it holds.

  \<^bold>\<open>The program.\<close> A service puts a gate (\<open>packages/server\<close>) behind a framework adapter
  (\<open>packages/adapter-*\<close>). The gate answers an unpaid request with 402 and an offer; a payment is verified
  and settled by a handler, a facilitator for x402 or an MPP charge handler, and the settlement is
  issued as a receipt that is built, signed and verified by \<open>packages/core\<close>. A cache makes settling
  idempotent, a map of settlements in progress makes duplicates wait, and a lock of the cache keeps
  other processes out. An agent pays through a client (\<open>packages/client\<close>) that asks a router for the model
  and a policy engine for permission (both in \<open>packages/core\<close>), verifies the receipt and records the
  payment. Channels are opened, drawn down and closed by a manager over a commitment store
  (\<open>packages/channels\<close>); what a close settled is compared with the commitments by the reconciler
  (\<open>packages/reconcile\<close>). The hub (\<open>packages/observability\<close>) collects metrics and delivers events. The demo
  (\<open>apps/demo\<close>) puts service and agent together, and the dashboard (\<open>apps/dashboard\<close>) shows agents, channels
  and receipts.

  \<^bold>\<open>How it is modelled.\<close> Functions keep their names. Data are records and datatypes with the source's fields and
  constructors. A throw is \<open>Inl\<close> of \<open>js_error\<close> (\<open>channel_result\<close> in the channel manager), a result \<open>Inr\<close>.
  Effects of injected parts go through a world of any type that is passed along; an injected part is a
  record of functions that may throw and, where the code allows it, change the world. A handler that
  awaits is written out twice: as one function for a run without interruption, and as a function that
  runs one segment, from one await to the next, for interleaved runs (\<open>ChannelSteps\<close>, \<open>GateSteps\<close>,
  \<open>Locking\<close>, \<open>Views\<close>). Strings are lists of characters below 256; amounts are strings of digits, read with
  \<open>BigInt\<close>; bytes and the 32-bit arithmetic of the mock hash are words; the numbers of fractions are
  rationals rounded as IEEE 754 doubles.

  \<^bold>\<open>The theories.\<close>
  \<^item> \<open>Prelude\<close>, \<open>Decimal\<close>, \<open>JsNumber\<close>, \<open>Dates\<close>: maps, joins and list lemmas; integer strings and \<open>BigInt\<close>; doubles;
    \<open>toISOString\<close>, on whose text the policy's daily window and the hub's time window rest.
  \<^item> \<open>Domain\<close>: \<open>core/src/types.ts\<close>, \<open>errors.ts\<close>.
  \<^item> \<open>Policy\<close>, \<open>PolicyHistory\<close>, \<open>PolicyOverlap\<close>: \<open>core/src/policy.ts\<close>. The engine's counters are the record \<open>engine_state\<close>, \<open>check\<close> and
    \<open>record_payment\<close> its operations. The specification recomputes every rule over the history of recorded
    payments; the invariant ties the counters to it and is kept by every operation, so a check decides what
    the history decides. Sequential payers stay within their limits; when up to \<open>n\<close> payments of at
    most \<open>M\<close> overlap, total and cap are exceeded by at most \<open>(n - 1) * M\<close> and a day's budget by at most \<open>n * M\<close>.
  \<^item> \<open>Router\<close>: \<open>core/src/router.ts\<close>.
  \<^item> \<open>Channels\<close>, \<open>ChannelProofs\<close>, \<open>ChannelSteps\<close>, \<open>ChannelQueues\<close>: \<open>packages/channels/src\<close>. The locale \<open>commitment_store\<close> has the laws of
    a store; inside it, every tracked channel agrees with its stream of commitments. The segments of commit
    and close stay within the deposit under every interleaving; two closes may both settle. Callers that wait for
    their calls on a channel are safe: channels agree with their streams and no commit is lost.
  \<^item> \<open>Reconcile\<close>: \<open>packages/reconcile/src/index.ts\<close>, with the clean close as its specification.
  \<^item> \<open>Encoding\<close>, \<open>Canonical\<close>, \<open>Receipt\<close>: \<open>core/src/encoding.ts\<close> and \<open>core/src/receipt\<close>. UTF-8, base64url and canonical JSON
    are injective up to the order of properties, so the bytes that are signed fix the body.
  \<^item> \<open>Hash\<close>, \<open>Headers\<close>, \<open>Cache\<close>, \<open>Handlers\<close>, \<open>Gate\<close>, \<open>GateProofs\<close>, \<open>GateSteps\<close>: \<open>packages/server/src\<close>. The locale
    \<open>receipt_store\<close> has the laws of a cache without locks, and inside it retries get the original receipt; with a lock
    \<open>settle\<close> matters only after two misses. The invariant \<open>process_ok\<close> says that unfinished attempts are registered, hence one per payment and gate.
  \<^item> \<open>GateLiveness\<close>: every request is answered; the measure \<open>work\<close> falls with every turn.
  \<^item> \<open>Locking\<close>, \<open>LockingProofs\<close>, \<open>SharedGates\<close>: attempts of many processes, with a clock. The locale \<open>locking_cache\<close> has the
    laws of a cache with locks whose entries expire, \<open>redis_server\<close> those of a Redis server; a sublocale shows that
    \<open>createRedisSettlementCache\<close> over such a server is a cache with locks. The invariant \<open>race_ok\<close> says that a
    settled payment is past its lifetime, stored for the rest of it, or about to be stored by the holder of its
    lock. Gates with their requests are simulated by the race of their attempts.
  \<^item> \<open>Leases\<close>: the same races when locks expire under their holders. The locale \<open>leasing_cache\<close> extends \<open>locking_cache\<close> by the
    time at which each lock expires; a lock excludes others for its 30 seconds, and a run shows that it does no longer.
  \<^item> \<open>Client\<close>, \<open>ClientProofs\<close>: \<open>packages/client/src/index.ts\<close>; the locale \<open>budget_policy\<close> is what the client asks of a
    policy, interpreted on the engine.
  \<^item> \<open>PaidReceipts\<close>: client, policy, gates and reconciler composed; the books agree with the receipts.
  \<^item> \<open>Observability\<close>, \<open>ObservabilityProofs\<close>: \<open>packages/observability/src/index.ts\<close>.
  \<^item> \<open>Adapters\<close>: the four adapters. The locale \<open>paywall_adapter\<close> is their contract, interpreted four times.
  \<^item> \<open>DemoConfig\<close>, \<open>Demo\<close>, \<open>DemoProofs\<close>, \<open>DemoOutcome\<close>, \<open>DemoMain\<close>: \<open>apps/demo/src\<close>, composed
    from the theories above. The command's report is the run's: its exit code says whether there is a valid receipt.
  \<^item> \<open>Dashboard\<close>, \<open>DashboardProofs\<close>, \<open>Views\<close>, \<open>ViewProofs\<close>: \<open>apps/dashboard/src/app\<close> (agents, channels, receipts) and
    \<open>apps/dashboard/src/data\<close>. Amounts, ratios and orders are functions; the effect that loads or verifies is a step relation of
    renders, effects, clean-ups and promises, with the invariant \<open>view_inv\<close>.
  \<^item> \<open>Subscriptions\<close>: the hooks of \<open>apps/dashboard/src/data\<close> over their sources. Agents and channels always render.
  \<^item> \<open>Markup\<close>, \<open>Pages\<close>, \<open>PageProofs\<close>: HTML trees, the blocks of \<open>components/ui\<close> and the shell of the dashboard, and the
    pages in every state of their subscriptions. A page shows a skeleton, an alert or a table, and the table has
    one row for each row that was loaded, in order. The link from a receipt to its channel has no target.
  \<^item> \<open>Landing\<close>: the landing page of the web site, \<open>apps/web/src/app/(home)\<close> and \<open>components\<close>, with what it refers to.
  \<^item> \<open>Theme\<close>: \<open>packages/theme/src\<close>. The printed stylesheet reads back as the tokens.

  \<^bold>\<open>Arguments and hypotheses.\<close> Code outside the repository is an argument: WebCrypto (key pairs, signing, verifying,
  SHA-256), the messages and the datetime check of the schema library and its verdict on values off the wire,
  \<open>TextDecoder\<close>, \<open>JSON.parse\<close>, \<open>Date.parse\<close>, \<open>URL\<close>, \<open>fetch\<close>, clocks and random identifiers, the x402 and Stellar
  packages, the Redis client. Theorems that need more than totality of these state it: a signature verifies under
  its own key, decoders invert encoders on the values that were encoded, a Redis server keeps what it was
  given. Each has a witness with concrete functions.

  \<^bold>\<open>Loops, bounds and fuel.\<close> Loops are structural recursion or carry a measure. Runs of segments take a number of
  segments; eight always finish an attempt (\<open>attempt_segments_are_settleOnce\<close>) and six a close or a commit
  (\<open>segments_implement_calls\<close>). Retries of the hub end after \<open>maxAttempts\<close>. Comparisons with fractions are exact up to
  a millionth (\<open>drawdown_threshold_within_millionth\<close>) and agree between manager and dashboard at the default
  threshold. \<open>toISOString\<close> is used within the range of ECMAScript dates.

  \<^bold>\<open>Not modelled.\<close> Characters above 255, which are arguments where markup has them; objects with accessors; how the console
  renders an error; classes, inline styles other than the drawdown bar, drawings of icons,
  fonts and page metadata; the documentation pages of the web site, which a library renders from text; package entry
  points that only re-export; build configuration and the samples of a static analysis rule. Errors that are not \<open>Error\<close> objects appear where the code
  distinguishes them, in the client. Numbers that the types leave open are integers where the code counts with them
  (\<open>maxAttempts\<close>, \<open>requestsPerMinute\<close>) or prints them in JSON, so fractions, infinities and exponents are left out; a \<open>fetch\<close>
  that ignores its abort signal and handlers that change the hub that calls them are, too.
\<close>

end
